(* ===== verification/MF_Prelude.thy ===== *)
theory MF_Prelude
  imports Main "HOL-Library.Word" "HOL-Library.Monad_Syntax" "HOL-Library.Sublist"
begin

text \<open>
  Shared vocabulary of the development.

  The program is C. A call that would be undefined behaviour (a write past the end of a
  character array, a read of an uninitialised variable, an index outside an array, a use of
  memory that has been released) is the value \<open>None\<close> of an \<open>option\<close> result, and
  \<open>Some r\<close> is a run that stays inside the language with result \<open>r\<close>. Failures the
  code itself reports (return codes, null pointers) are ordinary values inside \<open>Some\<close>.

  A C string is the list of its characters before the terminating NUL. An array
  \<open>char b[n]\<close> can hold a string of fewer than \<open>n\<close> characters: \<open>c_store n s\<close>
  is the effect of \<open>strcpy\<close> or \<open>sprintf\<close> into it, \<open>c_append\<close> that of
  \<open>strcat\<close>.
\<close>

named_theorems c_safe \<open>equations that say when a C library call stays inside its buffer\<close>

type_synonym cstr = string
type_synonym u64 = "64 word"
type_synonym s32 = "32 word"

subsection \<open>Fixed-size character arrays\<close>

definition c_store :: "nat \<Rightarrow> cstr \<Rightarrow> cstr option" where
  "c_store cap s = (if length s < cap then Some s else None)"

definition c_append :: "nat \<Rightarrow> cstr \<Rightarrow> cstr \<Rightarrow> cstr option" where
  "c_append cap s t = c_store cap (s @ t)"

lemma c_store_Some [c_safe]: "c_store cap s = Some t \<longleftrightarrow> t = s \<and> length s < cap"
  by (auto simp: c_store_def)

lemma c_store_None [c_safe]: "c_store cap s = None \<longleftrightarrow> cap \<le> length s"
  by (auto simp: c_store_def)

lemma c_store_fits [simp]: "length s < cap \<Longrightarrow> c_store cap s = Some s"
  by (simp add: c_store_def)

lemma c_append_Some [c_safe]: "c_append cap s t = Some u \<longleftrightarrow> u = s @ t \<and> length (s @ t) < cap"
  by (auto simp: c_append_def c_store_Some)

lemma c_append_None [c_safe]: "c_append cap s t = None \<longleftrightarrow> cap \<le> length s + length t"
  by (auto simp: c_append_def c_store_None)

lemma c_append_fits [simp]: "length s + length t < cap \<Longrightarrow> c_append cap s t = Some (s @ t)"
  by (simp add: c_append_def)

subsection \<open>Sequencing over a list of inputs\<close>

text \<open>
  A loop whose body may be undefined: the first undefined step makes the loop undefined.
\<close>

fun foldM :: "('a \<Rightarrow> 's \<Rightarrow> 's option) \<Rightarrow> 'a list \<Rightarrow> 's \<Rightarrow> 's option" where
  "foldM f [] s = Some s"
| "foldM f (x # xs) s = do { s' \<leftarrow> f x s; foldM f xs s' }"

lemma foldM_append: "foldM f (xs @ ys) s = do { s' \<leftarrow> foldM f xs s; foldM f ys s' }"
  by (induction xs arbitrary: s) (auto split: Option.bind_split)

lemma foldM_invariant:
  assumes "foldM f xs s = Some t" and "P s"
    and "\<And>x s s'. x \<in> set xs \<Longrightarrow> P s \<Longrightarrow> f x s = Some s' \<Longrightarrow> P s'"
  shows "P t"
  using assms
proof (induction xs arbitrary: s)
  case Nil
  then show ?case by simp
next
  case (Cons x xs)
  from Cons.prems(1) obtain s' where step: "f x s = Some s'" and rest: "foldM f xs s' = Some t"
    by (auto simp: Option.bind_eq_Some_conv)
  have "P s'" using Cons.prems(2,3) step by auto
  with rest show ?case using Cons.IH Cons.prems(3) by auto
qed

lemma foldM_pure: "foldM (\<lambda>x s. Some (f x s)) xs s = Some (fold f xs s)"
  by (induction xs arbitrary: s) auto

subsection \<open>Lists\<close>

text \<open>
  The cuts of a list into blocks of \<open>n\<close> elements, the last one possibly shorter.
\<close>

fun blocks :: "nat \<Rightarrow> 'a list \<Rightarrow> 'a list list" where
  "blocks n [] = []"
| "blocks n (x # xs) = (if n = 0 then [x # xs] else take n (x # xs) # blocks n (drop n (x # xs)))"

lemma concat_blocks [simp]: "concat (blocks n xs) = xs"
  by (induction n xs rule: blocks.induct) (auto simp: drop_Cons' take_Cons' split: if_splits)

lemma blocks_short: "xs \<noteq> [] \<Longrightarrow> length xs \<le> n \<Longrightarrow> blocks n xs = [xs]"
  by (cases xs) auto

lemma blocks_full:
  "0 < n \<Longrightarrow> length xs = n \<Longrightarrow> blocks n (xs @ ys) = xs # blocks n ys"
  by (cases xs) auto

fun join :: "'a list \<Rightarrow> 'a list list \<Rightarrow> 'a list" where
  "join sep [] = []"
| "join sep [x] = x"
| "join sep (x # y # xs) = x @ sep @ join sep (y # xs)"

lemma join_snoc: "xs \<noteq> [] \<Longrightarrow> join sep (xs @ [y]) = join sep xs @ sep @ y"
  by (induction sep xs rule: join.induct) auto

lemma takeWhile_all: "(\<And>x. x \<in> set xs \<Longrightarrow> P x) \<Longrightarrow> takeWhile P xs = xs"
  by (simp add: takeWhile_eq_all_conv)

end
