(* ===== verification/Plugin_Manager.thy ===== *)
theory Plugin_Manager
  imports MF_Prelude
begin

text \<open>
  The plugin manager of \<^verbatim>\<open>agent/plugin_manager.c\<close>: a queue of plugin hooks.

  The EXCESS concurrent queue is a library outside the repository, so its operations are the
  parameter \<open>Q\<close>, over an arbitrary type of queues. What the agent relies on is the
  predicate \<open>fifo_queue\<close>: items leave in the order in which they entered, and
  \<open>ECQ_try_dequeue\<close> fails exactly on an empty queue. Handles are thread-local views of
  the queue and hold no state of their own.
\<close>

record 'h plugin_hook_type =
  hook :: 'h
  hook_name :: cstr

record ('q, 'h) ecq =
  ECQ_create :: 'q
  ECQ_enqueue :: "'q \<Rightarrow> 'h plugin_hook_type \<Rightarrow> 'q"
  ECQ_try_dequeue :: "'q \<Rightarrow> ('h plugin_hook_type \<times> 'q) option"

definition fifo_queue :: "('q, 'h) ecq \<Rightarrow> ('q \<Rightarrow> 'h plugin_hook_type list) \<Rightarrow> bool" where
  "fifo_queue Q items \<longleftrightarrow>
     items (ECQ_create Q) = [] \<and>
     (\<forall>q x. items (ECQ_enqueue Q q x) = items q @ [x]) \<and>
     (\<forall>q. ECQ_try_dequeue Q q = None \<longleftrightarrow> items q = []) \<and>
     (\<forall>q x q'. ECQ_try_dequeue Q q = Some (x, q') \<longrightarrow> items q = x # items q')"

record 'q plugin_manager =
  hook_queue :: 'q

definition PluginManager_new :: "('q, 'h) ecq \<Rightarrow> 'q plugin_manager" where
  "PluginManager_new Q = \<lparr>hook_queue = ECQ_create Q\<rparr>"

definition PluginManager_register_hook ::
  "('q, 'h) ecq \<Rightarrow> 'q plugin_manager \<Rightarrow> cstr \<Rightarrow> 'h \<Rightarrow> 'q plugin_manager" where
  "PluginManager_register_hook Q pm name h =
     pm\<lparr>hook_queue := ECQ_enqueue Q (hook_queue pm) \<lparr>hook = h, hook_name = name\<rparr>\<rparr>"

text \<open>A null hook is \<open>None\<close>.\<close>

definition PluginManager_get_hook ::
  "('q, 'h) ecq \<Rightarrow> 'q plugin_manager \<Rightarrow> 'h option \<times> 'q plugin_manager" where
  "PluginManager_get_hook Q pm =
     (case ECQ_try_dequeue Q (hook_queue pm) of
        None \<Rightarrow> (None, pm)
      | Some (typePtr, q) \<Rightarrow> (Some (hook typePtr), pm\<lparr>hook_queue := q\<rparr>))"

text \<open>The loop of \<open>startThreads\<close> that fills the array \<open>hooks\<close>.\<close>

fun get_hooks :: "('q, 'h) ecq \<Rightarrow> nat \<Rightarrow> 'q plugin_manager \<Rightarrow> 'h option list \<times> 'q plugin_manager" where
  "get_hooks Q 0 pm = ([], pm)"
| "get_hooks Q (Suc n) pm =
     (let (h, pm1) = PluginManager_get_hook Q pm; (hs, pm2) = get_hooks Q n pm1 in (h # hs, pm2))"

definition pm_items :: "('q \<Rightarrow> 'h plugin_hook_type list) \<Rightarrow> 'q plugin_manager \<Rightarrow> 'h plugin_hook_type list" where
  "pm_items items pm = items (hook_queue pm)"

lemma pm_items_new: "fifo_queue Q items \<Longrightarrow> pm_items items (PluginManager_new Q) = []"
  by (simp add: fifo_queue_def pm_items_def PluginManager_new_def)

lemma pm_items_register:
  "fifo_queue Q items \<Longrightarrow>
   pm_items items (PluginManager_register_hook Q pm n h) = pm_items items pm @ [\<lparr>hook = h, hook_name = n\<rparr>]"
  by (simp add: fifo_queue_def pm_items_def PluginManager_register_hook_def)

lemma get_hook_Nil:
  "fifo_queue Q items \<Longrightarrow> pm_items items pm = [] \<Longrightarrow> PluginManager_get_hook Q pm = (None, pm)"
  by (auto simp: fifo_queue_def pm_items_def PluginManager_get_hook_def split: option.split)

lemma get_hook_Cons:
  assumes "fifo_queue Q items" "pm_items items pm = x # xs"
  obtains pm' where "PluginManager_get_hook Q pm = (Some (hook x), pm')" "pm_items items pm' = xs"
proof -
  from assms have "ECQ_try_dequeue Q (hook_queue pm) \<noteq> None" by (simp add: fifo_queue_def pm_items_def)
  then obtain y q where deq: "ECQ_try_dequeue Q (hook_queue pm) = Some (y, q)" by fastforce
  with assms have "y = x" "items q = xs" by (auto simp: fifo_queue_def pm_items_def)
  with deq show ?thesis
    by (intro that [of "pm\<lparr>hook_queue := q\<rparr>"]) (simp_all add: PluginManager_get_hook_def pm_items_def)
qed

lemma get_hooks_list:
  assumes "fifo_queue Q items"
  shows "fst (get_hooks Q n pm) =
      map (\<lambda>x. Some (hook x)) (take n (pm_items items pm)) @ replicate (n - length (pm_items items pm)) None
    \<and> pm_items items (snd (get_hooks Q n pm)) = drop n (pm_items items pm)"
proof (induction n arbitrary: pm)
  case (Suc n)
  show ?case
  proof (cases "pm_items items pm")
    case Nil
    with Suc [of pm] show ?thesis using get_hook_Nil [OF assms Nil] by (simp add: split_def Let_def)
  next
    case (Cons x xs)
    obtain pm' where "PluginManager_get_hook Q pm = (Some (hook x), pm')" "pm_items items pm' = xs"
      using get_hook_Cons [OF assms Cons] .
    with Suc [of pm'] Cons show ?thesis by (simp add: split_def Let_def)
  qed
qed simp

text \<open>
  The hooks come out of the plugin manager in the order in which they were registered,
  each once, and after them only null hooks: filling an array of \<open>n\<close> hooks yields the
  registered hooks, cut or padded with null pointers to length \<open>n\<close>.
\<close>

theorem get_hooks_fifo:
  assumes "fifo_queue Q items"
  shows "fst (get_hooks Q n pm) =
      map (\<lambda>x. Some (hook x)) (take n (pm_items items pm)) @ replicate (n - length (pm_items items pm)) None
    \<and> pm_items items (snd (get_hooks Q n pm)) = drop n (pm_items items pm)"
  by (rule get_hooks_list [OF assms])

text \<open>Lists, with enqueuing at the end, are such a queue.\<close>

definition list_ecq :: "('h plugin_hook_type list, 'h) ecq" where
  "list_ecq = \<lparr>ECQ_create = [], ECQ_enqueue = (\<lambda>q x. q @ [x]),
     ECQ_try_dequeue = (\<lambda>q. case q of [] \<Rightarrow> None | x # xs \<Rightarrow> Some (x, xs))\<rparr>"

lemma fifo_list_ecq: "fifo_queue list_ecq id"
  by (auto simp: fifo_queue_def list_ecq_def split: list.splits)

theorem get_hooks_fifo_witness:
  "fst (get_hooks list_ecq 3
     (PluginManager_register_hook list_ecq
       (PluginManager_register_hook list_ecq (PluginManager_new list_ecq) ''a'' (7 :: int)) ''b'' 8)) =
   [Some 7, Some 8, None]"
  using get_hooks_fifo [OF fifo_list_ecq, of 3 "PluginManager_register_hook list_ecq
       (PluginManager_register_hook list_ecq (PluginManager_new list_ecq) ''a'' (7 :: int)) ''b'' 8"]
  by (simp add: pm_items_register [OF fifo_list_ecq] pm_items_new [OF fifo_list_ecq])

end
