(* ===== verification/C_Float.thy ===== *)
theory C_Float
  imports MF_Prelude "HOL-Library.Log_Nat" Complex_Main
begin

text \<open>
  C floating point. The values of \<open>float\<close> and \<open>double\<close> are the IEEE 754 binary32 and
  binary64 numbers: a finite one is a sign (\<open>True\<close> for minus) and a magnitude, which is a
  rational number. An operation computes the exact result and rounds it to the format of its
  type, to nearest with ties to even (the default rounding mode, which the program never
  changes); \<open>FLT_EVAL_METHOD\<close> is 0 on the program's x86-64 target, so every operation
  rounds to its own type. Subnormal numbers, signed zeros, overflow to infinity and the invalid
  operations are part of the model.
\<close>

datatype cfp = Fin bool rat | Inf bool | NaN

record fmt =
  prec :: nat
  emin :: int
  emax :: int

definition binary32 :: fmt where
  "binary32 = \<lparr>prec = 24, emin = -126, emax = 127\<rparr>"

definition binary64 :: fmt where
  "binary64 = \<lparr>prec = 53, emin = -1022, emax = 1023\<rparr>"

subsection \<open>Rounding\<close>

definition pow2 :: "int \<Rightarrow> rat" where
  "pow2 e = (if 0 \<le> e then 2 ^ nat e else 1 / 2 ^ nat (- e))"

definition ilog2 :: "rat \<Rightarrow> int" where
  "ilog2 q = (if 1 \<le> q then int (floorlog 2 (nat \<lfloor>q\<rfloor>)) - 1
              else - int (floorlog 2 (nat (\<lceil>1 / q\<rceil> - 1))))"

definition rne :: "rat \<Rightarrow> int" where
  "rne q = (let n = \<lfloor>q\<rfloor>; d = q - of_int n in
            if d < 1 / 2 then n else if 1 / 2 < d then n + 1 else if even n then n else n + 1)"

definition quantum :: "fmt \<Rightarrow> rat \<Rightarrow> int" where
  "quantum f q = max (ilog2 q) (emin f) - (int (prec f) - 1)"

definition rnd :: "fmt \<Rightarrow> rat \<Rightarrow> rat" where
  "rnd f q = (if q = 0 then 0 else of_int (rne (q / pow2 (quantum f q))) * pow2 (quantum f q))"

definition fp_round :: "fmt \<Rightarrow> bool \<Rightarrow> rat \<Rightarrow> cfp" where
  "fp_round f s q = (let r = rnd f q in if pow2 (emax f + 1) \<le> r then Inf s else Fin s r)"

subsection \<open>Operations\<close>

definition signed :: "bool \<Rightarrow> rat \<Rightarrow> rat" where
  "signed s q = (if s then - q else q)"

definition fp_of_rat :: "fmt \<Rightarrow> rat \<Rightarrow> cfp" where
  "fp_of_rat f q = fp_round f (q < 0) \<bar>q\<bar>"

fun fp_add :: "fmt \<Rightarrow> cfp \<Rightarrow> cfp \<Rightarrow> cfp" where
  "fp_add f (Fin s a) (Fin t b) =
     (let r = signed s a + signed t b in
      if r = 0 then Fin (s \<and> t) 0 else fp_of_rat f r)"
| "fp_add f (Fin _ _) (Inf t) = Inf t"
| "fp_add f (Inf s) (Fin _ _) = Inf s"
| "fp_add f (Inf s) (Inf t) = (if s = t then Inf s else NaN)"
| "fp_add f _ _ = NaN"

fun fp_neg :: "cfp \<Rightarrow> cfp" where
  "fp_neg (Fin s a) = Fin (\<not> s) a"
| "fp_neg (Inf s) = Inf (\<not> s)"
| "fp_neg NaN = NaN"

definition fp_sub :: "fmt \<Rightarrow> cfp \<Rightarrow> cfp \<Rightarrow> cfp" where
  "fp_sub f x y = fp_add f x (fp_neg y)"

fun fp_mul :: "fmt \<Rightarrow> cfp \<Rightarrow> cfp \<Rightarrow> cfp" where
  "fp_mul f (Fin s a) (Fin t b) = fp_round f (s \<noteq> t) (a * b)"
| "fp_mul f (Fin s a) (Inf t) = (if a = 0 then NaN else Inf (s \<noteq> t))"
| "fp_mul f (Inf s) (Fin t b) = (if b = 0 then NaN else Inf (s \<noteq> t))"
| "fp_mul f (Inf s) (Inf t) = Inf (s \<noteq> t)"
| "fp_mul f _ _ = NaN"

fun fp_div :: "fmt \<Rightarrow> cfp \<Rightarrow> cfp \<Rightarrow> cfp" where
  "fp_div f (Fin s a) (Fin t b) =
     (if b = 0 then (if a = 0 then NaN else Inf (s \<noteq> t)) else fp_round f (s \<noteq> t) (a / b))"
| "fp_div f (Fin s a) (Inf t) = Fin (s \<noteq> t) 0"
| "fp_div f (Inf s) (Fin t b) = Inf (s \<noteq> t)"
| "fp_div f (Inf s) (Inf t) = NaN"
| "fp_div f _ _ = NaN"

text \<open>Comparisons with a NaN operand are false.\<close>

fun fp_less :: "cfp \<Rightarrow> cfp \<Rightarrow> bool" where
  "fp_less (Fin s a) (Fin t b) = (signed s a < signed t b)"
| "fp_less (Fin s a) (Inf t) = (\<not> t)"
| "fp_less (Inf s) (Fin t b) = s"
| "fp_less (Inf s) (Inf t) = (s \<and> \<not> t)"
| "fp_less _ _ = False"

fun fp_le :: "cfp \<Rightarrow> cfp \<Rightarrow> bool" where
  "fp_le (Fin s a) (Fin t b) = (signed s a \<le> signed t b)"
| "fp_le (Fin s a) (Inf t) = (\<not> t)"
| "fp_le (Inf s) (Fin t b) = s"
| "fp_le (Inf s) (Inf t) = (s \<or> \<not> t)"
| "fp_le _ _ = False"

text \<open>Conversions: a \<open>double\<close> assigned to a \<open>float\<close>, integers to either type.\<close>

fun fp_conv :: "fmt \<Rightarrow> cfp \<Rightarrow> cfp" where
  "fp_conv f (Fin s a) = fp_round f s a"
| "fp_conv f (Inf s) = Inf s"
| "fp_conv f NaN = NaN"

definition fp_of_u64 :: "fmt \<Rightarrow> u64 \<Rightarrow> cfp" where
  "fp_of_u64 f w = fp_of_rat f (of_nat (unat w))"

definition fp_of_int :: "fmt \<Rightarrow> int \<Rightarrow> cfp" where
  "fp_of_int f i = fp_of_rat f (of_int i)"

abbreviation "fp_zero \<equiv> Fin False 0"

subsection \<open>Powers of two and the rounding function\<close>


lemma pow2_pos [simp]: "0 < pow2 e"
  by (simp add: pow2_def)

lemma pow2_nz [simp]: "pow2 e \<noteq> 0"
  using pow2_pos [of e] by linarith

lemma pow2_of_nat: "pow2 (int n) = 2 ^ n"
  by (simp add: pow2_def)

lemma pow2_neg: "pow2 (- int n) = 1 / 2 ^ n"
  by (cases n) (simp_all add: pow2_def nat_add_distrib)

lemma pow2_powi: "pow2 e = 2 powi e"
  by (simp add: pow2_def power_int_def inverse_eq_divide power_one_over)

lemma pow2_add: "pow2 (a + b) = pow2 a * pow2 b"
  by (simp add: pow2_powi power_int_add)

lemma pow2_diff: "pow2 (a - b) = pow2 a / pow2 b"
  by (simp add: pow2_powi power_int_diff)

lemma pow2_less: "a < b \<Longrightarrow> pow2 a < pow2 b"
  by (simp add: pow2_powi power_int_strict_increasing)

lemma pow2_less_iff [simp]: "pow2 a < pow2 b \<longleftrightarrow> a < b"
  using pow2_less [of a b] pow2_less [of b a] by (cases a b rule: linorder_cases) auto

lemma pow2_le_iff [simp]: "pow2 a \<le> pow2 b \<longleftrightarrow> a \<le> b"
  by (simp add: linorder_not_less [symmetric])

lemma pow2_nonneg_int: "0 \<le> e \<Longrightarrow> pow2 e = of_int (2 ^ nat e)"
  by (simp add: pow2_def)

lemma ilog2_ge1:
  assumes "1 \<le> q"
  shows "pow2 (ilog2 q) \<le> q \<and> q < pow2 (ilog2 q + 1)"
proof -
  let ?n = "nat \<lfloor>q\<rfloor>"
  let ?k = "floorlog 2 ?n"
  have n: "?n > 0" using assms by simp
  have b: "2 ^ (?k - 1) \<le> ?n" "?n < 2 ^ ?k"
    using floorlog_bounds [of ?n 2] n by simp_all
  have k: "0 < ?k" using n b(2) by (cases ?k) auto
  have q: "of_nat ?n \<le> q" "q < of_nat ?n + 1"
    using assms floor_correct [of q] by simp_all
  have "(2::rat) ^ (?k - 1) \<le> of_nat ?n" using b(1)
    by (metis of_nat_le_iff of_nat_numeral of_nat_power)
  moreover have "of_nat ?n + 1 \<le> (2::rat) ^ ?k" using b(2)
    by (metis Suc_leI of_nat_Suc of_nat_le_iff of_nat_numeral of_nat_power add.commute)
  moreover have e: "ilog2 q = int (?k - 1)" and e1: "ilog2 q + 1 = int ?k"
    using k assms by (simp_all add: ilog2_def of_nat_diff)
  have "pow2 (ilog2 q) = 2 ^ (?k - 1)" unfolding e by (rule pow2_of_nat)
  moreover have "pow2 (ilog2 q + 1) = 2 ^ ?k" unfolding e1 by (rule pow2_of_nat)
  ultimately show ?thesis using q by linarith
qed

lemma ilog2_lt1:
  assumes "0 < q" "q < 1"
  shows "pow2 (ilog2 q) \<le> q \<and> q < pow2 (ilog2 q + 1)"
proof -
  let ?m = "nat (\<lceil>1 / q\<rceil> - 1)"
  let ?k = "floorlog 2 ?m"
  have gt: "1 < 1 / q" using assms by simp
  then have "1 < \<lceil>1 / q\<rceil>" by (subst less_ceiling_iff) simp
  then have m: "?m > 0" and mi: "int ?m = \<lceil>1 / q\<rceil> - 1" by linarith+
  have b: "2 ^ (?k - 1) \<le> ?m" "?m < 2 ^ ?k"
    using floorlog_bounds [of ?m 2] m by simp_all
  have k: "0 < ?k" using m b(2) by (cases ?k) auto
  have r: "of_int (int ?m) < 1 / q" "1 / q \<le> of_int (int ?m + 1)"
    unfolding mi using ceiling_correct [of "1 / q"] by simp_all
  have "(2::rat) ^ (?k - 1) \<le> of_nat ?m" using b(1)
    by (metis of_nat_le_iff of_nat_numeral of_nat_power)
  moreover have "of_nat ?m < 1 / q" using r(1) by (simp only: of_int_of_nat_eq)
  ultimately have lo: "(2::rat) ^ (?k - 1) < 1 / q" by (rule le_less_trans)
  have "of_nat ?m + 1 \<le> (2::rat) ^ ?k" using b(2)
    by (metis Suc_leI of_nat_Suc of_nat_le_iff of_nat_numeral of_nat_power add.commute)
  moreover have "1 / q \<le> of_nat ?m + 1"
    using r(2) by (simp only: of_int_add of_int_of_nat_eq of_int_1)
  ultimately have hi: "1 / q \<le> (2::rat) ^ ?k" by linarith
  have e: "ilog2 q = - int ?k" using assms by (simp add: ilog2_def)
  have "pow2 (ilog2 q) \<le> q"
    using hi assms k by (simp add: e pow2_def field_simps)
  moreover have "q < pow2 (ilog2 q + 1)"
  proof -
    have "ilog2 q + 1 = - int (?k - 1)" using k e by simp
    then have "pow2 (ilog2 q + 1) = 1 / 2 ^ (?k - 1)" by (simp only: pow2_neg)
    moreover have "q < 1 / 2 ^ (?k - 1)" using lo assms by (simp add: field_simps)
    ultimately show ?thesis by (simp only:)
  qed
  ultimately show ?thesis ..
qed

lemma ilog2_bounds: "0 < q \<Longrightarrow> pow2 (ilog2 q) \<le> q" "0 < q \<Longrightarrow> q < pow2 (ilog2 q + 1)"
  using ilog2_ge1 [of q] ilog2_lt1 [of q] by (cases "1 \<le> q"; simp)+

lemma ilog2_mono: "0 < x \<Longrightarrow> x \<le> y \<Longrightarrow> ilog2 x \<le> ilog2 y"
  using ilog2_bounds [of x] ilog2_bounds [of y]
  by (metis le_less_trans less_le_trans pow2_less_iff zless_add1_eq order_le_less)

lemma ilog2_less: "0 < x \<Longrightarrow> x < pow2 e \<Longrightarrow> ilog2 x < e"
  using ilog2_bounds(1) [of x] by (metis le_less_trans pow2_less_iff)

lemma rne_mono: "x \<le> y \<Longrightarrow> rne x \<le> rne y"
proof -
  assume "x \<le> y"
  have f: "\<lfloor>x\<rfloor> \<le> \<lfloor>y\<rfloor>" using \<open>x \<le> y\<close> by (rule floor_mono)
  have c: "rne z = \<lfloor>z\<rfloor> \<or> rne z = \<lfloor>z\<rfloor> + 1" for z by (auto simp: rne_def Let_def)
  show ?thesis
  proof (cases "\<lfloor>x\<rfloor> = \<lfloor>y\<rfloor>")
    case True
    with \<open>x \<le> y\<close> show ?thesis by (auto simp: rne_def Let_def)
  next
    case False
    with f c [of x] c [of y] show ?thesis by auto
  qed
qed

lemma rne_of_int [simp]: "rne (of_int n) = n"
  by (simp add: rne_def)

lemma rne_nonneg: "0 \<le> x \<Longrightarrow> 0 \<le> rne x"
  using rne_mono [of 0 x] rne_of_int [of 0] by simp

lemma rne_error: "\<bar>of_int (rne x) - x\<bar> \<le> 1 / 2"
proof -
  from floor_correct [of x] show ?thesis by (auto simp: rne_def Let_def abs_le_iff field_simps)
qed

definition wf_fmt :: "fmt \<Rightarrow> bool" where
  "wf_fmt f \<longleftrightarrow> 0 < prec f"

lemma wf_binary [simp]: "wf_fmt binary32" "wf_fmt binary64"
  by (simp_all add: wf_fmt_def binary32_def binary64_def)

lemma rnd_0 [simp]: "rnd f 0 = 0"
  by (simp add: rnd_def)

lemma rnd_nonneg: "0 \<le> x \<Longrightarrow> 0 \<le> rnd f x"
  by (auto simp: rnd_def intro!: mult_nonneg_nonneg rne_nonneg divide_nonneg_nonneg less_imp_le [OF pow2_pos])

definition fp_repr :: "fmt \<Rightarrow> rat \<Rightarrow> bool" where
  "fp_repr f q \<longleftrightarrow> (\<exists>n e. q = of_nat n * pow2 e \<and> n < 2 ^ prec f \<and> emin f - (int (prec f) - 1) \<le> e)"

lemma pow2_grid:
  "k \<le> e \<Longrightarrow> of_int m * pow2 e / pow2 k = of_int (m * 2 ^ nat (e - k))"
proof -
  assume "k \<le> e"
  then have "pow2 e / pow2 k = of_int (2 ^ nat (e - k))"
    unfolding pow2_diff [symmetric] by (intro pow2_nonneg_int) simp
  then show ?thesis by (simp only: times_divide_eq_right [symmetric] of_int_mult)
qed

lemma rnd_le_pow2:
  assumes "0 < x" "x \<le> of_int m * pow2 e" "quantum f x \<le> e"
  shows "rnd f x \<le> of_int m * pow2 e"
proof -
  let ?k = "quantum f x"
  have i: "of_int m * pow2 e / pow2 ?k = of_int (m * 2 ^ nat (e - ?k))"
    using assms(3) by (rule pow2_grid)
  have "x / pow2 ?k \<le> of_int m * pow2 e / pow2 ?k" 
    using assms(2) by (intro divide_right_mono less_imp_le [OF pow2_pos])
  then have "rne (x / pow2 ?k) \<le> m * 2 ^ nat (e - ?k)"
    unfolding i using rne_mono rne_of_int by metis
  then have "of_int (rne (x / pow2 ?k)) \<le> of_int m * pow2 e / pow2 ?k"
    unfolding i by (simp only: of_int_le_iff)
  then show ?thesis using assms(1) by (simp add: rnd_def field_simps)
qed

lemma rnd_ge_pow2:
  assumes "0 < x" "of_int m * pow2 e \<le> x" "quantum f x \<le> e"
  shows "of_int m * pow2 e \<le> rnd f x"
proof -
  let ?k = "quantum f x"
  have i: "of_int m * pow2 e / pow2 ?k = of_int (m * 2 ^ nat (e - ?k))"
    using assms(3) by (rule pow2_grid)
  have "of_int m * pow2 e / pow2 ?k \<le> x / pow2 ?k" 
    using assms(2) by (intro divide_right_mono less_imp_le [OF pow2_pos])
  then have "m * 2 ^ nat (e - ?k) \<le> rne (x / pow2 ?k)"
    unfolding i using rne_mono rne_of_int by metis
  then have "of_int m * pow2 e / pow2 ?k \<le> of_int (rne (x / pow2 ?k))"
    unfolding i by (simp only: of_int_le_iff)
  then show ?thesis using assms(1) by (simp add: rnd_def field_simps)
qed

lemma quantum_mono: "0 < x \<Longrightarrow> x \<le> y \<Longrightarrow> quantum f x \<le> quantum f y"
  using ilog2_mono [of x y] by (simp add: quantum_def)

lemma rnd_mono:
  assumes "wf_fmt f" "0 \<le> x" "x \<le> y"
  shows "rnd f x \<le> rnd f y"
proof (cases "x = 0")
  case True
  with assms show ?thesis by (simp add: rnd_nonneg)
next
  case False
  with assms have x: "0 < x" and y: "0 < y" by simp_all
  show ?thesis
  proof (cases "quantum f x = quantum f y")
    case True
    have "x / pow2 (quantum f y) \<le> y / pow2 (quantum f y)"
      using assms(3) by (intro divide_right_mono less_imp_le [OF pow2_pos])
    then show ?thesis using x y True
      by (simp add: rnd_def rne_mono)
  next
    case False
    let ?b = "pow2 (ilog2 y)"
    from False quantum_mono [OF x assms(3), of f] have q: "quantum f x < quantum f y" by simp
    then have "ilog2 x < ilog2 y" and e: "quantum f y = ilog2 y - (int (prec f) - 1)"
      using ilog2_mono [OF x assms(3)] by (auto simp: quantum_def max_def split: if_splits)
    then have "x \<le> ?b"
      using ilog2_bounds(2) [OF x] by (metis add1_zle_eq less_imp_le less_le_trans pow2_le_iff)
    moreover have qy: "quantum f y \<le> ilog2 y" using e assms(1) by (simp add: wf_fmt_def)
    ultimately have "rnd f x \<le> ?b"
      using rnd_le_pow2 [OF x, of 1 "ilog2 y" f] q by simp
    also have "?b \<le> rnd f y"
      using rnd_ge_pow2 [OF y, of 1 "ilog2 y" f] ilog2_bounds(1) [OF y] qy by simp
    finally show ?thesis .
  qed
qed

lemma quantum_repr:
  assumes "0 < n" "n < 2 ^ prec f" "emin f - (int (prec f) - 1) \<le> e"
  shows "quantum f (of_nat n * pow2 e) \<le> e"
proof -
  have "of_nat n < (2::rat) ^ prec f" using assms(2)
    by (metis of_nat_less_iff of_nat_numeral of_nat_power)
  then have "of_nat n * pow2 e < pow2 (int (prec f) + e)"
    by (simp add: pow2_add pow2_of_nat)
  then have "ilog2 (of_nat n * pow2 e) < int (prec f) + e"
    using assms(1) by (intro ilog2_less) simp_all
  with assms(3) show ?thesis by (simp add: quantum_def)
qed

lemma rnd_repr:
  assumes "fp_repr f q"
  shows "rnd f q = q"
proof -
  obtain n e where n: "q = of_nat n * pow2 e" "n < 2 ^ prec f" "emin f - (int (prec f) - 1) \<le> e"
    using assms by (auto simp: fp_repr_def)
  show ?thesis
  proof (cases "n = 0")
    case True
    then show ?thesis using n by simp
  next
    case False
    then have p: "0 < n" by simp
    then have q: "0 < q" using n(1) by simp
    have k: "quantum f q \<le> e" using quantum_repr [OF p n(2,3)] n(1) by simp
    show ?thesis
      using rnd_le_pow2 [OF q, of "int n" e f] rnd_ge_pow2 [OF q, of "int n" e f] k n(1) by simp
  qed
qed

text \<open>A rounded number is a number of its format; one of binary32 is one of binary64 too.\<close>

lemma rnd_form:
  assumes "wf_fmt f" "0 < x"
  obtains n where "rnd f x = of_nat n * pow2 (quantum f x)" "n \<le> 2 ^ prec f"
proof -
  let ?k = "quantum f x"
  have "x < pow2 (max (ilog2 x) (emin f) + 1)"
    using ilog2_bounds(2) [OF assms(2)] by (rule order_less_le_trans) simp
  also have "max (ilog2 x) (emin f) + 1 = int (prec f) + ?k" by (simp add: quantum_def)
  finally have "x / pow2 ?k \<le> of_int (2 ^ prec f)" by (simp add: pow2_add pow2_of_nat field_simps)
  then have "rne (x / pow2 ?k) \<le> rne (of_int (2 ^ prec f))" by (rule rne_mono)
  then have "rne (x / pow2 ?k) \<le> 2 ^ prec f" by (simp only: rne_of_int)
  moreover have "0 \<le> rne (x / pow2 ?k)" using assms(2) by (intro rne_nonneg) (simp add: less_imp_le)
  ultimately show ?thesis using that [of "nat (rne (x / pow2 ?k))"] assms(2)
    by (simp add: rnd_def nat_le_iff)
qed

lemma quantum_least: "emin f - (int (prec f) - 1) \<le> quantum f x"
  by (simp add: quantum_def)

lemma rnd_exact:
  assumes "wf_fmt f" "0 \<le> x"
  shows "fp_repr f (rnd f x)"
proof (cases "x = 0")
  case False
  then have "0 < x" using assms(2) by simp
  then obtain n where n: "rnd f x = of_nat n * pow2 (quantum f x)" "n \<le> 2 ^ prec f"
    by (rule rnd_form [OF assms(1)])
  show ?thesis
  proof (cases "n = 2 ^ prec f")
    case True
    have "prec f = Suc (prec f - 1)" using assms(1) by (simp add: wf_fmt_def)
    then have "(2::nat) ^ prec f = 2 * 2 ^ (prec f - 1)" by (metis power_Suc)
    then have "rnd f x = of_nat (2 ^ (prec f - 1)) * pow2 (quantum f x + 1)" "(2::nat) ^ (prec f - 1) < 2 ^ prec f"
      using n(1) True pow2_of_nat [of 1] by (simp_all add: pow2_add)
    then show ?thesis using quantum_least [of f x] unfolding fp_repr_def
      by (intro exI [of _ "2 ^ (prec f - 1)"] exI [of _ "quantum f x + 1"]) simp
  next
    case False
    then have "n < 2 ^ prec f" using n(2) by simp
    then show ?thesis unfolding fp_repr_def n(1) using quantum_least [of f x]
      by (intro exI [of _ n] exI [of _ "quantum f x"] conjI refl)
  qed
qed (auto simp: fp_repr_def intro: exI [of _ 0])

lemma rnd32_in_64:
  assumes "0 \<le> x"
  shows "fp_repr binary64 (rnd binary32 x)"
proof (cases "x = 0")
  case False
  then have "0 < x" using assms by simp
  then obtain n where n: "rnd binary32 x = of_nat n * pow2 (quantum binary32 x)" "n \<le> 2 ^ prec binary32"
    by (rule rnd_form [OF wf_binary(1)])
  have "(n::nat) < 2 ^ 53" using n(2) by (simp add: binary32_def)
  moreover have "emin binary64 - (int (prec binary64) - 1) \<le> quantum binary32 x"
    using quantum_least [of binary32 x] by (simp add: binary32_def binary64_def)
  ultimately show ?thesis using n(1) by (auto simp: fp_repr_def binary64_def)
qed (auto simp: fp_repr_def intro: exI [of _ 0])

lemma rnd_error: "0 < x \<Longrightarrow> \<bar>rnd f x - x\<bar> \<le> pow2 (quantum f x) / 2"
proof -
  assume x: "0 < x"
  let ?g = "pow2 (quantum f x)"
  have "rnd f x - x = (of_int (rne (x / ?g)) - x / ?g) * ?g"
    using x by (simp add: rnd_def left_diff_distrib)
  then have "\<bar>rnd f x - x\<bar> = \<bar>of_int (rne (x / ?g)) - x / ?g\<bar> * ?g"
    by (simp add: abs_mult less_imp_le)
  also have "\<dots> \<le> 1 / 2 * ?g"
    by (intro mult_right_mono rne_error less_imp_le [OF pow2_pos])
  finally show ?thesis by simp
qed

lemma rnd_rel_error:
  assumes "wf_fmt f" and x: "pow2 (emin f) \<le> x"
  shows "\<bar>rnd f x - x\<bar> \<le> x / 2 ^ prec f"
proof -
  have pos: "0 < x" using x pow2_pos [of "emin f"] by linarith
  have "emin f < ilog2 x + 1"
    using ilog2_bounds(2) [OF pos] x by (metis le_less_trans pow2_less_iff)
  then have q: "quantum f x = ilog2 x - int (prec f - 1)"
    using assms(1) by (simp add: quantum_def wf_fmt_def of_nat_diff)
  have "(2::rat) ^ prec f = 2 * 2 ^ (prec f - 1)"
    using assms(1) by (cases "prec f") (simp_all add: wf_fmt_def)
  then have "pow2 (quantum f x) / 2 = pow2 (ilog2 x) / 2 ^ prec f"
    unfolding q pow2_diff pow2_of_nat by simp
  also have "\<dots> \<le> x / 2 ^ prec f"
    using ilog2_bounds(1) [OF pos] by (intro divide_right_mono) simp_all
  finally show ?thesis using rnd_error [OF pos, of f] by linarith
qed

lemma fp_repr_of_nat: "emin f - (int (prec f) - 1) \<le> 0 \<Longrightarrow> n < 2 ^ prec f \<Longrightarrow> fp_repr f (of_nat n)"
  unfolding fp_repr_def by (rule exI [of _ n], rule exI [of _ 0]) (simp add: pow2_def)

lemma fp_repr_nat32: "n < 2 ^ 24 \<Longrightarrow> fp_repr binary32 (of_nat n)"
  by (rule fp_repr_of_nat) (simp_all add: binary32_def)

lemma fp_repr_nat64: "n < 2 ^ 53 \<Longrightarrow> fp_repr binary64 (of_nat n)"
  by (rule fp_repr_of_nat) (simp_all add: binary64_def)

subsection \<open>The contract of a rounding function\<close>

locale rounding =
  fixes r :: "rat \<Rightarrow> rat" and exact :: "rat \<Rightarrow> bool"
  assumes mono: "0 \<le> x \<Longrightarrow> x \<le> y \<Longrightarrow> r x \<le> r y"
    and exact_id: "exact x \<Longrightarrow> r x = x"
begin

lemma below: "0 \<le> x \<Longrightarrow> x \<le> b \<Longrightarrow> exact b \<Longrightarrow> r x \<le> b"
  using mono [of x b] exact_id [of b] by simp

lemma above: "0 \<le> b \<Longrightarrow> b \<le> x \<Longrightarrow> exact b \<Longrightarrow> b \<le> r x"
  using mono [of b x] exact_id [of b] by simp

lemma absorbed: "0 \<le> x \<Longrightarrow> x \<le> c \<Longrightarrow> r c = b \<Longrightarrow> r x \<le> b"
  using mono [of x c] by simp

end

interpretation r32: rounding "rnd binary32" "fp_repr binary32"
  by unfold_locales (auto intro: rnd_mono rnd_repr)

interpretation r64: rounding "rnd binary64" "fp_repr binary64"
  by unfold_locales (auto intro: rnd_mono rnd_repr)

lemmas r32_below_nat = r32.below [OF _ _ fp_repr_nat32]
lemmas r64_below_nat = r64.below [OF _ _ fp_repr_nat64]
lemmas r64_above_nat = r64.above [OF _ _ fp_repr_nat64]

text \<open>A finite result is an operation that does not overflow.\<close>

lemma fp_round_Fin: "rnd f q < pow2 (emax f + 1) \<Longrightarrow> fp_round f s q = Fin s (rnd f q)"
  by (simp add: fp_round_def Let_def)

lemma fp_round_small:
  assumes "wf_fmt f" "0 \<le> q" "q \<le> of_nat n" "fp_repr f (of_nat n)" "of_nat n < pow2 (emax f + 1)"
  shows "fp_round f s q = Fin s (rnd f q)"
proof -
  have "rnd f q \<le> of_nat n"
    using rnd_mono [OF assms(1-3)] rnd_repr [OF assms(4)] by simp
  with assms(5) show ?thesis by (intro fp_round_Fin) simp
qed

definition below_max64 :: "rat \<Rightarrow> bool" where
  "below_max64 q \<longleftrightarrow> 0 \<le> q \<and> q \<le> 2 ^ 200"

lemma fp_round64: "below_max64 q \<Longrightarrow> fp_round binary64 s q = Fin s (rnd binary64 q)"
proof -
  assume q: "below_max64 q"
  have "fp_repr binary64 (of_nat 1 * pow2 200)"
    unfolding fp_repr_def by (rule exI [of _ 1], rule exI [of _ 200]) (simp add: binary64_def)
  then have "rnd binary64 q \<le> pow2 200"
    using q r64.below [of q "pow2 200"] by (simp add: below_max64_def pow2_def)
  also have "pow2 200 < pow2 (emax binary64 + 1)" by (simp add: binary64_def)
  finally show ?thesis by (rule fp_round_Fin)
qed

lemma fp_round32: "0 \<le> q \<Longrightarrow> q \<le> 2 ^ 100 \<Longrightarrow> fp_round binary32 s q = Fin s (rnd binary32 q)"
proof -
  assume q: "0 \<le> q" "q \<le> 2 ^ 100"
  have "fp_repr binary32 (of_nat 1 * pow2 100)"
    unfolding fp_repr_def by (rule exI [of _ 1], rule exI [of _ 100]) (simp add: binary32_def)
  then have "rnd binary32 q \<le> pow2 100"
    using q r32.below [of q "pow2 100"] by (simp add: pow2_def)
  also have "pow2 100 < pow2 (emax binary32 + 1)" by (simp add: binary32_def)
  finally show ?thesis by (rule fp_round_Fin)
qed

lemma below_max64I: "0 \<le> q \<Longrightarrow> q \<le> c \<Longrightarrow> c \<le> 2 ^ 200 \<Longrightarrow> below_max64 q"
  unfolding below_max64_def by (rule conjI, assumption, rule order_trans)

lemma fp_of_rat64: "below_max64 q \<Longrightarrow> fp_of_rat binary64 q = Fin False (rnd binary64 q)"
  by (simp add: fp_of_rat_def fp_round64 below_max64_def)

lemma of_nat_unat_bound: "of_nat (unat (w :: u64)) \<le> (2 ^ 64 :: rat)"
proof -
  have "unat w \<le> 2 ^ 64" using unsigned_less [of w, where ?'a = nat] by simp
  then show ?thesis by (metis of_nat_le_iff of_nat_numeral of_nat_power)
qed

lemma fp_of_u64_64: "fp_of_u64 binary64 w = Fin False (rnd binary64 (of_nat (unat w)))"
  unfolding fp_of_u64_def
  by (rule fp_of_rat64, rule below_max64I [OF of_nat_0_le_iff of_nat_unat_bound]) simp

subsection \<open>A percentage\<close>

text \<open>
  The shape \<open>a * 100.0 / b\<close> on two counters, computed in \<open>double\<close> and stored in a
  \<open>float\<close>: although every step rounds, the stored value never leaves [0, 100].
\<close>

definition percent_of :: "cfp \<Rightarrow> cfp \<Rightarrow> cfp" where
  "percent_of a b = fp_conv binary32 (fp_div binary64 (fp_mul binary64 a (Fin False 100)) b)"

lemma rnd64_rel: "1 \<le> x \<Longrightarrow> rnd binary64 x \<le> x * (1 + 1 / 2 ^ 53)"
proof -
  assume x: "1 \<le> x"
  have "pow2 (emin binary64) \<le> pow2 0" by (subst pow2_le_iff) (simp add: binary64_def)
  then have "pow2 (emin binary64) \<le> x" using x by (simp add: pow2_def)
  from rnd_rel_error [OF _ this] have "\<bar>rnd binary64 x - x\<bar> \<le> x / 2 ^ prec binary64" by simp
  moreover have "prec binary64 = 53" by (simp add: binary64_def)
  ultimately have "rnd binary64 x - x \<le> x / 2 ^ 53" by (simp only: abs_le_iff)
  moreover have "x * (1 + 1 / 2 ^ 53) = x + x / 2 ^ 53" by (simp only: distrib_left mult_1_right times_divide_eq_right)
  ultimately show ?thesis by linarith
qed

lemma rnd32_near_100: "rnd binary32 (100 + 1 / 2 ^ 20) = 100"
  by code_simp

lemma rnd64_percent_bound: "rnd binary64 (100 + 1 / 2 ^ 40) \<le> 100 + 1 / 2 ^ 20"
  by code_simp

lemma percent_of_range:
  assumes "0 \<le> A" "A \<le> B" "1 \<le> B" "B \<le> 2 ^ 64"
  shows "\<exists>p. percent_of (Fin False A) (Fin False B) = Fin False p \<and> 0 \<le> p \<and> p \<le> 100"
proof -
  let ?m = "rnd binary64 (A * 100)"
  have "(2::rat) ^ 64 * 100 \<le> 2 ^ 200" by simp
  then have big: "below_max64 (A * 100)"
    using assms unfolding below_max64_def by auto
  have m: "fp_mul binary64 (Fin False A) (Fin False 100) = Fin False ?m"
    by (simp add: fp_round64 [OF big])
  have "?m \<le> rnd binary64 (B * 100)" using assms by (intro r64.mono) simp_all
  also have "\<dots> \<le> B * 100 * (1 + 1 / 2 ^ 53)" using assms by (intro rnd64_rel) simp
  finally have "?m / B \<le> 100 * (1 + 1 / 2 ^ 53)"
    using assms by (simp add: divide_le_eq mult_ac)
  also have "(100::rat) * (1 + 1 / 2 ^ 53) \<le> 100 + 1 / 2 ^ 40" by simp
  finally have q: "?m / B \<le> 100 + 1 / 2 ^ 40" .
  have q0: "0 \<le> ?m / B" using assms by (simp add: rnd_nonneg)
  then have "below_max64 (?m / B)" using q by (rule below_max64I) simp
  then have d: "fp_div binary64 (Fin False ?m) (Fin False B) = Fin False (rnd binary64 (?m / B))"
    using assms by (simp add: fp_round64)
  let ?v = "rnd binary64 (?m / B)"
  have "?v \<le> rnd binary64 (100 + 1 / 2 ^ 40)" using q q0 by (rule r64.mono [rotated])
  then have v: "?v \<le> 100 + 1 / 2 ^ 20" using rnd64_percent_bound by (rule order_trans)
  have v0: "0 \<le> ?v" using q0 by (rule rnd_nonneg)
  have "percent_of (Fin False A) (Fin False B) = fp_round binary32 False ?v"
    by (simp only: percent_of_def m d fp_conv.simps)
  also have "\<dots> = Fin False (rnd binary32 ?v)"
  proof (rule fp_round32 [OF v0])
    have "(100::rat) + 1 / 2 ^ 20 \<le> 2 ^ 100" by simp
    with v show "?v \<le> 2 ^ 100" by (rule order_trans)
  qed
  finally show ?thesis
    using r32.absorbed [OF v0 v rnd32_near_100] rnd_nonneg [OF v0, of binary32] by blast
qed

subsection \<open>Conversion to an integer\<close>

text \<open>
  A \<open>double\<close> converted to a signed 64-bit integer drops the fraction; the value is
  undefined when the integer does not fit.
\<close>

fun fp_trunc :: "cfp \<Rightarrow> int option" where
  "fp_trunc (Fin s a) =
     (let n = (if s then - \<lfloor>a\<rfloor> else \<lfloor>a\<rfloor>) in if - (2 ^ 63) \<le> n \<and> n < 2 ^ 63 then Some n else None)"
| "fp_trunc _ = None"

text \<open>
  Dividing a count of nanoseconds by the \<open>double\<close> 10e8 and truncating gives the whole
  seconds, as long as the count is below 2^23 seconds.
\<close>

lemma rnd64_below_next:
  assumes "0 \<le> q" "q < 2 ^ 23" "0 \<le> k" "q \<le> of_int k + 1 - 1 / 10 ^ 9"
  shows "rnd binary64 q < of_int k + 1"
proof (cases "1 \<le> q")
  case True
  have "rnd binary64 q \<le> q + q / 2 ^ 53" using rnd64_rel [OF True] by (simp add: algebra_simps)
  also have "q / 2 ^ 53 < 2 ^ 23 / 2 ^ 53" using assms(2) by (intro divide_strict_right_mono) simp_all
  finally have "rnd binary64 q < q + 1 / 2 ^ 30" by simp
  with assms(4) show ?thesis by simp
next
  case False
  show ?thesis
  proof (cases "k = 0")
    case True
    have "rnd binary64 q \<le> rnd binary64 (999999999 / 10 ^ 9)"
      using assms True by (intro r64.mono) simp_all
    also have "rnd binary64 (999999999 / 10 ^ 9) < 1" by code_simp
    finally show ?thesis using True by simp
  next
    case k: False
    have "rnd binary64 q \<le> of_nat 1" using assms False by (intro r64_below_nat) simp_all
    also have "of_nat 1 < (of_int k + 1 :: rat)" using k assms(3) by simp
    finally show ?thesis .
  qed
qed

lemma of_int_less_rat: "a < b \<Longrightarrow> of_int a < (of_int b :: rat)"
  by (simp only: of_int_less_iff)

lemma of_int_le_rat: "a \<le> b \<Longrightarrow> of_int a \<le> (of_int b :: rat)"
  by (simp only: of_int_le_iff)

lemma seconds_of_nanoseconds:
  assumes "0 \<le> t" "t < 2 ^ 23 * 10 ^ 9"
  shows "fp_trunc (fp_div binary64 (fp_of_int binary64 t) (Fin False (10 ^ 9))) = Some (t div 10 ^ 9)"
proof -
  let ?q = "of_int t / 10 ^ 9 :: rat"
  let ?k = "t div 10 ^ 9"
  have t: "rnd binary64 (of_int t) = of_int t"
    using rnd_repr [OF fp_repr_nat64 [of "nat t"]] assms by simp
  have tb: "(of_int t :: rat) < 2 ^ 23 * 10 ^ 9" using of_int_less_rat [OF assms(2)] by simp
  have tn: "0 \<le> (of_int t :: rat)" using assms(1) by simp
  have "fp_of_rat binary64 (of_int t) = Fin False (rnd binary64 (of_int t))"
    by (rule fp_of_rat64, rule below_max64I [OF tn less_imp_le [OF tb]]) simp
  then have c: "fp_of_int binary64 t = Fin False (of_int t)"
    by (simp only: fp_of_int_def t)
  have q: "0 \<le> ?q" "?q < 2 ^ 23" using assms(1) tb by simp_all
  have "below_max64 ?q" by (rule below_max64I [OF q(1) less_imp_le [OF q(2)]]) simp
  then have d: "fp_div binary64 (Fin False (of_int t)) (Fin False (10 ^ 9)) = Fin False (rnd binary64 ?q)"
    by (simp add: fp_round64)
  have k: "0 \<le> ?k" "?k < 2 ^ 23"
    using assms by (auto simp: pos_imp_zdiv_nonneg_iff div_less_iff_less_mult)
  have "t < ?k * 10 ^ 9 + 10 ^ 9" by (simp add: div_mult_mod_eq [symmetric] algebra_simps)
  then have "t \<le> ?k * 10 ^ 9 + 10 ^ 9 - 1" by simp
  from of_int_le_rat [OF this] have "?q \<le> of_int ?k + 1 - 1 / 10 ^ 9"
    by (simp add: divide_le_eq algebra_simps)
  with q k(1) have hi: "rnd binary64 ?q < of_int ?k + 1" by (intro rnd64_below_next)
  have "?k * 10 ^ 9 \<le> t" by simp
  from of_int_le_rat [OF this] have "of_int ?k \<le> ?q" by (simp add: le_divide_eq)
  then have lo: "of_int ?k \<le> rnd binary64 ?q"
    using r64_above_nat [of "nat ?k" ?q] k by simp
  have "\<lfloor>rnd binary64 ?q\<rfloor> = ?k" using lo hi by (intro floor_unique) simp_all
  then show ?thesis using k unfolding c d by simp
qed

text \<open>\<open>v >= 10e8\<close> on a \<open>long\<close> compares after conversion to \<open>double\<close>.\<close>

lemma fp_le_billion:
  assumes "0 \<le> t" "t < 2 ^ 53"
  shows "fp_le (Fin False (10 ^ 9)) (fp_of_int binary64 t) \<longleftrightarrow> 10 ^ 9 \<le> t"
proof -
  have t: "rnd binary64 (of_int t) = of_int t"
    using rnd_repr [OF fp_repr_nat64 [of "nat t"]] assms by simp
  have tb: "(of_int t :: rat) < 2 ^ 53" using of_int_less_rat [OF assms(2)] by simp
  have tn: "0 \<le> (of_int t :: rat)" using assms(1) by simp
  have "fp_of_rat binary64 (of_int t) = Fin False (rnd binary64 (of_int t))"
    by (rule fp_of_rat64, rule below_max64I [OF tn less_imp_le [OF tb]]) simp
  then have "fp_of_int binary64 t = Fin False (of_int t)"
    by (simp only: fp_of_int_def t)
  then show ?thesis by (simp add: signed_def)
qed

subsection \<open>Integers and exact percentages\<close>

lemma rnd64_2_64: "rnd binary64 (2 ^ 64) = 2 ^ 64"
proof (rule r64.exact_id)
  show "fp_repr binary64 (2 ^ 64)"
    unfolding fp_repr_def by (rule exI [of _ 1], rule exI [of _ 64]) (simp add: pow2_def binary64_def)
qed

lemma percent_of_u64:
  assumes "unat (a :: u64) \<le> unat b" "0 < unat b"
  shows "\<exists>p. percent_of (fp_of_u64 binary64 a) (fp_of_u64 binary64 b) = Fin False p \<and> 0 \<le> p \<and> p \<le> 100"
proof -
  let ?A = "rnd binary64 (of_nat (unat a))" and ?B = "rnd binary64 (of_nat (unat b))"
  have one: "of_nat 1 \<le> (of_nat (unat b) :: rat)" using assms(2) by (simp only: of_nat_le_iff)
  have "of_nat 1 \<le> ?B" by (rule r64_above_nat [OF _ one]) simp_all
  then have one_B: "1 \<le> ?B" by (simp only: of_nat_1)
  have AB: "?A \<le> ?B" using assms(1) by (intro r64.mono) (simp_all only: of_nat_0_le_iff of_nat_le_iff)
  have A: "0 \<le> ?A" by (rule rnd_nonneg) (simp only: of_nat_0_le_iff)
  have "?B \<le> rnd binary64 (2 ^ 64)" using of_nat_unat_bound [of b] by (intro r64.mono) (simp_all only: of_nat_0_le_iff)
  then have B: "?B \<le> 2 ^ 64" unfolding rnd64_2_64 .
  show ?thesis unfolding fp_of_u64_64 by (rule percent_of_range [OF A AB one_B B])
qed

lemma fp_of_int_small:
  assumes "n < 2 ^ 31" shows "fp_of_int binary64 (int n) = Fin False (of_nat n)"
proof -
  have b: "(of_nat n :: rat) \<le> 2 ^ 31" using assms by (metis of_nat_le_iff of_nat_numeral of_nat_power less_imp_le)
  have "fp_of_rat binary64 (of_nat n) = Fin False (rnd binary64 (of_nat n))"
    by (rule fp_of_rat64, rule below_max64I [OF of_nat_0_le_iff b]) simp
  moreover have "rnd binary64 (of_nat n) = of_nat n"
    using assms by (intro r64.exact_id fp_repr_nat64) simp
  ultimately show ?thesis by (simp add: fp_of_int_def)
qed

lemma percent_of_exact:
  assumes "a * 100 = p * b" "0 < b" "a * 100 < 2 ^ 53" "p < 2 ^ 24"
  shows "percent_of (Fin False (of_nat a)) (Fin False (of_nat b)) = Fin False (of_nat p)"
proof -
  have n64: "fp_round binary64 False (of_nat n) = Fin False (of_nat n)" if "n < 2 ^ 53" for n
  proof -
    have "(of_nat n :: rat) \<le> of_nat (2 ^ 53)" using that by (simp only: of_nat_le_iff less_imp_le)
    then have "(of_nat n :: rat) \<le> 2 ^ 53" by simp
    then have "below_max64 (of_nat n)" by (rule below_max64I [OF of_nat_0_le_iff]) simp
    then show ?thesis using r64.exact_id [OF fp_repr_nat64 [OF that]] by (simp only: fp_round64)
  qed
  have n32: "fp_round binary32 False (of_nat p) = Fin False (of_nat p)"
  proof -
    have "(of_nat p :: rat) \<le> of_nat (2 ^ 24)" using assms(4) by (simp only: of_nat_le_iff less_imp_le)
    then have "(of_nat p :: rat) \<le> 2 ^ 100" by simp
    then show ?thesis using r32.exact_id [OF fp_repr_nat32 [OF assms(4)]] by (simp only: fp_round32 of_nat_0_le_iff)
  qed
  have h: "of_nat a * 100 = (of_nat (a * 100) :: rat)" by simp
  have q: "of_nat (a * 100) / of_nat b = (of_nat p :: rat)" using assms(1,2) by simp
  have b: "(of_nat b :: rat) \<noteq> 0" using assms(2) by simp
  have "fp_mul binary64 (Fin False (of_nat a)) (Fin False 100) = Fin False (of_nat (a * 100))"
    by (simp only: fp_mul.simps h n64 [OF assms(3)] simp_thms)
  moreover have "fp_div binary64 (Fin False (of_nat (a * 100))) (Fin False (of_nat b)) = Fin False (of_nat p)"
    using n64 [of p] assms(4) b by (simp only: fp_div.simps q if_False simp_thms) simp
  ultimately show ?thesis by (simp only: percent_of_def fp_conv.simps n32)
qed

lemma fp_add_NaN [simp]: "fp_add f x NaN = NaN" "fp_add f NaN x = NaN"
  by (cases x; simp)+

lemma fp_mul_NaN [simp]: "fp_mul f x NaN = NaN" "fp_mul f NaN x = NaN"
  by (cases x; simp)+

lemma fp_div_NaN [simp]: "fp_div f x NaN = NaN" "fp_div f NaN x = NaN"
  by (cases x; simp)+

lemma fp_sub_NaN [simp]: "fp_sub f x NaN = NaN" "fp_sub f NaN x = NaN"
  by (simp_all add: fp_sub_def)

text \<open>Literals of type \<open>double\<close>.\<close>

abbreviation lit64 :: "rat \<Rightarrow> cfp" where "lit64 q \<equiv> fp_of_rat binary64 q"

lemma lit64_Fin: "0 \<le> q \<Longrightarrow> q \<le> 100 \<Longrightarrow> lit64 q = Fin False (rnd binary64 q)"
  by (intro fp_of_rat64 below_max64I [where c = 100]) simp_all

lemma fp_round_zero [simp]: "fp_round f s 0 = Fin s 0"
  by (simp add: fp_round_def not_le)

lemma fp_of_int_zero [simp]: "fp_of_int f 0 = Fin False 0"
  by (simp add: fp_of_int_def fp_of_rat_def)

lemma fp_round64_nat: "n < 2 ^ 53 \<Longrightarrow> fp_round binary64 s (of_nat n) = Fin s (of_nat n)"
proof -
  assume n: "n < 2 ^ 53"
  then have "(of_nat n :: rat) \<le> of_nat (2 ^ 53)" by (simp only: of_nat_le_iff less_imp_le)
  then have "(of_nat n :: rat) \<le> 2 ^ 53" by simp
  then have "below_max64 (of_nat n)" by (rule below_max64I [OF of_nat_0_le_iff]) simp
  then show ?thesis using r64.exact_id [OF fp_repr_nat64 [OF n]] by (simp only: fp_round64)
qed

lemma fp_sub_nat:
  assumes "b < a" "a < 2 ^ 53"
  shows "fp_sub binary64 (Fin False (of_nat a)) (Fin False (of_nat b)) = Fin False (of_nat (a - b))"
proof -
  have d: "of_nat a + - of_nat b = (of_nat (a - b) :: rat)" using assms(1) by (simp add: of_nat_diff)
  have "(of_nat (a - b) :: rat) \<noteq> 0" using assms(1) by (simp only: of_nat_eq_0_iff diff_is_0_eq not_le)
  moreover have "\<not> (of_nat (a - b) :: rat) < 0" by (simp only: of_nat_less_0_iff not_False_eq_True)
  ultimately show ?thesis using fp_round64_nat [of "a - b"] assms(2)
    by (simp only: fp_sub_def fp_neg.simps fp_add.simps signed_def if_False simp_thms if_True d Let_def
        fp_of_rat_def abs_of_nat)
qed

subsection \<open>Magnitudes are not negative\<close>

definition fp_ok :: "cfp \<Rightarrow> bool" where
  "fp_ok v = (case v of Fin s a \<Rightarrow> 0 \<le> a | _ \<Rightarrow> True)"

lemma fp_ok_simps [simp]: "fp_ok (Fin s a) \<longleftrightarrow> 0 \<le> a" "fp_ok (Inf s)" "fp_ok NaN"
  by (simp_all add: fp_ok_def)

lemma fp_ok_round [simp]: "0 \<le> q \<Longrightarrow> fp_ok (fp_round f s q)"
  by (simp add: fp_round_def Let_def rnd_nonneg)

lemma fp_ok_of_rat [simp]: "fp_ok (fp_of_rat f q)"
  by (simp add: fp_of_rat_def)

lemma fp_ok_of_u64 [simp]: "fp_ok (fp_of_u64 f w)" by (simp add: fp_of_u64_def)

lemma fp_ok_of_int [simp]: "fp_ok (fp_of_int f i)" by (simp add: fp_of_int_def)

lemma fp_ok_add [simp]: "fp_ok (fp_add f x y)"
  by (cases x; cases y) (simp_all add: Let_def)

lemma fp_ok_sub [simp]: "fp_ok (fp_sub f x y)" by (simp add: fp_sub_def)

lemma fp_ok_mul [simp]: "fp_ok x \<Longrightarrow> fp_ok y \<Longrightarrow> fp_ok (fp_mul f x y)"
  by (cases x; cases y) simp_all

lemma fp_ok_div [simp]: "fp_ok x \<Longrightarrow> fp_ok y \<Longrightarrow> fp_ok (fp_div f x y)"
  by (cases x; cases y) simp_all

lemma fp_ok_conv [simp]: "fp_ok x \<Longrightarrow> fp_ok (fp_conv f x)" by (cases x) simp_all

end
