(* ===== verification/C_Strings.thy ===== *)
theory C_Strings
  imports C_Float
begin

text \<open>
  The C library's string functions, as the program uses them (C locale). Strings are the
  characters before the NUL, so \<open>strcmp(s, t) == 0\<close> is \<open>s = t\<close> and
  \<open>strncmp(s, t, n) == 0\<close> is equality of the first \<open>n\<close> characters.
\<close>

abbreviation "NL \<equiv> CHR 0x0A"
abbreviation "NUL \<equiv> CHR 0x00"
abbreviation "DQ \<equiv> CHR 0x22"

subsection \<open>Characters and searching\<close>

definition isspace :: "char \<Rightarrow> bool" where
  "isspace c = (c = CHR '' '' \<or> (9 \<le> (of_char c :: nat) \<and> (of_char c :: nat) \<le> 13))"

definition isdigit :: "char \<Rightarrow> bool" where
  "isdigit c = (48 \<le> (of_char c :: nat) \<and> (of_char c :: nat) \<le> 57)"

definition c_string :: "string \<Rightarrow> cstr" where
  "c_string s = takeWhile (\<lambda>c. c \<noteq> NUL) s"

definition strncmp_eq :: "cstr \<Rightarrow> cstr \<Rightarrow> nat \<Rightarrow> bool" where
  "strncmp_eq s t n = (take n s = take n t)"

fun strstr :: "cstr \<Rightarrow> cstr \<Rightarrow> cstr option" where
  "strstr [] pat = (if pat = [] then Some [] else None)"
| "strstr (c # s) pat = (if prefix pat (c # s) then Some (c # s) else strstr s pat)"

text \<open>\<open>strrchr\<close>: the index of the last occurrence.\<close>

fun strrchr :: "cstr \<Rightarrow> char \<Rightarrow> nat option" where
  "strrchr [] c = None"
| "strrchr (x # xs) c =
     (case strrchr xs c of Some i \<Rightarrow> Some (Suc i) | None \<Rightarrow> if x = c then Some 0 else None)"

subsection \<open>Numbers\<close>

definition digit_char :: "nat \<Rightarrow> char" where
  "digit_char d = char_of (48 + d)"

definition digit_val :: "char \<Rightarrow> nat" where
  "digit_val c = of_char c - 48"

fun show_nat :: "nat \<Rightarrow> string" where
  "show_nat n = (if n < 10 then [digit_char n] else show_nat (n div 10) @ [digit_char (n mod 10)])"

declare show_nat.simps [simp del]

definition show_int :: "int \<Rightarrow> string" where
  "show_int i = (if i < 0 then ''-'' @ show_nat (nat (- i)) else show_nat (nat i))"

definition digits_val :: "string \<Rightarrow> nat" where
  "digits_val ds = foldl (\<lambda>n c. 10 * n + digit_val c) 0 ds"

text \<open>
  An optional sign and a run of digits after leading white space: the part that
  \<open>strtol\<close>, \<open>atoi\<close> and the integer conversions of \<open>sscanf\<close> read.
\<close>

definition scan_sign :: "string \<Rightarrow> bool \<times> string" where
  "scan_sign s = (case s of CHR ''-'' # t \<Rightarrow> (True, t) | CHR ''+'' # t \<Rightarrow> (False, t) | _ \<Rightarrow> (False, s))"

definition scan_number :: "cstr \<Rightarrow> (bool \<times> nat \<times> cstr) option" where
  "scan_number s =
     (let (neg, t) = scan_sign (dropWhile isspace s); ds = takeWhile isdigit t in
      if ds = [] then None else Some (neg, digits_val ds, dropWhile isdigit t))"

definition clamp_long :: "int \<Rightarrow> int" where
  "clamp_long i = max (- (2 ^ 63)) (min (2 ^ 63 - 1) i)"

definition strtol :: "cstr \<Rightarrow> int" where
  "strtol s = (case scan_number s of None \<Rightarrow> 0
     | Some (neg, n, _) \<Rightarrow> clamp_long (if neg then - int n else int n))"

text \<open>A \<open>long\<close> stored in an \<open>int\<close> keeps its low 32 bits.\<close>

definition to_s32 :: "int \<Rightarrow> s32" where
  "to_s32 i = word_of_int i"

definition atoi :: "cstr \<Rightarrow> int" where
  "atoi s = sint (to_s32 (strtol s))"

text \<open>\<open>%llu\<close> and \<open>%lu\<close>, \<open>%d\<close>: value and remaining input; \<open>None\<close> is a matching failure.\<close>

definition scan_u64 :: "cstr \<Rightarrow> (u64 \<times> cstr) option" where
  "scan_u64 s = (case scan_number s of None \<Rightarrow> None
     | Some (neg, n, r) \<Rightarrow>
         if 2 ^ 64 \<le> n then Some (- 1, r)
         else Some (if neg then - of_nat n else of_nat n, r))"

definition scan_s32 :: "cstr \<Rightarrow> (s32 \<times> cstr) option" where
  "scan_s32 s = (case scan_number s of None \<Rightarrow> None
     | Some (neg, n, r) \<Rightarrow> Some (to_s32 (clamp_long (if neg then - int n else int n)), r))"

text \<open>Up to \<open>n\<close> unsigned conversions separated by white space; \<open>sscanf\<close> stops at the first failure.\<close>

fun scan_u64s :: "nat \<Rightarrow> cstr \<Rightarrow> u64 list" where
  "scan_u64s 0 s = []"
| "scan_u64s (Suc n) s = (case scan_u64 s of None \<Rightarrow> [] | Some (v, r) \<Rightarrow> v # scan_u64s n r)"

text \<open>
  \<open>line + n\<close>, which must not pass the terminating NUL, and
  \<open>sscanf(line + n, "%llu", &v)\<close>, which leaves \<open>v\<close> alone when nothing matches.
\<close>

definition skip :: "nat \<Rightarrow> cstr \<Rightarrow> cstr option" where
  "skip n s = (if n \<le> length s then Some (drop n s) else None)"

definition scan_at :: "nat \<Rightarrow> cstr \<Rightarrow> u64 \<Rightarrow> u64 option" where
  "scan_at n line v = do {
     s \<leftarrow> skip n line;
     Some (case scan_u64 s of None \<Rightarrow> v | Some (w, _) \<Rightarrow> w)
   }"

subsection \<open>Decimal numbers\<close>

text \<open>
  \<open>atof\<close> of a decimal number, an optional sign,
  digits with an optional fraction, and an optional exponent. The hexadecimal forms and the
  names of infinity and NaN are outside the model (\<open>None\<close>).
\<close>

definition exponent :: "cstr \<Rightarrow> int" where
  "exponent s = (case s of [] \<Rightarrow> 0
     | c # t \<Rightarrow> if c \<noteq> CHR ''e'' \<and> c \<noteq> CHR ''E'' then 0
        else let (neg, u) = scan_sign t; ds = takeWhile isdigit u in
          if ds = [] then 0 else if neg then - int (digits_val ds) else int (digits_val ds))"

definition decimal :: "cstr \<Rightarrow> rat" where
  "decimal s =
     (let whole = takeWhile isdigit s; r = dropWhile isdigit s;
          frac = (case r of CHR ''.'' # t \<Rightarrow> takeWhile isdigit t | _ \<Rightarrow> []);
          r' = (case r of CHR ''.'' # t \<Rightarrow> dropWhile isdigit t | _ \<Rightarrow> r);
          e = exponent r' - int (length frac) in
      if whole = [] \<and> frac = [] then 0
      else of_nat (digits_val (whole @ frac)) * (if 0 \<le> e then 10 ^ nat e else 1 / 10 ^ nat (- e)))"

definition other_number :: "cstr \<Rightarrow> bool" where
  "other_number s \<longleftrightarrow> (case s of [] \<Rightarrow> False
     | c # t \<Rightarrow> c \<in> set ''iInN'' \<or> (c = CHR ''0'' \<and> t \<noteq> [] \<and> hd t \<in> set ''xX''))"

definition atof :: "cstr \<Rightarrow> cfp option" where
  "atof s = (let (neg, t) = scan_sign (dropWhile isspace s) in
     if other_number t then None else Some (fp_round binary64 neg (decimal t)))"

subsection \<open>Printing of floating-point values\<close>

text \<open>
  \<open>%.df\<close> for \<open>0 < d\<close>: the exact value rounded to \<open>d\<close> decimals, ties to even, as glibc
  prints it. The invalid operations of x86-64 produce the NaN with the sign bit set, which
  prints as \<open>-nan\<close>.
\<close>

definition show_padded :: "nat \<Rightarrow> nat \<Rightarrow> string" where
  "show_padded d n = (let s = show_nat n in replicate (d - length s) CHR ''0'' @ s)"

fun show_fp :: "nat \<Rightarrow> cfp \<Rightarrow> string" where
  "show_fp d (Fin s a) =
     (let n = nat (rne (a * 10 ^ d)) in
      (if s then ''-'' else []) @ show_nat (n div 10 ^ d) @ ''.'' @ show_padded d (n mod 10 ^ d))"
| "show_fp d (Inf s) = (if s then ''-inf'' else ''inf'')"
| "show_fp d NaN = ''-nan''"

subsection \<open>Reading a file line by line\<close>

text \<open>
  \<open>fgets(line, cap, fp)\<close> reads at most \<open>cap - 1\<close> characters, up to and including the
  first newline. \<open>fgets_all\<close> is the sequence of buffers a loop over the file sees.
\<close>

fun read_line :: "nat \<Rightarrow> string \<Rightarrow> string \<times> string" where
  "read_line 0 s = ([], s)"
| "read_line (Suc n) [] = ([], [])"
| "read_line (Suc n) (c # s) =
     (if c = NL then ([c], s) else let (l, r) = read_line n s in (c # l, r))"

lemma read_line_append: "read_line n s = (l, r) \<Longrightarrow> s = l @ r"
  by (induction n s arbitrary: l r rule: read_line.induct) (auto split: if_splits prod.splits)

lemma read_line_length: "read_line n s = (l, r) \<Longrightarrow> length l \<le> n"
  by (induction n s arbitrary: l r rule: read_line.induct) (auto split: if_splits prod.splits)

lemma read_line_nonempty: "read_line (Suc n) (c # s) = (l, r) \<Longrightarrow> l \<noteq> []"
  by (auto split: if_splits prod.splits)

function fgets_all :: "nat \<Rightarrow> string \<Rightarrow> string list" where
  "fgets_all cap s =
     (if cap < 2 \<or> s = [] then [] else let (l, r) = read_line (cap - 1) s in l # fgets_all cap r)"
  by pat_completeness auto
termination
proof (relation "measure (\<lambda>(cap, s). length s)", goal_cases)
  case (2 cap s p l r)
  then obtain c t n where s: "s = c # t" and n: "cap - 1 = Suc n"
    by (cases s; cases "cap - 1") auto
  from 2 have eq: "read_line (cap - 1) s = (l, r)" by simp
  then have "s = l @ r" by (rule read_line_append)
  moreover have "l \<noteq> []" using eq unfolding s n by (rule read_line_nonempty)
  ultimately show ?case by simp
qed simp

declare fgets_all.simps [simp del]

lemma fgets_all_Nil [simp]: "fgets_all cap [] = []"
  by (subst fgets_all.simps) simp

lemma concat_fgets_all: "2 \<le> cap \<Longrightarrow> concat (fgets_all cap s) = s"
proof (induction cap s rule: fgets_all.induct)
  case (1 cap s)
  show ?case
  proof (cases "s = []")
    case False
    obtain l r where lr: "read_line (cap - 1) s = (l, r)" by fastforce
    with False 1 have "concat (fgets_all cap r) = r" by auto
    moreover have "s = l @ r" using lr by (rule read_line_append)
    ultimately show ?thesis using False 1(2) lr by (subst fgets_all.simps) simp
  qed simp
qed

lemma fgets_all_length: "l \<in> set (fgets_all cap s) \<Longrightarrow> length l < cap"
proof (induction cap s rule: fgets_all.induct)
  case (1 cap s)
  show ?case
  proof (cases "cap < 2 \<or> s = []")
    case True
    with 1(2) show ?thesis by (auto simp: fgets_all.simps [of cap s])
  next
    case False
    obtain a r where ar: "read_line (cap - 1) s = (a, r)" by fastforce
    with False 1(2) have "l = a \<or> l \<in> set (fgets_all cap r)"
      by (subst (asm) fgets_all.simps) auto
    then show ?thesis using 1(1) False ar read_line_length [OF ar] by auto
  qed
qed

lemma read_line_full:
  "NL \<notin> set l \<Longrightarrow> length l < n \<Longrightarrow> read_line n (l @ NL # s) = (l @ [NL], s)"
proof (induction l arbitrary: n)
  case Nil
  then show ?case by (cases n) auto
next
  case (Cons a l)
  then show ?case by (cases n) auto
qed

lemma fgets_all_line:
  assumes "NL \<notin> set l" "length l + 2 \<le> cap"
  shows "fgets_all cap (l @ NL # s) = (l @ [NL]) # fgets_all cap s"
  using assms read_line_full [of l "cap - 1" s] by (subst fgets_all.simps) simp

lemma fgets_all_lines:
  assumes "\<forall>l \<in> set ls. NL \<notin> set l \<and> length l + 2 \<le> cap"
  shows "fgets_all cap (concat (map (\<lambda>l. l @ [NL]) ls)) = map (\<lambda>l. l @ [NL]) ls"
  using assms by (induction ls) (auto simp: fgets_all_line)

subsection \<open>Printing and reading back\<close>

lemma of_char_digit [simp]: "d < 10 \<Longrightarrow> of_char (digit_char d) = (48 + d :: nat)"
  by (simp add: digit_char_def)

lemma isdigit_digit_char [simp]: "d < 10 \<Longrightarrow> isdigit (digit_char d)"
  by (simp add: isdigit_def)

lemma digit_val_char [simp]: "d < 10 \<Longrightarrow> digit_val (digit_char d) = d"
  by (simp add: digit_val_def)

lemma show_nat_nonempty [simp]: "show_nat n \<noteq> []"
  by (subst show_nat.simps) simp

lemma show_nat_digits: "c \<in> set (show_nat n) \<Longrightarrow> isdigit c"
proof (induction n rule: show_nat.induct)
  case (1 n)
  then show ?case by (subst (asm) (2) show_nat.simps) (auto split: if_splits)
qed

lemma digits_val_snoc: "digits_val (ds @ [c]) = 10 * digits_val ds + digit_val c"
  by (simp add: digits_val_def)

lemma digits_val_show_nat [simp]: "digits_val (show_nat n) = n"
proof (induction n rule: show_nat.induct)
  case (1 n)
  show ?case
  proof (cases "n < 10")
    case True
    then show ?thesis by (subst show_nat.simps) (simp add: digits_val_def)
  next
    case False
    with 1 show ?thesis by (subst show_nat.simps) (simp add: digits_val_snoc)
  qed
qed

lemma isdigit_not_space: "isdigit c \<Longrightarrow> \<not> isspace c"
  by (auto simp: isdigit_def isspace_def)

lemma isdigit_not_sign: "isdigit c \<Longrightarrow> c \<noteq> CHR ''-'' \<and> c \<noteq> CHR ''+''"
  by (auto simp: isdigit_def)

lemma scan_sign_digit: "isdigit c \<Longrightarrow> scan_sign (c # s) = (False, c # s)"
  using isdigit_not_sign [of c] by (auto simp: scan_sign_def split: char.splits bool.splits list.splits)

text \<open>A printed number followed by a character that is no digit reads back.\<close>

lemma scan_number_show_nat:
  assumes "s = [] \<or> \<not> isdigit (hd s)"
  shows "scan_number (show_nat n @ s) = Some (False, n, s)"
proof -
  obtain c t where ct: "show_nat n = c # t" by (cases "show_nat n") auto
  have d: "\<forall>x \<in> set (show_nat n). isdigit x" using show_nat_digits by blast
  then have c: "isdigit c" by (simp add: ct)
  have sp: "dropWhile isspace (show_nat n @ s) = show_nat n @ s"
    using isdigit_not_space [OF c] by (simp add: ct)
  have sg: "scan_sign (show_nat n @ s) = (False, show_nat n @ s)"
    using scan_sign_digit [OF c] by (simp add: ct)
  have "takeWhile isdigit (show_nat n @ s) = show_nat n" "dropWhile isdigit (show_nat n @ s) = s"
    using d assms by (cases s; simp)+
  then show ?thesis by (simp add: scan_number_def sp sg)
qed

lemma strtol_show_nat:
  "s = [] \<or> \<not> isdigit (hd s) \<Longrightarrow> n < 2 ^ 63 \<Longrightarrow> strtol (show_nat n @ s) = int n"
  by (simp add: strtol_def scan_number_show_nat clamp_long_def)

lemma strtol_range: "- (2 ^ 63) \<le> strtol s \<and> strtol s < 2 ^ 63"
  by (auto simp: strtol_def clamp_long_def split: option.splits prod.splits)

lemma c_string_id: "NUL \<notin> set s \<Longrightarrow> c_string s = s"
  by (auto simp: c_string_def takeWhile_eq_all_conv)

lemma strncmp_eq_prefix: "strncmp_eq s k (length k) \<longleftrightarrow> prefix k s"
  by (auto simp: strncmp_eq_def prefix_def) (metis append_take_drop_id)

lemma show_nat_not: "\<not> isdigit c \<Longrightarrow> c \<notin> set (show_nat n)"
  using show_nat_digits [of c n] by auto

lemma scan_spaces: "isspace c \<Longrightarrow> scan_s32 (c # s) = scan_s32 s"
  by (simp add: scan_s32_def scan_number_def)

lemma length_show_nat: "n < 10 ^ Suc k \<Longrightarrow> length (show_nat n) \<le> Suc k"
proof (induction k arbitrary: n)
  case 0
  then show ?case by (subst show_nat.simps) simp
next
  case (Suc k)
  then have "n div 10 < 10 ^ Suc k" by (simp add: div_less_iff_less_mult)
  with Suc.IH [of "n div 10"] show ?case by (subst show_nat.simps) simp
qed

text \<open>The definitions that evaluate a scan of a concrete text.\<close>

lemmas scan_simps = scan_u64_def scan_s32_def scan_number_def scan_sign_def isspace_def isdigit_def
  digits_val_def digit_val_def

end
