(* ===== verification/Ini_Parser.thy ===== *)
theory Ini_Parser
  imports C_Strings
begin

text \<open>
  The INI parser of \<^verbatim>\<open>parser/libs/ini/ini.c\<close>, compiled with the defaults of \<^verbatim>\<open>ini.h\<close>
  (BOM accepted, multi-line values, no stop on the first error, lines of at most 200 bytes).

  The C code works in place on the buffer \<open>line\<close>: it writes NULs into it and moves the
  pointers \<open>start\<close>, \<open>end\<close>, \<open>name\<close>, \<open>value\<close>. Here each of these is the string it
  points to. \<open>find_char_or_comment s c\<close> returns the string up to the pointer the C
  function returns and the string at that pointer. The callback is a parameter: it maps the
  user state and a section, name and value to its return code (\<open>True\<close> for nonzero) and the
  new user state.
\<close>

definition MAX_SECTION :: nat where "MAX_SECTION = 50"
definition MAX_NAME :: nat where "MAX_NAME = 50"
definition INI_MAX_LINE :: nat where "INI_MAX_LINE = 200"

definition rstrip :: "cstr \<Rightarrow> cstr" where
  "rstrip s = rev (dropWhile isspace (rev s))"

definition lskip :: "cstr \<Rightarrow> cstr" where
  "lskip s = dropWhile isspace s"

fun find_loop :: "bool \<Rightarrow> cstr \<Rightarrow> char \<Rightarrow> cstr \<times> cstr" where
  "find_loop was_whitespace [] c = ([], [])"
| "find_loop was_whitespace (x # s) c =
     (if x = c \<or> (was_whitespace \<and> x = CHR '';'') then ([], x # s)
      else let (before, rest) = find_loop (isspace x) s c in (x # before, rest))"

definition find_char_or_comment :: "cstr \<Rightarrow> char \<Rightarrow> cstr \<times> cstr" where
  "find_char_or_comment s c = find_loop False s c"

definition strncpy0 :: "cstr \<Rightarrow> nat \<Rightarrow> cstr" where
  "strncpy0 src n = take (n - 1) src"

type_synonym 'u handler = "'u \<Rightarrow> cstr \<Rightarrow> cstr \<Rightarrow> cstr \<Rightarrow> bool \<times> 'u"

record 'u ini_state =
  section_name :: cstr
  prev_name :: cstr
  lineno :: nat
  err :: nat
  user :: 'u

definition ini_init :: "'u \<Rightarrow> 'u ini_state" where
  "ini_init u = \<lparr>section_name = [], prev_name = [], lineno = 0, err = 0, user = u\<rparr>"

text \<open>\<open>if (... && !error) error = lineno;\<close>\<close>

definition note_error :: "'u ini_state \<Rightarrow> 'u ini_state" where
  "note_error st = (if err st = 0 then st\<lparr>err := lineno st\<rparr> else st)"

definition call_handler ::
  "'u handler \<Rightarrow> cstr \<Rightarrow> cstr \<Rightarrow> 'u ini_state \<Rightarrow> 'u ini_state" where
  "call_handler h name val st =
     (let (ok, u') = h (user st) (section_name st) name val; st' = st\<lparr>user := u'\<rparr>
      in if ok then st' else note_error st')"

text \<open>The BOM test on the first line: the rest of the line, and whether \<open>start\<close> has moved.\<close>

definition skip_bom :: "nat \<Rightarrow> cstr \<Rightarrow> bool \<times> cstr" where
  "skip_bom n line =
     (if n = 1 \<and> take 3 line = [CHR 0xEF, CHR 0xBB, CHR 0xBF] then (True, drop 3 line)
      else (False, line))"

text \<open>A \<open>[section]\<close> line; \<open>s\<close> is the line after the bracket.\<close>

definition section_line :: "cstr \<Rightarrow> 'u ini_state \<Rightarrow> 'u ini_state" where
  "section_line s st =
     (let (name, rest) = find_char_or_comment s CHR '']'' in
      if rest \<noteq> [] \<and> hd rest = CHR '']''
      then st\<lparr>section_name := strncpy0 name MAX_SECTION, prev_name := []\<rparr>
      else note_error st)"

text \<open>The value of a pair: everything after the separator, without comment and white space.\<close>

definition pair_value :: "cstr \<Rightarrow> cstr" where
  "pair_value s = rstrip (fst (find_char_or_comment (lskip s) NUL))"

definition pair_line :: "'u handler \<Rightarrow> cstr \<Rightarrow> 'u ini_state \<Rightarrow> 'u ini_state" where
  "pair_line h s st =
     (let (b1, r1) = find_char_or_comment s CHR ''='';
          (b, r) = (if r1 = [] \<or> hd r1 \<noteq> CHR ''='' then find_char_or_comment s CHR '':'' else (b1, r1)) in
      if r \<noteq> [] \<and> (hd r = CHR ''='' \<or> hd r = CHR '':'') then
        (let name = rstrip b in
         call_handler h name (pair_value (tl r)) (st\<lparr>prev_name := strncpy0 name MAX_NAME\<rparr>))
      else note_error st)"

text \<open>
  The \<open>if\<close> chain over a stripped line \<open>s\<close>; \<open>indented\<close> is the C test \<open>start > line\<close>.
\<close>

definition ini_dispatch :: "'u handler \<Rightarrow> bool \<Rightarrow> cstr \<Rightarrow> 'u ini_state \<Rightarrow> 'u ini_state" where
  "ini_dispatch h indented s st =
     (if s \<noteq> [] \<and> (hd s = CHR '';'' \<or> hd s = CHR ''#'') then st
      else if prev_name st \<noteq> [] \<and> s \<noteq> [] \<and> indented then call_handler h (prev_name st) s st
      else if s \<noteq> [] \<and> hd s = CHR ''['' then section_line (tl s) st
      else if s \<noteq> [] \<and> hd s \<noteq> CHR '';'' then pair_line h s st
      else st)"

text \<open>One iteration of the loop over the lines of the file.\<close>

definition ini_line :: "'u handler \<Rightarrow> string \<Rightarrow> 'u ini_state \<Rightarrow> 'u ini_state" where
  "ini_line h buf st0 =
     (let st = st0\<lparr>lineno := lineno st0 + 1\<rparr>;
          (moved, s0) = skip_bom (lineno st) (c_string buf);
          s1 = rstrip s0; s = lskip s1 in
      ini_dispatch h (moved \<or> s \<noteq> s1) s st)"

definition ini_parse_file :: "'u handler \<Rightarrow> string \<Rightarrow> 'u \<Rightarrow> nat \<times> 'u" where
  "ini_parse_file h file u =
     (let st = fold (ini_line h) (fgets_all INI_MAX_LINE file) (ini_init u) in (err st, user st))"

text \<open>\<open>ini_parse\<close>: the file system maps a name to the contents of a readable file.\<close>

definition ini_parse :: "(cstr \<Rightarrow> string option) \<Rightarrow> 'u handler \<Rightarrow> cstr \<Rightarrow> 'u \<Rightarrow> int \<times> 'u" where
  "ini_parse fs h filename u =
     (case fs filename of None \<Rightarrow> (- 1, u)
      | Some file \<Rightarrow> let (e, u') = ini_parse_file h file u in (int e, u'))"

subsection \<open>Stripping and searching\<close>

lemma rstrip_id: "s \<noteq> [] \<Longrightarrow> \<not> isspace (last s) \<Longrightarrow> rstrip s = s"
  by (cases s rule: rev_cases) (simp_all add: rstrip_def)

lemma rstrip_Nil [simp]: "rstrip [] = []"
  by (simp add: rstrip_def)

lemma rstrip_spaces: "\<forall>c \<in> set w. isspace c \<Longrightarrow> rstrip (s @ w) = rstrip s"
  by (simp add: rstrip_def dropWhile_append)

lemma lskip_id: "s = [] \<or> \<not> isspace (hd s) \<Longrightarrow> lskip s = s"
  by (cases s) (simp_all add: lskip_def)

lemma lskip_spaces: "\<forall>c \<in> set w. isspace c \<Longrightarrow> lskip (w @ s) = lskip s"
  by (simp add: lskip_def dropWhile_append2)

lemma find_loop_all: "c \<notin> set s \<Longrightarrow> CHR '';'' \<notin> set s \<Longrightarrow> find_loop w s c = (s, [])"
  by (induction s arbitrary: w) auto

lemma find_loop_hit:
  "c \<notin> set s \<Longrightarrow> CHR '';'' \<notin> set s \<Longrightarrow> find_loop w (s @ c # t) c = (s, c # t)"
  by (induction s arbitrary: w) auto

lemma find_loop_split: "find_loop w s c = (b, r) \<Longrightarrow> s = b @ r"
  by (induction w s c arbitrary: b r rule: find_loop.induct) (auto split: if_splits prod.splits)

lemmas find_simps = find_char_or_comment_def find_loop_all find_loop_hit

lemma space_chars [simp]: "isspace CHR '' ''" "isspace NL" "\<not> isspace CHR ''[''" "\<not> isspace CHR '']''"
  "\<not> isspace CHR ''=''"
  by (simp_all add: isspace_def)

subsection \<open>A configuration and its INI text\<close>

text \<open>
  The abstract contents of an INI file: sections with their names and pairs, in order. The
  predicates say which names and values have a textual form that reads back; they allow the
  colon inside a key, which the shipped configuration uses (\<open>device0:current\<close>).
\<close>

type_synonym ini_config = "(cstr \<times> (cstr \<times> cstr) list) list"

definition plain :: "cstr \<Rightarrow> bool" where
  "plain s \<longleftrightarrow> NL \<notin> set s \<and> NUL \<notin> set s \<and> CHR '';'' \<notin> set s"

definition trimmed :: "cstr \<Rightarrow> bool" where
  "trimmed s \<longleftrightarrow> s = [] \<or> (\<not> isspace (hd s) \<and> \<not> isspace (last s))"

definition wf_section :: "cstr \<Rightarrow> bool" where
  "wf_section s \<longleftrightarrow> plain s \<and> CHR '']'' \<notin> set s \<and> length s < MAX_SECTION"

definition wf_pair :: "cstr \<times> cstr \<Rightarrow> bool" where
  "wf_pair = (\<lambda>(k, v). plain k \<and> plain v \<and> trimmed k \<and> trimmed v \<and> k \<noteq> [] \<and> CHR ''='' \<notin> set k \<and>
     hd k \<noteq> CHR ''['' \<and> hd k \<noteq> CHR ''#'' \<and> length k + length v + 5 \<le> INI_MAX_LINE)"

definition wf_config :: "ini_config \<Rightarrow> bool" where
  "wf_config cfg \<longleftrightarrow> (\<forall>(s, kvs) \<in> set cfg. wf_section s \<and> (\<forall>p \<in> set kvs. wf_pair p))"

definition pair_text :: "cstr \<times> cstr \<Rightarrow> cstr" where
  "pair_text = (\<lambda>(k, v). k @ '' = '' @ v)"

definition section_text :: "cstr \<times> (cstr \<times> cstr) list \<Rightarrow> cstr list" where
  "section_text = (\<lambda>(s, kvs). (''['' @ s @ '']'') # map pair_text kvs)"

definition ini_text :: "ini_config \<Rightarrow> string" where
  "ini_text cfg = concat (map (\<lambda>l. l @ [NL]) (concat (map section_text cfg)))"

definition entries :: "ini_config \<Rightarrow> (cstr \<times> cstr \<times> cstr) list" where
  "entries cfg = concat (map (\<lambda>(s, kvs). map (\<lambda>(k, v). (s, k, v)) kvs) cfg)"

lemma hd_plain: "plain s \<Longrightarrow> s \<noteq> [] \<Longrightarrow> hd s \<noteq> CHR '';''"
  by (cases s) (auto simp: plain_def)

lemma c_string_line: "plain s \<Longrightarrow> c_string (s @ [NL]) = s @ [NL]"
  by (intro c_string_id) (simp add: plain_def)

lemma ini_line_section:
  assumes "wf_section s"
  shows "ini_line h (''['' @ s @ '']'' @ [NL]) st =
    st\<lparr>lineno := lineno st + 1, section_name := s, prev_name := []\<rparr>"
proof -
  let ?l = "CHR ''['' # s @ '']''"
  have c: "c_string (CHR ''['' # s @ '']'' @ [NL]) = ?l @ [NL]"
    using assms by (subst c_string_id) (simp_all add: wf_section_def plain_def)
  have bom: "skip_bom n (?l @ [NL]) = (False, ?l @ [NL])" for n
    by (simp add: skip_bom_def)
  have r: "rstrip (?l @ [NL]) = ?l"
    using rstrip_spaces [of "[NL]" ?l] rstrip_id [of ?l] by simp
  have l: "lskip ?l = ?l" by (rule lskip_id) simp
  have f: "find_char_or_comment (s @ '']'') CHR '']'' = (s, '']'')"
    using assms by (simp add: find_simps wf_section_def plain_def)
  have t: "strncpy0 s MAX_SECTION = s"
    using assms by (auto simp: strncpy0_def wf_section_def)
  show ?thesis
    using c bom r l by (simp add: ini_line_def ini_dispatch_def section_line_def f t Let_def)
qed

lemma ini_line_pair:
  assumes "wf_pair (k, v)" and ln: "1 \<le> lineno st"
  shows "ini_line h (pair_text (k, v) @ [NL]) st =
    call_handler h k v (st\<lparr>lineno := lineno st + 1, prev_name := strncpy0 k MAX_NAME\<rparr>)"
proof -
  have k: "k \<noteq> []" "\<not> isspace (hd k)" "\<not> isspace (last k)" "plain k" "CHR ''='' \<notin> set k"
      "hd k \<noteq> CHR ''[''" "hd k \<noteq> CHR ''#''" "hd k \<noteq> CHR '';''"
    and v: "trimmed v" "plain v"
    using assms(1) hd_plain [of k] by (auto simp: wf_pair_def trimmed_def)
  define l where "l = (if v = [] then k @ '' ='' else k @ '' = '' @ v)"
  have c: "c_string (k @ '' = '' @ v @ [NL]) = k @ '' = '' @ v @ [NL]"
    using k v by (subst c_string_id) (simp_all add: plain_def)
  have bom: "skip_bom (lineno st + 1) s = (False, s)" for s
    using ln by (simp add: skip_bom_def)
  have r: "rstrip (k @ '' = '' @ v @ [NL]) = l"
  proof (cases "v = []")
    case True
    then show ?thesis
      using rstrip_spaces [of "[CHR '' '', NL]" "k @ '' =''"] rstrip_id [of "k @ '' =''"] by (simp add: l_def)
  next
    case False
    then show ?thesis
      using v rstrip_spaces [of "[NL]" "k @ '' = '' @ v"] rstrip_id [of "k @ '' = '' @ v"]
      by (simp add: l_def trimmed_def)
  qed
  have ne: "l \<noteq> []" and hdl: "hd l = hd k" using k(1) by (simp_all add: l_def)
  have s: "lskip l = l" using k(2) hdl by (intro lskip_id) simp
  have f: "find_char_or_comment l CHR ''='' = (k @ '' '', CHR ''='' # (if v = [] then [] else '' '' @ v))"
    using k find_loop_hit [of "CHR ''=''" "k @ '' ''" False] by (simp add: l_def find_char_or_comment_def plain_def)
  have n: "rstrip (k @ '' '') = k"
    using rstrip_spaces [of "'' ''" k] rstrip_id [OF k(1,3)] by simp
  have "lskip (if v = [] then [] else '' '' @ v) = v"
    using v lskip_spaces [of "'' ''" v] lskip_id [of v] by (auto simp: trimmed_def lskip_def)
  moreover have "find_char_or_comment v NUL = (v, [])"
    using v by (simp add: find_simps plain_def)
  moreover have "rstrip v = v" using v by (cases "v = []") (auto simp: trimmed_def intro: rstrip_id)
  ultimately have pv: "pair_value (if v = [] then [] else '' '' @ v) = v"
    by (simp add: pair_value_def)
  show ?thesis
    using c bom r s ne hdl k(6-8) pv by (simp add: ini_line_def ini_dispatch_def pair_text_def pair_line_def f n Let_def)
qed

text \<open>A callback that accepts everything: its effect on the user state alone.\<close>

definition accepting :: "('u \<Rightarrow> cstr \<Rightarrow> cstr \<Rightarrow> cstr \<Rightarrow> 'u) \<Rightarrow> 'u handler" where
  "accepting f = (\<lambda>u s n v. (True, f u s n v))"

lemma call_accepting [simp]:
  "call_handler (accepting f) n v st = st\<lparr>user := f (user st) (section_name st) n v\<rparr>"
  by (simp add: call_handler_def accepting_def)

lemma fold_pairs:
  assumes "\<forall>p \<in> set kvs. wf_pair p" "1 \<le> lineno st" "section_name st = s"
  shows "\<exists>n p. 1 \<le> n \<and>
    fold (ini_line (accepting f)) (map (\<lambda>p. pair_text p @ [NL]) kvs) st =
    st\<lparr>lineno := n, prev_name := p, user := fold (\<lambda>(k, v) u. f u s k v) kvs (user st)\<rparr>"
  using assms
proof (induction kvs arbitrary: st)
  case Nil
  then show ?case by (intro exI [of _ "lineno st"] exI [of _ "prev_name st"]) simp
next
  case (Cons p kvs)
  obtain k v where p: "p = (k, v)" by fastforce
  let ?st = "st\<lparr>lineno := lineno st + 1, prev_name := strncpy0 k MAX_NAME, user := f (user st) s k v\<rparr>"
  have "ini_line (accepting f) (pair_text p @ [NL]) st = ?st"
    using ini_line_pair [of k v st "accepting f"] Cons.prems by (simp add: p)
  moreover obtain n q where "1 \<le> n"
    "fold (ini_line (accepting f)) (map (\<lambda>p. pair_text p @ [NL]) kvs) ?st =
     ?st\<lparr>lineno := n, prev_name := q, user := fold (\<lambda>(k, v) u. f u s k v) kvs (user ?st)\<rparr>"
    using Cons.IH [of ?st] Cons.prems by auto
  ultimately show ?case by (intro exI [of _ n] exI [of _ q]) (simp add: p)
qed

lemma fold_sections:
  assumes "wf_config cfg"
  shows "\<exists>n s p. fold (ini_line (accepting f)) (map (\<lambda>l. l @ [NL]) (concat (map section_text cfg))) st =
    st\<lparr>lineno := n, section_name := s, prev_name := p,
       user := fold (\<lambda>(s, k, v) u. f u s k v) (entries cfg) (user st)\<rparr>"
  using assms
proof (induction cfg arbitrary: st)
  case Nil
  then show ?case
    by (intro exI [of _ "lineno st"] exI [of _ "section_name st"] exI [of _ "prev_name st"])
      (simp add: entries_def)
next
  case (Cons sec cfg)
  obtain s kvs where sec: "sec = (s, kvs)" by fastforce
  have wf: "wf_section s" "\<forall>p \<in> set kvs. wf_pair p" "wf_config cfg"
    using Cons.prems by (auto simp: wf_config_def sec)
  let ?st = "st\<lparr>lineno := lineno st + 1, section_name := s, prev_name := []\<rparr>"
  obtain n p where a: "fold (ini_line (accepting f)) (map (\<lambda>p. pair_text p @ [NL]) kvs) ?st =
      ?st\<lparr>lineno := n, prev_name := p, user := fold (\<lambda>(k, v) u. f u s k v) kvs (user ?st)\<rparr>"
    using fold_pairs [OF wf(2), of ?st s f] by auto
  let ?st2 = "?st\<lparr>lineno := n, prev_name := p, user := fold (\<lambda>(k, v) u. f u s k v) kvs (user ?st)\<rparr>"
  obtain n2 s2 p2 where b:
    "fold (ini_line (accepting f)) (map (\<lambda>l. l @ [NL]) (concat (map section_text cfg))) ?st2 =
     ?st2\<lparr>lineno := n2, section_name := s2, prev_name := p2,
       user := fold (\<lambda>(s, k, v) u. f u s k v) (entries cfg) (user ?st2)\<rparr>"
    using Cons.IH [OF wf(3), of ?st2] by auto
  have u: "fold (\<lambda>(s, k, v) u. f u s k v) (map (Pair s) kvs) x =
      fold (\<lambda>(k, v) u. f u s k v) kvs x" for x
    by (induction kvs arbitrary: x) auto
  show ?case
    by (rule exI [of _ n2], rule exI [of _ s2], rule exI [of _ p2],
        insert a b ini_line_section [OF wf(1), of "accepting f" st])
      (simp add: sec section_text_def entries_def u comp_def)
qed

lemma line_lengths:
  assumes "wf_config cfg" "l \<in> set (concat (map section_text cfg))"
  shows "NL \<notin> set l \<and> length l + 2 \<le> INI_MAX_LINE"
  using assms
  by (fastforce simp: wf_config_def section_text_def wf_section_def wf_pair_def pair_text_def plain_def
      MAX_SECTION_def INI_MAX_LINE_def)

lemma ini_parse_text:
  assumes "wf_config cfg"
  shows "ini_parse_file (accepting f) (ini_text cfg) u =
    (0, fold (\<lambda>(s, k, v) u. f u s k v) (entries cfg) u)"
proof -
  have "fgets_all INI_MAX_LINE (ini_text cfg) = map (\<lambda>l. l @ [NL]) (concat (map section_text cfg))"
    unfolding ini_text_def using line_lengths [OF assms] by (intro fgets_all_lines) blast
  moreover obtain n s p where
    "fold (ini_line (accepting f)) (map (\<lambda>l. l @ [NL]) (concat (map section_text cfg))) (ini_init u) =
     (ini_init u)\<lparr>lineno := n, section_name := s, prev_name := p,
       user := fold (\<lambda>(s, k, v) u. f u s k v) (entries cfg) (user (ini_init u))\<rparr>"
    using fold_sections [OF assms, of f "ini_init u"] by auto
  ultimately show ?thesis by (simp add: ini_parse_file_def ini_init_def)
qed

subsection \<open>Which lines are reported\<close>

text \<open>
  A line is malformed in a context (is there a previous name, which line number is it) if it is
  no blank or comment line, no continuation, and neither a closed section header nor a pair with
  a separator before any comment.
\<close>

definition stops_at :: "cstr \<Rightarrow> char \<Rightarrow> bool" where
  "stops_at s c = (let r = snd (find_char_or_comment s c) in r \<noteq> [] \<and> hd r = c)"

definition bad_text :: "cstr \<Rightarrow> bool" where
  "bad_text s =
     (s \<noteq> [] \<and> hd s \<noteq> CHR '';'' \<and> hd s \<noteq> CHR ''#'' \<and>
      (if hd s = CHR ''['' then \<not> stops_at (tl s) CHR '']''
       else \<not> stops_at s CHR ''='' \<and> \<not> stops_at s CHR '':''))"

definition malformed :: "bool \<Rightarrow> nat \<Rightarrow> string \<Rightarrow> bool" where
  "malformed has_prev n buf =
     (let (moved, s0) = skip_bom n (c_string buf); s1 = rstrip s0; s = lskip s1 in
      bad_text s \<and> \<not> (has_prev \<and> (moved \<or> s \<noteq> s1)))"

lemma find_hd: "snd (find_char_or_comment s c) \<noteq> [] \<Longrightarrow>
    hd (snd (find_char_or_comment s c)) = c \<or> hd (snd (find_char_or_comment s c)) = CHR '';''"
proof -
  have "snd (find_loop w s c) \<noteq> [] \<Longrightarrow> hd (snd (find_loop w s c)) = c \<or> hd (snd (find_loop w s c)) = CHR '';''" for w
    by (induction w s c rule: find_loop.induct) (auto split: prod.splits if_splits)
  then show "snd (find_char_or_comment s c) \<noteq> [] \<Longrightarrow> ?thesis" by (simp add: find_char_or_comment_def)
qed

lemma section_line_fields:
  "lineno (section_line s st) = lineno st"
  "err (section_line s st) = (if stops_at s CHR '']'' \<or> err st \<noteq> 0 then err st else lineno st)"
  by (auto simp: section_line_def stops_at_def note_error_def Let_def split: prod.splits)

lemma pair_line_fields:
  "lineno (pair_line (accepting f) s st) = lineno st"
  "err (pair_line (accepting f) s st) =
    (if stops_at s CHR ''='' \<or> stops_at s CHR '':'' \<or> err st \<noteq> 0 then err st else lineno st)"
  using find_hd [of s "CHR ''=''"] find_hd [of s "CHR '':''"]
  by (auto simp: pair_line_def stops_at_def note_error_def Let_def split: prod.splits if_splits)

lemma ini_dispatch_lineno: "lineno (ini_dispatch (accepting f) ind s st) = lineno st"
  by (simp add: ini_dispatch_def section_line_fields pair_line_fields)

lemma ini_dispatch_err: "err (ini_dispatch (accepting f) ind s st) =
    (if bad_text s \<and> \<not> (prev_name st \<noteq> [] \<and> ind) \<and> err st = 0 then lineno st else err st)"
  by (auto simp: ini_dispatch_def bad_text_def section_line_fields pair_line_fields)

lemma ini_line_lineno: "lineno (ini_line (accepting f) buf st) = lineno st + 1"
  by (simp add: ini_line_def ini_dispatch_lineno Let_def split: prod.split)

lemma ini_line_err: "err (ini_line (accepting f) buf st) =
    (if malformed (prev_name st \<noteq> []) (lineno st + 1) buf \<and> err st = 0 then lineno st + 1 else err st)"
  by (simp add: ini_line_def malformed_def ini_dispatch_err Let_def split: prod.split)

lemmas ini_line_fields = ini_line_lineno ini_line_err

text \<open>The state before each line, and the lines malformed in theirs.\<close>

definition state_before :: "('u \<Rightarrow> cstr \<Rightarrow> cstr \<Rightarrow> cstr \<Rightarrow> 'u) \<Rightarrow> string \<Rightarrow> 'u \<Rightarrow> nat \<Rightarrow> 'u ini_state" where
  "state_before f file u i = fold (ini_line (accepting f)) (take i (fgets_all INI_MAX_LINE file)) (ini_init u)"

definition bad_line :: "('u \<Rightarrow> cstr \<Rightarrow> cstr \<Rightarrow> cstr \<Rightarrow> 'u) \<Rightarrow> string \<Rightarrow> 'u \<Rightarrow> nat \<Rightarrow> bool" where
  "bad_line f file u i =
     malformed (prev_name (state_before f file u i) \<noteq> []) (i + 1) (fgets_all INI_MAX_LINE file ! i)"

lemma state_before_Suc:
  "i < length (fgets_all INI_MAX_LINE file) \<Longrightarrow>
   state_before f file u (Suc i) = ini_line (accepting f) (fgets_all INI_MAX_LINE file ! i) (state_before f file u i)"
  by (simp add: state_before_def take_Suc_conv_app_nth)

lemma state_before_err:
  assumes "k \<le> length (fgets_all INI_MAX_LINE txt)"
  shows "lineno (state_before f txt u k) = k \<and>
    (let e = err (state_before f txt u k) in
     if e = 0 then \<forall>i < k. \<not> bad_line f txt u i
     else e \<le> k \<and> bad_line f txt u (e - 1) \<and> (\<forall>i < e - 1. \<not> bad_line f txt u i))"
  using assms
proof (induction k)
  case 0
  then show ?case by (simp add: state_before_def ini_init_def)
next
  case (Suc k)
  then have k: "k < length (fgets_all INI_MAX_LINE txt)" by simp
  show ?case
    using Suc.IH Suc.prems
    by (auto simp: state_before_Suc [OF k] ini_line_fields bad_line_def Let_def less_Suc_eq split: if_splits)
qed

text \<open>The lines of a text behind which a well-formed configuration follows.\<close>

definition lines_text :: "cstr list \<Rightarrow> string" where
  "lines_text ls = concat (map (\<lambda>l. l @ [NL]) ls)"

definition short_lines :: "cstr list \<Rightarrow> bool" where
  "short_lines ls \<longleftrightarrow> (\<forall>l \<in> set ls. NL \<notin> set l \<and> length l + 2 \<le> INI_MAX_LINE)"

lemma fgets_lines_text: "short_lines ls \<Longrightarrow> fgets_all INI_MAX_LINE (lines_text ls) = map (\<lambda>l. l @ [NL]) ls"
  unfolding lines_text_def by (intro fgets_all_lines) (auto simp: short_lines_def)

lemma ini_text_lines: "ini_text cfg = lines_text (concat (map section_text cfg))"
  by (simp add: ini_text_def lines_text_def)

lemma config_user:
  assumes "wf_config cfg"
  shows "user (fold (ini_line (accepting f)) (map (\<lambda>l. l @ [NL]) (concat (map section_text cfg))) st) =
    fold (\<lambda>(s, k, v) u. f u s k v) (entries cfg) (user st)"
  using fold_sections [OF assms, of f st] by auto

lemma ini_parse_behind:
  assumes "short_lines pre" "wf_config cfg"
  shows "snd (ini_parse_file (accepting f) (lines_text pre @ ini_text cfg) u) =
    fold (\<lambda>(s, k, v) u. f u s k v) (entries cfg) (snd (ini_parse_file (accepting f) (lines_text pre) u))"
proof -
  have "short_lines (pre @ concat (map section_text cfg))"
    using assms(1) line_lengths [OF assms(2)] unfolding short_lines_def set_append by blast
  moreover have "lines_text pre @ ini_text cfg = lines_text (pre @ concat (map section_text cfg))"
    by (simp only: ini_text_lines) (simp add: lines_text_def)
  ultimately have "fgets_all INI_MAX_LINE (lines_text pre @ ini_text cfg) =
      map (\<lambda>l. l @ [NL]) pre @ map (\<lambda>l. l @ [NL]) (concat (map section_text cfg))"
    by (simp only: fgets_lines_text map_append)
  then show ?thesis
    by (simp only: ini_parse_file_def Let_def snd_conv fold_append comp_def fgets_lines_text [OF assms(1)] config_user [OF assms(2)])
qed

text \<open>
  C28. With a callback that accepts every pair, as the one of \<open>mf_parser.c\<close> does, \<open>ini_parse\<close>
  returns 0 for a readable file exactly when no line of it is malformed in its context, and
  otherwise the number of the first malformed line. It parses on after an error: whatever lines
  of at most 198 characters come first, malformed or not, the callback then gets every pair of a
  well-formed configuration behind them, under its section and in order.
\<close>

theorem ini_first_error:
  assumes "fs filename = Some file" "ini_parse fs (accepting f) filename u = (e, u')"
  shows "(if e = 0 then \<forall>i < length (fgets_all INI_MAX_LINE file). \<not> bad_line f file u i
      else 0 < e \<and> nat e \<le> length (fgets_all INI_MAX_LINE file) \<and> bad_line f file u (nat e - 1) \<and>
        (\<forall>i < nat e - 1. \<not> bad_line f file u i)) \<and>
    (\<forall>pre cfg. file = lines_text pre @ ini_text cfg \<and> short_lines pre \<and> wf_config cfg \<longrightarrow>
      u' = fold (\<lambda>(s, k, v) u. f u s k v) (entries cfg) (snd (ini_parse_file (accepting f) (lines_text pre) u)))"
proof -
  have r: "ini_parse_file (accepting f) file u = (nat e, u')" "0 \<le> e"
    using assms by (auto simp: ini_parse_def split: prod.splits)
  have "nat e = err (state_before f file u (length (fgets_all INI_MAX_LINE file)))"
    using r(1) by (simp add: ini_parse_file_def state_before_def Let_def)
  then have 1: "if e = 0 then \<forall>i < length (fgets_all INI_MAX_LINE file). \<not> bad_line f file u i
      else 0 < e \<and> nat e \<le> length (fgets_all INI_MAX_LINE file) \<and> bad_line f file u (nat e - 1) \<and>
        (\<forall>i < nat e - 1. \<not> bad_line f file u i)"
    using state_before_err [of "length (fgets_all INI_MAX_LINE file)" "file" f u] r(2)
    by (auto simp: Let_def split: if_splits)
  have "u' = snd (ini_parse_file (accepting f) file u)" by (simp add: r(1))
  then show ?thesis using 1 by (simp add: ini_parse_behind)
qed

theorem ini_first_error_witness:
  "\<exists>e u. ini_parse (\<lambda>_. Some (lines_text [''junk''] @ ini_text [(''s'', [(''k'', ''v'')])])) (accepting (\<lambda>u s n v. (s, n, v) # u)) ''f'' [] = (e, u) \<and>
     e = 1 \<and> u = [(''s'', ''k'', ''v'')] \<and>
     bad_line (\<lambda>u s n v. (s, n, v) # u) (lines_text [''junk''] @ ini_text [(''s'', [(''k'', ''v'')])]) [] 0"
proof -
  let ?t = "lines_text [''junk''] @ ini_text [(''s'', [(''k'', ''v'')])]" and ?f = "\<lambda>u s n v. (s, n, v) # u"
  obtain e u where p: "ini_parse (\<lambda>_. Some ?t) (accepting ?f) ''f'' [] = (e, u)" by fastforce
  have c: "ini_parse (\<lambda>_. Some ?t) (accepting ?f) ''f'' [] = (1, [(''s'', ''k'', ''v'')])" by code_simp
  have j: "snd (ini_parse_file (accepting ?f) (lines_text [''junk'']) []) = []" by code_simp
  have e: "entries [(''s'', [(''k'', ''v'')])] = [(''s'', ''k'', ''v'')]" by (simp add: entries_def)
  have w: "short_lines [''junk'']" "wf_config [(''s'', [(''k'', ''v'')])]" by code_simp+
  from ini_first_error [where fs = "\<lambda>_. Some ?t" and f = ?f, OF refl p]
  have "(if e = 0 then \<forall>i < length (fgets_all INI_MAX_LINE ?t). \<not> bad_line ?f ?t [] i
      else 0 < e \<and> nat e \<le> length (fgets_all INI_MAX_LINE ?t) \<and> bad_line ?f ?t [] (nat e - 1) \<and>
        (\<forall>i < nat e - 1. \<not> bad_line ?f ?t [] i))" and "u = [(''s'', ''k'', ''v'')]"
    using w j e by (blast, fastforce)
  then show ?thesis using p c by simp
qed

end
