(* ===== verification/Mf_Parser.thy ===== *)
theory Mf_Parser
  imports Ini_Parser
begin

text \<open>
  The configuration store of \<^verbatim>\<open>parser/src/mf_parser.c\<close>: a hash table of sections, each a
  hash table from keys to values, filled by the INI parser.

  The three static variables are the record \<open>mfp_state\<close>; the pool \<open>mp\<close> matters only for
  being alive, since every table is allocated in it and \<open>mfp_parse_clean\<close> destroys it while
  \<open>ht_initialized\<close> stays 1. An apr hash table is a finite map; the order in which
  \<open>apr_hash_first\<close>/\<open>apr_hash_next\<close> visit it is not specified by apr and is the parameter
  \<open>order\<close> of the two functions that iterate.
\<close>

type_synonym table = "cstr \<rightharpoonup> cstr"

record mfp_state =
  ht_initialized :: bool
  mp_alive :: bool
  ht_config :: "cstr \<rightharpoonup> table"

definition mfp_start :: mfp_state where
  "mfp_start = \<lparr>ht_initialized = False, mp_alive = False, ht_config = Map.empty\<rparr>"

text \<open>
  The copies of the three strings are taken from the memory pool, which is alive: the only caller
  is the callback of \<open>mfp_parse\<close>, which has just created it.
\<close>

definition mfp_set_value :: "cstr \<Rightarrow> cstr \<Rightarrow> cstr \<Rightarrow> mfp_state \<Rightarrow> mfp_state" where
  "mfp_set_value section key val st =
     (if \<not> ht_initialized st then st
      else let ht_values = (case ht_config st section of None \<Rightarrow> Map.empty | Some t \<Rightarrow> t) in
        st\<lparr>ht_config := (ht_config st)(section \<mapsto> ht_values(key \<mapsto> val))\<rparr>)"

definition handle_parser :: "mfp_state handler" where
  "handle_parser = accepting (\<lambda>st section name val. mfp_set_value section name val st)"

text \<open>\<open>mfp_parse\<close> drops the previous table before it reads the file; parse errors (a positive
  return of \<open>ini_parse\<close>) count as success.\<close>

definition mfp_parse :: "(cstr \<Rightarrow> string option) \<Rightarrow> cstr \<Rightarrow> mfp_state \<Rightarrow> int \<times> mfp_state" where
  "mfp_parse fs filename st =
     (let st0 = st\<lparr>ht_initialized := True, mp_alive := True, ht_config := Map.empty\<rparr>;
          (error, st1) = ini_parse fs handle_parser filename st0
      in if error < 0 then (0, st1) else (1, st1))"

text \<open>
  \<open>mfp_get_value section key ret_val\<close> with \<open>ret_val\<close> an array of \<open>cap\<close> characters that
  holds \<open>cur\<close>: the new contents. \<open>None\<close> is the overflow of \<open>ret_val\<close>, or a lookup in
  the destroyed pool.
\<close>

definition mfp_get_value :: "mfp_state \<Rightarrow> cstr \<Rightarrow> cstr \<Rightarrow> nat \<Rightarrow> cstr \<Rightarrow> cstr option" where
  "mfp_get_value st section key cap cur =
     (if \<not> ht_initialized st then Some cur
      else if \<not> mp_alive st then None
      else case ht_config st section of None \<Rightarrow> Some cur
        | Some ht_values \<Rightarrow>
            (case ht_values key of None \<Rightarrow> Some cur | Some v \<Rightarrow> c_store cap v))"

text \<open>\<open>mfp_data\<close>: two arrays of 256 string pointers and the number in use.\<close>

definition MFP_DATA_SIZE :: nat where "MFP_DATA_SIZE = 256"

record mfp_data =
  keys :: "cstr list"
  vals :: "cstr list"

definition mfp_data_add :: "cstr \<times> cstr \<Rightarrow> mfp_data \<Rightarrow> mfp_data option" where
  "mfp_data_add = (\<lambda>(key, val) d.
     if MFP_DATA_SIZE \<le> length (keys d) then None
     else do {
       k \<leftarrow> c_store 256 key;
       v \<leftarrow> c_store 256 val;
       Some (d\<lparr>keys := keys d @ [k], vals := vals d @ [v]\<rparr>)
     })"

text \<open>
  The \<open>size\<close> of the result is the length of the two lists. When the store was never
  initialised the C function leaves the structure untouched (\<open>data\<close>).
\<close>

definition mfp_get_data_filtered_by_value ::
  "(table \<Rightarrow> cstr list) \<Rightarrow> mfp_state \<Rightarrow> cstr \<Rightarrow> cstr option \<Rightarrow> mfp_data \<Rightarrow> mfp_data option" where
  "mfp_get_data_filtered_by_value order st section filter_by_value data =
     (if \<not> ht_initialized st then Some data
      else if \<not> mp_alive st then None
      else case ht_config st section of None \<Rightarrow> Some \<lparr>keys = [], vals = []\<rparr>
        | Some t \<Rightarrow>
            foldM mfp_data_add
              [(k, the (t k)). k \<leftarrow> order t,
                 case filter_by_value of None \<Rightarrow> True | Some f \<Rightarrow> t k = Some f]
              \<lparr>keys = [], vals = []\<rparr>)"

definition mfp_get_data ::
  "(table \<Rightarrow> cstr list) \<Rightarrow> mfp_state \<Rightarrow> cstr \<Rightarrow> mfp_data \<Rightarrow> mfp_data option" where
  "mfp_get_data order st section data = mfp_get_data_filtered_by_value order st section None data"

definition mfp_parse_clean :: "mfp_state \<Rightarrow> mfp_state" where
  "mfp_parse_clean st = (if \<not> ht_initialized st then st else st\<lparr>mp_alive := False\<rparr>)"

subsection \<open>The contract of a two-level store\<close>

text \<open>
  What the INI callback relies on: a write is seen by a read of the same section and key and
  by no other read. Inside the locale: after a sequence of writes a read gives the last write
  to that place.
\<close>

fun last_write :: "(cstr \<times> cstr \<times> cstr) list \<Rightarrow> cstr \<Rightarrow> cstr \<Rightarrow> cstr option" where
  "last_write [] s k = None"
| "last_write ((s', k', v) # ws) s k =
     (case last_write ws s k of Some w \<Rightarrow> Some w
      | None \<Rightarrow> if s' = s \<and> k' = k then Some v else None)"

lemma last_write_snoc:
  "last_write (ws @ [(s', k', v)]) s k = (if s' = s \<and> k' = k then Some v else last_write ws s k)"
  by (induction ws) (auto split: option.splits)

locale config_store =
  fixes get :: "'s \<Rightarrow> cstr \<Rightarrow> cstr \<Rightarrow> cstr option"
    and put :: "cstr \<Rightarrow> cstr \<Rightarrow> cstr \<Rightarrow> 's \<Rightarrow> 's"
    and usable :: "'s \<Rightarrow> bool"
  assumes get_put: "usable st \<Longrightarrow> get (put s k v st) s' k' = (if s = s' \<and> k = k' then Some v else get st s' k')"
    and usable_put: "usable st \<Longrightarrow> usable (put s k v st)"
begin

lemma usable_writes: "usable st \<Longrightarrow> usable (fold (\<lambda>(s, k, v) st. put s k v st) ws st)"
  by (induction ws arbitrary: st) (auto simp: usable_put)

lemma get_writes:
  "usable st \<Longrightarrow> get (fold (\<lambda>(s, k, v) st. put s k v st) ws st) s k =
    (case last_write ws s k of Some v \<Rightarrow> Some v | None \<Rightarrow> get st s k)"
proof (induction ws rule: rev_induct)
  case (snoc w ws)
  then show ?case
    using usable_writes [OF snoc.prems, of ws] by (cases w) (auto simp: get_put last_write_snoc)
qed simp

end

definition mfp_lookup :: "mfp_state \<Rightarrow> cstr \<Rightarrow> cstr \<Rightarrow> cstr option" where
  "mfp_lookup st s k = (case ht_config st s of None \<Rightarrow> None | Some t \<Rightarrow> t k)"

lemma mfp_lookup_set:
  "ht_initialized st \<Longrightarrow> mfp_lookup (mfp_set_value s k v st) s' k' =
    (if s = s' \<and> k = k' then Some v else mfp_lookup st s' k')"
  by (cases "ht_config st s") (simp_all add: mfp_lookup_def mfp_set_value_def Let_def)

interpretation mf: config_store mfp_lookup mfp_set_value ht_initialized
  by unfold_locales (simp_all add: mfp_lookup_set, simp add: mfp_set_value_def Let_def)

lemma mfp_set_value_alive [simp]: "mp_alive (mfp_set_value s k v st) = mp_alive st"
  by (simp add: mfp_set_value_def Let_def)

lemma writes_alive [simp]:
  "mp_alive (fold (\<lambda>(s, k, v) st. mfp_set_value s k v st) ws st) = mp_alive st"
proof (induction ws arbitrary: st)
  case (Cons w ws)
  then show ?case by (cases w) simp
qed simp

lemma mfp_get_value_lookup:
  "ht_initialized st \<Longrightarrow> mp_alive st \<Longrightarrow>
   mfp_get_value st s k cap cur = (case mfp_lookup st s k of None \<Rightarrow> Some cur | Some v \<Rightarrow> c_store cap v)"
  by (simp add: mfp_get_value_def mfp_lookup_def split: option.splits)

lemma mfp_parse_text:
  assumes "wf_config cfg" "fs name = Some (ini_text cfg)"
  shows "fst (mfp_parse fs name st) = 1"
    and "ht_initialized (snd (mfp_parse fs name st))" and "mp_alive (snd (mfp_parse fs name st))"
    and "mfp_lookup (snd (mfp_parse fs name st)) s k = last_write (entries cfg) s k"
proof -
  let ?st0 = "st\<lparr>ht_initialized := True, mp_alive := True, ht_config := Map.empty\<rparr>"
  let ?st1 = "fold (\<lambda>(s, k, v) st. mfp_set_value s k v st) (entries cfg) ?st0"
  have "mfp_parse fs name st = (1, ?st1)"
    using assms(2) by (simp add: mfp_parse_def ini_parse_def handle_parser_def ini_parse_text [OF assms(1)])
  moreover have "mfp_lookup ?st0 s k = None" by (simp add: mfp_lookup_def)
  ultimately show "fst (mfp_parse fs name st) = 1" "ht_initialized (snd (mfp_parse fs name st))"
    "mp_alive (snd (mfp_parse fs name st))"
    "mfp_lookup (snd (mfp_parse fs name st)) s k = last_write (entries cfg) s k"
    using mf.usable_writes [of ?st0 "entries cfg"] mf.get_writes [of ?st0 "entries cfg" s k]
    by (simp_all split: option.splits)
qed

text \<open>
  C1. The configuration round trip: the INI text of any well-formed configuration parses
  with return code 1, and afterwards \<open>mfp_get_value\<close> writes, for every section and key, the
  value written last for them in the file, leaves the buffer alone when there is none, and is
  undefined exactly when the value does not fit the caller's buffer.
\<close>

theorem config_roundtrip:
  assumes "wf_config cfg" "fs name = Some (ini_text cfg)"
  shows "fst (mfp_parse fs name st) = 1 \<and>
    mfp_get_value (snd (mfp_parse fs name st)) s k cap cur =
      (case last_write (entries cfg) s k of None \<Rightarrow> Some cur | Some v \<Rightarrow> c_store cap v)"
  using mfp_parse_text [of cfg fs name st, OF assms] by (simp add: mfp_get_value_lookup)

definition sample_config :: ini_config where
  "sample_config = [(''generic'', [(''bulk_size'', ''8''), (''server'', ''localhost:3033/v1'')]),
     (''mf_plugin_Board_power'', [(''ACME_BOARD_NAME'', ''power-jetson.local''), (''device0:current'', ''on'')])]"

theorem config_roundtrip_witness:
  "wf_config sample_config \<and>
   mfp_get_value (snd (mfp_parse (\<lambda>f. if f = ''mf_config.ini'' then Some (ini_text sample_config) else None)
      ''mf_config.ini'' mfp_start)) ''generic'' ''bulk_size'' 20 [] = Some ''8''"
proof -
  have wf: "wf_config sample_config" by code_simp
  have l: "last_write (entries sample_config) ''generic'' ''bulk_size'' = Some ''8''" by code_simp
  show ?thesis
    using wf config_roundtrip [OF wf, of "\<lambda>f. if f = ''mf_config.ini'' then Some (ini_text sample_config) else None"
      "''mf_config.ini''" mfp_start "''generic''" "''bulk_size''" 20 "[]"] l by simp
qed

lemma mfp_data_add_Some:
  "mfp_data_add (k, v) d = Some d' \<longleftrightarrow>
    length (keys d) < MFP_DATA_SIZE \<and> length k < 256 \<and> length v < 256 \<and>
    d' = d\<lparr>keys := keys d @ [k], vals := vals d @ [v]\<rparr>"
  by (auto simp: mfp_data_add_def c_safe Option.bind_eq_Some_conv)

lemma foldM_data_add:
  assumes "length (keys d) + length kvs \<le> MFP_DATA_SIZE"
    "\<forall>(k, v) \<in> set kvs. length k < 256 \<and> length v < 256"
  shows "foldM mfp_data_add kvs d =
    Some (d\<lparr>keys := keys d @ map fst kvs, vals := vals d @ map snd kvs\<rparr>)"
  using assms
proof (induction kvs arbitrary: d)
  case (Cons kv kvs)
  obtain k v where kv: "kv = (k, v)" by fastforce
  let ?d = "d\<lparr>keys := keys d @ [k], vals := vals d @ [v]\<rparr>"
  have "mfp_data_add (k, v) d = Some ?d" using Cons.prems by (simp add: mfp_data_add_Some kv)
  then show ?case using Cons.IH [of ?d] Cons.prems by (simp add: kv)
qed simp

text \<open>
  \<open>mfp_get_data_filtered_by_value\<close> with a filter returns every key of the section whose
  value is the filter, each once and with that value, in whatever order the hash table is
  visited, when the section has at most 256 keys and strings shorter than 256 characters.
\<close>

theorem filtered_data:
  assumes st: "ht_initialized st" "mp_alive st" and t: "ht_config st section = Some t"
    and order: "distinct (order t)" "set (order t) = dom t"
    and small: "card (dom t) \<le> MFP_DATA_SIZE" "\<forall>k v. t k = Some v \<longrightarrow> length k < 256 \<and> length v < 256"
  shows "\<exists>d. mfp_get_data_filtered_by_value order st section (Some f) data = Some d \<and>
    distinct (keys d) \<and> set (keys d) = {k. t k = Some f} \<and> vals d = replicate (length (keys d)) f"
proof -
  let ?ks = "filter (\<lambda>k. t k = Some f) (order t)"
  have l: "[(k, the (t k)). k \<leftarrow> xs, t k = Some f] = map (\<lambda>k. (k, f)) (filter (\<lambda>k. t k = Some f) xs)" for xs
    by (induction xs) auto
  have "length (order t) \<le> MFP_DATA_SIZE"
    using order small(1) distinct_card [of "order t"] by simp
  then have n: "length ?ks \<le> MFP_DATA_SIZE" using length_filter_le le_trans by blast
  have "foldM mfp_data_add (map (\<lambda>k. (k, f)) ?ks) \<lparr>keys = [], vals = []\<rparr> =
      Some \<lparr>keys = ?ks, vals = map (\<lambda>k. f) ?ks\<rparr>"
    using n small(2) by (subst foldM_data_add) (auto simp: comp_def)
  then have "mfp_get_data_filtered_by_value order st section (Some f) data =
      Some \<lparr>keys = ?ks, vals = map (\<lambda>k. f) ?ks\<rparr>"
    using st t by (simp add: mfp_get_data_filtered_by_value_def l)
  moreover have "set ?ks = {k. t k = Some f}" using order by auto
  ultimately show ?thesis using order by (simp add: map_replicate_const)
qed

theorem filtered_data_witness:
  "\<exists>d. mfp_get_data_filtered_by_value (\<lambda>_. [''a'', ''b''])
      \<lparr>ht_initialized = True, mp_alive = True, ht_config = [''s'' \<mapsto> [''a'' \<mapsto> ''on'', ''b'' \<mapsto> ''off'']]\<rparr>
      ''s'' (Some ''on'') \<lparr>keys = [], vals = []\<rparr> = Some d \<and> set (keys d) = {''a''}"
proof -
  let ?t = "[''a'' \<mapsto> ''on'', ''b'' \<mapsto> ''off'']"
  let ?st = "\<lparr>ht_initialized = True, mp_alive = True, ht_config = [''s'' \<mapsto> ?t]\<rparr>"
  have d: "dom ?t = {''a'', ''b''}" by auto
  have s: "\<forall>k v. ?t k = Some v \<longrightarrow> length k < 256 \<and> length v < 256" by auto
  have "{k. ?t k = Some ''on''} = {''a''}" by auto
  then show ?thesis
    using filtered_data [of ?st "''s''" ?t "\<lambda>_. [''a'', ''b'']" "''on''" "\<lparr>keys = [], vals = []\<rparr>"] d s
    by (auto simp: MFP_DATA_SIZE_def)
qed

text \<open>
  A configuration file that cannot be opened: \<open>mfp_parse\<close> returns 0 and the previous
  configuration is gone, so every later \<open>mfp_get_value\<close> leaves the caller's buffer as it was.
\<close>

theorem unreadable_config:
  assumes "fs name = None"
  shows "fst (mfp_parse fs name st) = 0 \<and>
    mfp_get_value (snd (mfp_parse fs name st)) s k cap cur = Some cur"
  using assms by (simp add: mfp_parse_def ini_parse_def mfp_get_value_def)

theorem unreadable_config_witness:
  "mfp_get_value (snd (mfp_parse (\<lambda>_. None) ''x''
      \<lparr>ht_initialized = True, mp_alive = True, ht_config = [''generic'' \<mapsto> [''bulk_size'' \<mapsto> ''8'']]\<rparr>))
     ''generic'' ''bulk_size'' 20 [] = Some []"
  using unreadable_config [of "\<lambda>_. None" "''x''"] by simp


subsection \<open>The parser changes the user's data only through the handler\<close>

lemma user_note_error [simp]: "user (note_error st) = user st"
  by (simp add: note_error_def)

lemma ini_dispatch_user:
  assumes "\<And>u s n v. P u \<Longrightarrow> P (snd (h u s n v))" "P (user st)"
  shows "P (user (ini_dispatch h b s st))"
proof -
  have call: "P (user (call_handler h n v st'))" if "P (user st')" for n v st'
    using that assms(1) by (simp add: call_handler_def split_def Let_def)
  then show ?thesis using assms(2)
    by (simp add: ini_dispatch_def section_line_def pair_line_def split_def Let_def)
qed

lemma ini_parse_user:
  assumes "\<And>u s n v. P u \<Longrightarrow> P (snd (h u s n v))" "P u"
  shows "P (snd (ini_parse fs h f u))"
proof -
  have "P (user (fold (ini_line h) bufs st))" if "P (user st)" for bufs st
    using that
    by (induction bufs arbitrary: st) (simp_all add: ini_line_def split_def Let_def ini_dispatch_user [of P h, OF assms(1)])
  then show ?thesis using assms(2)
    by (simp add: ini_parse_def ini_parse_file_def ini_init_def split_def Let_def split: option.split)
qed

lemma mfp_parse_initialized:
  "ht_initialized (snd (mfp_parse fs f st))" "mp_alive (snd (mfp_parse fs f st))"
proof -
  have "ht_initialized (snd (mfp_parse fs f st)) \<and> mp_alive (snd (mfp_parse fs f st))"
    using ini_parse_user [of "\<lambda>u. ht_initialized u \<and> mp_alive u" handle_parser]
    by (simp add: mfp_parse_def split_def Let_def handle_parser_def accepting_def mfp_set_value_def)
  then show "ht_initialized (snd (mfp_parse fs f st))" "mp_alive (snd (mfp_parse fs f st))" by simp_all
qed

end
