(* ===== verification/Plugin_Discover.thy ===== *)
theory Plugin_Discover
  imports Plugin_Manager Mf_Parser
begin

text \<open>
  Plugin discovery, \<^verbatim>\<open>agent/plugin_discover.c\<close>: the shared objects of a directory that the
  configuration does not switch off are opened, and the init function of each registers its
  hook with the plugin manager.

  The dynamic loader is the parameter \<open>dl\<close>: which handle \<open>dlopen\<close> gives for a path,
  and the init function \<open>dlsym\<close> finds in it under a name, a state transformer of the
  plugin manager with a return code. A directory is the list of names \<open>readdir\<close> yields.
\<close>

type_synonym 'q init_func = "'q plugin_manager \<Rightarrow> int \<times> 'q plugin_manager"

record ('q, 'd) loader =
  dlopen :: "cstr \<Rightarrow> 'd option"
  dlsym :: "'d \<Rightarrow> cstr \<Rightarrow> 'q init_func option"

text \<open>
  The state: the plugin manager, the globals \<open>plugins_name\<close> and \<open>pluginCount\<close>, the
  linked list of handles (newest first) and the handles given to \<open>dlclose\<close>.
\<close>

record ('q, 'd) discovery =
  pm :: "'q plugin_manager"
  plugins_name :: "nat \<Rightarrow> cstr option"
  pluginCount :: nat
  handle_list :: "'d list"
  closed :: "'d list"

definition load_plugin ::
  "('q, 'd) loader \<Rightarrow> cstr \<Rightarrow> cstr \<Rightarrow> ('q, 'd) discovery \<Rightarrow> 'd option \<times> ('q, 'd) discovery" where
  "load_plugin dl name fullpath s =
     (case dlopen dl fullpath of None \<Rightarrow> (None, s)
      | Some libhandle \<Rightarrow>
          (case dlsym dl libhandle (''init_'' @ name) of None \<Rightarrow> (None, s)
           | Some init_func \<Rightarrow>
               (let (rc, pm') = init_func (pm s); s' = s\<lparr>pm := pm'\<rparr> in
                if rc \<le> 0 then (None, s'\<lparr>closed := closed s' @ [libhandle]\<rparr>)
                else (Some libhandle, s'))))"

text \<open>
  The name of the plugin in a directory entry: the part between the last slash and the last
  dot, when what follows that dot is \<open>so\<close>. The third clause is the pointer subtraction of
  an entry whose last dot precedes its last slash, which the test for \<open>.so\<close> excludes.
\<close>

definition plugin_name :: "cstr \<Rightarrow> cstr option" where
  "plugin_name d_name =
     (let name_start = (case strrchr d_name CHR ''/'' of None \<Rightarrow> 0 | Some i \<Rightarrow> i + 1) in
      case strrchr d_name CHR ''.'' of None \<Rightarrow> None
      | Some last_dot \<Rightarrow>
          if drop last_dot d_name \<noteq> ''.so'' then None
          else Some (take (last_dot - name_start) (drop name_start d_name)))"

text \<open>One round of the loop over the directory.\<close>

definition discover_entry ::
  "('q, 'd) loader \<Rightarrow> mfp_state \<Rightarrow> cstr \<Rightarrow> cstr \<Rightarrow> ('q, 'd) discovery \<Rightarrow> ('q, 'd) discovery option" where
  "discover_entry dl cfg dirname d_name s =
     (case plugin_name d_name of None \<Rightarrow> Some s
      | Some name \<Rightarrow> do {
          val \<leftarrow> mfp_get_value cfg ''plugins'' name 20 [];
          if val = ''off'' then Some s
          else do {
            p1 \<leftarrow> c_store 200 dirname;
            p2 \<leftarrow> c_append 200 p1 ''/'';
            fullpath \<leftarrow> c_append 200 p2 d_name;
            if 256 \<le> pluginCount s then None
            else do {
              n \<leftarrow> c_store 256 name;
              case load_plugin dl name fullpath (s\<lparr>plugins_name := (plugins_name s)(pluginCount s := Some n)\<rparr>) of
                (None, s') \<Rightarrow> Some s'
              | (Some h, s') \<Rightarrow>
                  Some (s'\<lparr>handle_list := h # handle_list s', pluginCount := pluginCount s' + 1\<rparr>)
            }
          }
        })"

text \<open>\<open>discover_plugins\<close> returns null (\<open>False\<close>) when nothing was loaded.\<close>

definition discover_plugins ::
  "('q, 'd) loader \<Rightarrow> (cstr \<Rightarrow> cstr list option) \<Rightarrow> mfp_state \<Rightarrow> cstr \<Rightarrow> ('q, 'd) discovery \<Rightarrow>
   (bool \<times> ('q, 'd) discovery) option" where
  "discover_plugins dl dirs cfg dirname s =
     (case dirs dirname of None \<Rightarrow> Some (False, s)
      | Some names \<Rightarrow> do {
          s' \<leftarrow> foldM (discover_entry dl cfg dirname) names (s\<lparr>handle_list := []\<rparr>);
          Some (handle_list s' \<noteq> [], s')
        })"

text \<open>\<open>cleanup_plugins\<close> walks the list from its newest node.\<close>

definition cleanup_plugins :: "bool \<Rightarrow> ('q, 'd) discovery \<Rightarrow> ('q, 'd) discovery" where
  "cleanup_plugins vpds s =
     (if vpds then s\<lparr>closed := closed s @ handle_list s, handle_list := []\<rparr> else s)"

subsection \<open>What discovery loads\<close>

text \<open>
  What the agent relies on in a plugin: its init function, when it succeeds (a positive
  code), has registered exactly one hook, and otherwise none. The plugins of this repository
  have this shape (theory \<open>Plugin_Glue\<close>). \<open>rc\<close>, \<open>nm\<close> and \<open>hk\<close> are the return
  code, the name and the hook of the plugin behind a handle.
\<close>

definition plugin_contract ::
  "('q, 'h) ecq \<Rightarrow> ('q, 'd) loader \<Rightarrow> ('d \<Rightarrow> int) \<Rightarrow> ('d \<Rightarrow> cstr) \<Rightarrow> ('d \<Rightarrow> 'h) \<Rightarrow> bool" where
  "plugin_contract Q dl rc nm hk \<longleftrightarrow>
     (\<forall>d sym f pm. dlsym dl d sym = Some f \<longrightarrow>
        f pm = (rc d, if 0 < rc d then PluginManager_register_hook Q pm (nm d) (hk d) else pm))"

text \<open>The specification: which plugin, if any, a directory entry contributes.\<close>

definition plugin_of ::
  "('q, 'd) loader \<Rightarrow> ('d \<Rightarrow> int) \<Rightarrow> mfp_state \<Rightarrow> cstr \<Rightarrow> cstr \<Rightarrow> (cstr \<times> 'd) option" where
  "plugin_of dl rc cfg dirname d_name = do {
     name \<leftarrow> plugin_name d_name;
     if mfp_lookup cfg ''plugins'' name = Some ''off'' then None
     else do {
       d \<leftarrow> dlopen dl (dirname @ ''/'' @ d_name);
       if dlsym dl d (''init_'' @ name) = None \<or> rc d \<le> 0 then None else Some (name, d)
     }
   }"

text \<open>The buffers suffice for an entry.\<close>

definition entry_fits :: "mfp_state \<Rightarrow> cstr \<Rightarrow> cstr \<Rightarrow> bool" where
  "entry_fits cfg dirname d_name \<longleftrightarrow>
     length dirname + 1 + length d_name < 200 \<and>
     (case plugin_name d_name of None \<Rightarrow> True
      | Some name \<Rightarrow> (case mfp_lookup cfg ''plugins'' name of None \<Rightarrow> True | Some v \<Rightarrow> length v < 20))"

definition discovered ::
  "('q \<Rightarrow> 'h plugin_hook_type list) \<Rightarrow> ('d \<Rightarrow> cstr) \<Rightarrow> ('d \<Rightarrow> 'h) \<Rightarrow> (cstr \<times> 'd) list \<Rightarrow>
   ('q, 'd) discovery \<Rightarrow> bool" where
  "discovered items nm hk L s \<longleftrightarrow>
     pluginCount s = length L \<and>
     (\<forall>i < length L. plugins_name s i = Some (fst (L ! i))) \<and>
     pm_items items (pm s) = map (\<lambda>(n, d). \<lparr>hook = hk d, hook_name = nm d\<rparr>) L \<and>
     handle_list s = rev (map snd L)"

lemma plugin_name_length: "plugin_name e = Some n \<Longrightarrow> length n \<le> length e"
  by (auto simp: plugin_name_def Let_def split: option.splits if_splits)

lemma discover_entry_step:
  assumes "fifo_queue Q items" "plugin_contract Q dl rc nm hk"
    and cfg: "ht_initialized cfg" "mp_alive cfg"
    and fits: "entry_fits cfg dirname e" and "length L < 256"
    and s: "discovered items nm hk L s"
  shows "\<exists>s'. discover_entry dl cfg dirname e s = Some s' \<and>
    discovered items nm hk (L @ (case plugin_of dl rc cfg dirname e of None \<Rightarrow> [] | Some p \<Rightarrow> [p])) s'"
proof (cases "plugin_name e")
  case None
  then show ?thesis using s by (simp add: discover_entry_def plugin_of_def)
next
  case name: (Some name)
  have len: "length dirname + 1 + length e < 200" "length name < 256" "pluginCount s < 256"
    using fits plugin_name_length [OF name] assms(6) s
    by (simp_all add: entry_fits_def discovered_def)
  have val: "mfp_get_value cfg ''plugins'' name 20 [] =
      Some (case mfp_lookup cfg ''plugins'' name of None \<Rightarrow> [] | Some v \<Rightarrow> v)"
    using fits name by (simp add: mfp_get_value_lookup [OF cfg] entry_fits_def split: option.splits)
  let ?path = "dirname @ ''/'' @ e"
  let ?s = "s\<lparr>plugins_name := (plugins_name s)(pluginCount s := Some name)\<rparr>"
  have names: "\<forall>i < length L. plugins_name ?s i = Some (fst (L ! i))" "plugins_name ?s (length L) = Some name"
    using s by (auto simp: discovered_def)
  show ?thesis
  proof (cases "mfp_lookup cfg ''plugins'' name = Some ''off''")
    case True
    then show ?thesis using s name val by (simp add: discover_entry_def plugin_of_def)
  next
    case on: False
    then have "(case mfp_lookup cfg ''plugins'' name of None \<Rightarrow> [] | Some v \<Rightarrow> v) \<noteq> ''off''"
      by (auto split: option.splits)
    then have entry: "discover_entry dl cfg dirname e s =
        (case load_plugin dl name ?path ?s of (None, s') \<Rightarrow> Some s'
         | (Some h, s') \<Rightarrow> Some (s'\<lparr>handle_list := h # handle_list s', pluginCount := pluginCount s' + 1\<rparr>))"
      using name val len by (simp add: discover_entry_def)
    show ?thesis
    proof (cases "dlopen dl ?path")
      case None
      then show ?thesis using s names name on
        by (simp add: entry plugin_of_def load_plugin_def discovered_def)
    next
      case d: (Some d)
      show ?thesis
      proof (cases "dlsym dl d (''init_'' @ name)")
        case None
        then show ?thesis using s names name on d
          by (simp add: entry plugin_of_def load_plugin_def discovered_def)
      next
        case f: (Some f)
        then have "f p = (rc d, if 0 < rc d then PluginManager_register_hook Q p (nm d) (hk d) else p)" for p
          using assms(2) unfolding plugin_contract_def by blast
        then show ?thesis using s names name on d f
          by (auto simp: entry plugin_of_def load_plugin_def discovered_def Let_def nth_append less_Suc_eq
              pm_items_register [OF assms(1)])
      qed
    qed
  qed
qed

definition loaded_plugins ::
  "('q, 'd) loader \<Rightarrow> ('d \<Rightarrow> int) \<Rightarrow> mfp_state \<Rightarrow> cstr \<Rightarrow> cstr list \<Rightarrow> (cstr \<times> 'd) list" where
  "loaded_plugins dl rc cfg dirname names = List.map_filter (plugin_of dl rc cfg dirname) names"

lemma loaded_plugins_Cons:
  "loaded_plugins dl rc cfg dirname (e # es) =
   (case plugin_of dl rc cfg dirname e of None \<Rightarrow> [] | Some p \<Rightarrow> [p]) @ loaded_plugins dl rc cfg dirname es"
  by (simp add: loaded_plugins_def List.map_filter_def split: option.split)

lemma discover_all:
  assumes "fifo_queue Q items" "plugin_contract Q dl rc nm hk" "ht_initialized cfg" "mp_alive cfg"
    and "\<forall>e \<in> set es. entry_fits cfg dirname e"
    and "length L + length (loaded_plugins dl rc cfg dirname es) < 256"
    and "discovered items nm hk L s"
  shows "\<exists>s'. foldM (discover_entry dl cfg dirname) es s = Some s' \<and>
    discovered items nm hk (L @ loaded_plugins dl rc cfg dirname es) s'"
  using assms(5-)
proof (induction es arbitrary: s L)
  case Nil
  then show ?case by (simp add: loaded_plugins_def List.map_filter_def)
next
  case (Cons e es)
  let ?p = "case plugin_of dl rc cfg dirname e of None \<Rightarrow> [] | Some p \<Rightarrow> [p]"
  obtain s1 where s1: "discover_entry dl cfg dirname e s = Some s1" "discovered items nm hk (L @ ?p) s1"
    using discover_entry_step [OF assms(1-4), of dirname e L s] Cons.prems by auto
  moreover have "length (L @ ?p) + length (loaded_plugins dl rc cfg dirname es) < 256"
    using Cons.prems(2) by (simp add: loaded_plugins_Cons)
  ultimately show ?case using Cons.IH [of "L @ ?p" s1] Cons.prems(1)
    by (simp add: loaded_plugins_Cons)
qed

lemma discover_aligned:
  assumes "fifo_queue Q items" "plugin_contract Q dl rc nm hk" "ht_initialized cfg" "mp_alive cfg"
    and "dirs dirname = Some names" "\<forall>e \<in> set names. entry_fits cfg dirname e"
    and "length (loaded_plugins dl rc cfg dirname names) < 256"
  shows "\<exists>s. discover_plugins dl dirs cfg dirname
        \<lparr>pm = PluginManager_new Q, plugins_name = Map.empty, pluginCount = 0, handle_list = [], closed = []\<rparr> =
      Some (loaded_plugins dl rc cfg dirname names \<noteq> [], s) \<and>
    pluginCount s = length (loaded_plugins dl rc cfg dirname names) \<and>
    map (plugins_name s) [0..<pluginCount s] = map (\<lambda>(n, d). Some n) (loaded_plugins dl rc cfg dirname names) \<and>
    fst (get_hooks Q (pluginCount s) (pm s)) = map (\<lambda>(n, d). Some (hk d)) (loaded_plugins dl rc cfg dirname names) \<and>
    handle_list s = rev (map snd (loaded_plugins dl rc cfg dirname names))"
proof -
  let ?L = "loaded_plugins dl rc cfg dirname names"
  let ?s0 = "\<lparr>pm = PluginManager_new Q, plugins_name = Map.empty, pluginCount = 0, handle_list = [], closed = []\<rparr>"
  have "discovered items nm hk [] ?s0" by (simp add: discovered_def pm_items_new [OF assms(1)])
  from discover_all [OF assms(1-4,6) _ this] assms(7)
  obtain s where s: "foldM (discover_entry dl cfg dirname) names ?s0 = Some s" "discovered items nm hk ?L s"
    by auto
  have "fst (get_hooks Q (pluginCount s) (pm s)) = map (\<lambda>(n, d). Some (hk d)) ?L"
    using get_hooks_list [OF assms(1), of "pluginCount s" "pm s"] s(2) by (simp add: discovered_def split_def comp_def)
  moreover have "map (plugins_name s) [0..<pluginCount s] = map (\<lambda>(n, d). Some n) ?L"
    using s(2) by (intro nth_equalityI) (auto simp: discovered_def split_def)
  ultimately show ?thesis using s assms(5)
    by (intro exI [of _ s]) (simp add: discover_plugins_def discovered_def)
qed

text \<open>
  C6. Discovery loads exactly the plugins the specification selects (a \<open>.so\<close> entry that is
  not switched off, opens, has its init function and initialises), in directory order, and
  keeps the three views of them aligned: the \<open>t\<close>-th name, by which the agent looks up the
  timing of thread \<open>t\<close>, the \<open>t\<close>-th hook taken from the plugin manager, which that
  thread calls, and the handles that will be closed.
\<close>

theorem discover_plugins_aligned:
  assumes "fifo_queue Q items" "plugin_contract Q dl rc nm hk" "ht_initialized cfg" "mp_alive cfg"
    and "dirs dirname = Some names" "\<forall>e \<in> set names. entry_fits cfg dirname e"
    and "length (loaded_plugins dl rc cfg dirname names) < 256"
  shows "\<exists>s. discover_plugins dl dirs cfg dirname
        \<lparr>pm = PluginManager_new Q, plugins_name = Map.empty, pluginCount = 0, handle_list = [], closed = []\<rparr> =
      Some (loaded_plugins dl rc cfg dirname names \<noteq> [], s) \<and>
    pluginCount s = length (loaded_plugins dl rc cfg dirname names) \<and>
    map (plugins_name s) [0..<pluginCount s] = map (\<lambda>(n, d). Some n) (loaded_plugins dl rc cfg dirname names) \<and>
    fst (get_hooks Q (pluginCount s) (pm s)) = map (\<lambda>(n, d). Some (hk d)) (loaded_plugins dl rc cfg dirname names) \<and>
    handle_list s = rev (map snd (loaded_plugins dl rc cfg dirname names))"
  by (rule discover_aligned) (fact assms)+

definition sample_loader :: "(nat plugin_hook_type list, nat) loader" where
  "sample_loader = \<lparr>dlopen = (\<lambda>p. if p = ''p/a.so'' then Some 4 else if p = ''p/b.so'' then Some 9 else None),
     dlsym = (\<lambda>d sym. Some (\<lambda>pm. (if d = 4 then 1 else 0,
       if d = 4 then PluginManager_register_hook list_ecq pm ''A'' 7 else pm)))\<rparr>"

lemma sample_loader_contract:
  "plugin_contract list_ecq sample_loader (\<lambda>d. if d = 4 then 1 else 0) (\<lambda>d. ''A'') (\<lambda>d. 7)"
  by (auto simp: plugin_contract_def sample_loader_def)

theorem discover_plugins_aligned_witness:
  "\<exists>s. discover_plugins sample_loader (\<lambda>_. Some [''b.so'', ''c.so'', ''a.so'', ''readme'']) 
        \<lparr>ht_initialized = True, mp_alive = True, ht_config = [''plugins'' \<mapsto> [''c'' \<mapsto> ''off'']]\<rparr> ''p''
        \<lparr>pm = PluginManager_new list_ecq, plugins_name = Map.empty, pluginCount = 0, handle_list = [], closed = []\<rparr> =
      Some (True, s) \<and> map (plugins_name s) [0..<pluginCount s] = [Some ''a''] \<and>
      fst (get_hooks list_ecq (pluginCount s) (pm s)) = [Some 7]"
proof -
  let ?cfg = "\<lparr>ht_initialized = True, mp_alive = True, ht_config = [''plugins'' \<mapsto> [''c'' \<mapsto> ''off'']]\<rparr>"
  let ?names = "[''b.so'', ''c.so'', ''a.so'', ''readme'']"
  have L: "loaded_plugins sample_loader (\<lambda>d. if d = 4 then 1 else 0) ?cfg ''p'' ?names = [(''a'', 4)]"
    by code_simp
  have fits: "\<forall>e \<in> set ?names. entry_fits ?cfg ''p'' e" by code_simp
  have len: "length (loaded_plugins sample_loader (\<lambda>d. if d = 4 then 1 else 0) ?cfg ''p'' ?names) < 256"
    unfolding L by simp
  show ?thesis
    using discover_plugins_aligned [OF fifo_list_ecq sample_loader_contract _ _ _ fits len, of "\<lambda>_. Some ?names"]
    unfolding L by auto
qed

end
