(* ===== verification/Publisher.thy ===== *)
theory Publisher
  imports C_Strings
begin

text \<open>
  The HTTP publisher of \<^verbatim>\<open>publisher/src/publisher.c\<close>.

  libcurl is outside the repository and is the parameter \<open>net\<close>: whether
  \<open>curl_easy_init\<close> returns a handle, and, for the \<open>n\<close>-th transfer and its request, whether
  the transfer succeeds and in which chunks the response body reaches the write callback;
  \<open>realloc_at\<close> is what \<open>realloc\<close> does with a block asked to have the given size. The
  state is the header list, which is a global variable, and the log of the transfers made.
\<close>

datatype http_method = GET | POST

record request =
  meth :: http_method
  url :: cstr
  body :: cstr
  hdrs :: "cstr list"

datatype realloc_result = InPlace | Moved | Failed

record net =
  curl_ok :: bool
  reply :: "nat \<Rightarrow> request \<Rightarrow> bool \<times> string list"
  realloc_at :: "nat \<Rightarrow> realloc_result"

record pub =
  headers :: "cstr list"
  sent :: "request list"

definition check_URL :: "cstr option \<Rightarrow> bool" where
  "check_URL u = (case u of None \<Rightarrow> False | Some s \<Rightarrow> s \<noteq> [])"

definition check_message :: "cstr option \<Rightarrow> bool" where
  "check_message m = (case m of None \<Rightarrow> False | Some s \<Rightarrow> s \<noteq> [])"

definition init_curl :: "pub \<Rightarrow> pub" where
  "init_curl p =
     (if headers p \<noteq> [] then p
      else p\<lparr>headers := [''Accept: application/json'', ''Content-Type: application/json'', ''charsets: utf-8'']\<rparr>)"

text \<open>
  \<open>prepare_publish\<close> and \<open>prepare_query\<close>: the handle is the request that
  \<open>curl_easy_perform\<close> will make; \<open>None\<close> is a null handle.
\<close>

definition prepare_publish :: "net \<Rightarrow> cstr \<Rightarrow> cstr \<Rightarrow> pub \<Rightarrow> request option \<times> pub" where
  "prepare_publish net u m p0 =
     (let p = init_curl p0 in
      (if curl_ok net then Some \<lparr>meth = POST, url = u, body = m, hdrs = headers p\<rparr> else None, p))"

definition prepare_query :: "net \<Rightarrow> cstr \<Rightarrow> pub \<Rightarrow> request option \<times> pub" where
  "prepare_query net u p0 =
     (let p = init_curl p0 in
      (if curl_ok net then Some \<lparr>meth = GET, url = u, body = [], hdrs = headers p\<rparr> else None, p))"

text \<open>\<open>curl_easy_perform\<close> with a callback that discards the response (\<open>write_non_data\<close>).\<close>

definition curl_easy_perform :: "net \<Rightarrow> request \<Rightarrow> pub \<Rightarrow> bool \<times> pub" where
  "curl_easy_perform net r p = (fst (reply net (length (sent p)) r), p\<lparr>sent := sent p @ [r]\<rparr>)"

subsection \<open>Responses\<close>

text \<open>
  \<open>get_stream_data\<close> resizes the caller's block with \<open>realloc\<close>, copies the chunk to its
  start and returns the number of bytes taken. libcurl always passes the pointer it was given
  at the beginning: once \<open>realloc\<close> has moved the block, that pointer and the caller's own
  dangle.
\<close>

datatype block = Live cstr | Dangling

fun get_stream_data :: "(nat \<Rightarrow> realloc_result) \<Rightarrow> string \<Rightarrow> block \<Rightarrow> (nat \<times> block) option" where
  "get_stream_data ra chunk Dangling = None"
| "get_stream_data ra chunk (Live s) =
     (case ra (length chunk + 1) of
        InPlace \<Rightarrow> Some (length chunk, Live (c_string chunk))
      | Moved \<Rightarrow> Some (length chunk, Dangling)
      | Failed \<Rightarrow> Some (0, Live s))"

text \<open>libcurl stops the transfer with an error when the callback takes fewer bytes than offered.\<close>

fun deliver :: "(nat \<Rightarrow> realloc_result) \<Rightarrow> string list \<Rightarrow> block \<Rightarrow> (bool \<times> block) option" where
  "deliver ra [] b = Some (True, b)"
| "deliver ra (chunk # chunks) b = do {
     (n, b') \<leftarrow> get_stream_data ra chunk b;
     if n = length chunk then deliver ra chunks b' else Some (False, b')
   }"

definition curl_easy_perform_reading :: "net \<Rightarrow> request \<Rightarrow> block \<Rightarrow> pub \<Rightarrow> (bool \<times> block \<times> pub) option" where
  "curl_easy_perform_reading net r b p =
     (let (ok, chunks) = reply net (length (sent p)) r in do {
        (whole, b') \<leftarrow> deliver (realloc_at net) chunks b;
        Some (ok \<and> whole, b', p\<lparr>sent := sent p @ [r]\<rparr>)
      })"

subsection \<open>The four entry points\<close>

text \<open>
  The response of a query is a block of the caller: a null \<open>response_str\<close>, for which the code
  returns 0 after the transfer, is passed by no caller and is not represented.
\<close>

definition query_json :: "net \<Rightarrow> cstr option \<Rightarrow> block \<Rightarrow> pub \<Rightarrow> (int \<times> block \<times> pub) option" where
  "query_json net URL response p =
     (if \<not> check_URL URL then Some (0, response, p)
      else case prepare_query net (the URL) p of
        (None, p1) \<Rightarrow> Some (0, response, p1)
      | (Some r, p1) \<Rightarrow> do {
          (ok, b, p2) \<leftarrow> curl_easy_perform_reading net r response p1;
          Some (if ok then 1 else 0, b, p2)
        })"

definition publish_json :: "net \<Rightarrow> cstr option \<Rightarrow> cstr option \<Rightarrow> pub \<Rightarrow> int \<times> pub" where
  "publish_json net URL message p =
     (if \<not> check_URL URL \<or> \<not> check_message message then (0, p)
      else case prepare_publish net (the URL) (the message) p of
        (None, p1) \<Rightarrow> (0, p1)
      | (Some r, p1) \<Rightarrow> (case curl_easy_perform net r p1 of (ok, p2) \<Rightarrow> (if ok then 1 else 0, p2)))"

definition create_new_experiment ::
  "net \<Rightarrow> cstr option \<Rightarrow> cstr option \<Rightarrow> block \<Rightarrow> pub \<Rightarrow> (int \<times> block \<times> pub) option" where
  "create_new_experiment net URL message experiment_id p =
     (if \<not> check_URL URL \<or> \<not> check_message message then Some (0, experiment_id, p)
      else case prepare_publish net (the URL) (the message) p of
        (None, p1) \<Rightarrow> Some (0, experiment_id, p1)
      | (Some r, p1) \<Rightarrow> do {
          (ok, b, p2) \<leftarrow> curl_easy_perform_reading net r experiment_id p1;
          Some (if ok then 1 else 0, b, p2)
        })"

definition MESSAGE_CAP :: nat where "MESSAGE_CAP = 10 * 320"

definition record_text :: "cstr \<Rightarrow> cstr \<Rightarrow> cstr" where
  "record_text static_string line = ''{'' @ static_string @ '', '' @ line @ ''}''"

text \<open>
  The loop of \<open>publish_file\<close> over the buffers \<open>fgets\<close> returns, with the counter \<open>i\<close> and
  the array \<open>message\<close>; \<open>r\<close> is the handle. The result says whether the loop ran to the
  end of the file; a failed transfer leaves it early. \<open>line[strlen(line) - 1] = 0\<close> drops the
  last character, and writes before the array when the line is empty (a NUL in the file).
\<close>

fun publish_lines ::
  "net \<Rightarrow> request \<Rightarrow> cstr \<Rightarrow> string list \<Rightarrow> nat \<Rightarrow> cstr \<Rightarrow> pub \<Rightarrow> (bool \<times> nat \<times> cstr \<times> pub) option" where
  "publish_lines net r static_string [] i message p = Some (True, i, message, p)"
| "publish_lines net r static_string (buf # bufs) i message p =
     (if c_string buf = [] then None
      else let line = butlast (c_string buf) in
        if i = 0 then do {
          m \<leftarrow> c_store MESSAGE_CAP (''['' @ record_text static_string line);
          publish_lines net r static_string bufs 1 m p
        }
        else if i = 9 then do {
          m \<leftarrow> c_append MESSAGE_CAP message ('','' @ record_text static_string line @ '']'');
          case curl_easy_perform net (r\<lparr>body := m\<rparr>) p of (ok, p') \<Rightarrow>
            if ok then publish_lines net r static_string bufs 0 [] p' else Some (False, i, m, p')
        }
        else do {
          m \<leftarrow> c_append MESSAGE_CAP message ('','' @ record_text static_string line);
          publish_lines net r static_string bufs (i + 1) m p
        })"

text \<open>After the loop: the last, incomplete batch.\<close>

definition publish_tail :: "net \<Rightarrow> request \<Rightarrow> bool \<times> nat \<times> cstr \<times> pub \<Rightarrow> (int \<times> pub) option" where
  "publish_tail net r = (\<lambda>(finished, i, message, p).
     if \<not> finished then Some (0, p)
     else if 0 < i then do {
       m \<leftarrow> c_append MESSAGE_CAP message '']'';
       case curl_easy_perform net (r\<lparr>body := m\<rparr>) p of (ok, p') \<Rightarrow> Some (if ok then 1 else 0, p')
     }
     else Some (1, p))"

definition publish_file ::
  "net \<Rightarrow> (cstr \<Rightarrow> string option) \<Rightarrow> cstr option \<Rightarrow> cstr option \<Rightarrow> cstr option \<Rightarrow> pub \<Rightarrow> (int \<times> pub) option" where
  "publish_file net fs URL static_string filename p =
     (if \<not> check_URL URL \<or> \<not> check_message static_string \<or> \<not> check_message filename then Some (0, p)
      else case prepare_publish net (the URL) [] p of
        (None, p1) \<Rightarrow> Some (0, p1)
      | (Some r, p1) \<Rightarrow>
          (case fs (the filename) of None \<Rightarrow> Some (0, p1)
           | Some file \<Rightarrow>
               Option.bind (publish_lines net r (the static_string) (fgets_all 320 file) 0 [] p1)
                 (publish_tail net r)))"


subsection \<open>Batches\<close>

text \<open>
  The specification of \<open>publish_file\<close>: the lines of the file in blocks of ten, each block one
  JSON array of records, posted in order until the first failure.
\<close>

definition batch_text :: "cstr \<Rightarrow> cstr list \<Rightarrow> cstr" where
  "batch_text static_string ls = ''['' @ join '','' (map (record_text static_string) ls) @ '']''"

fun transfer_all :: "net \<Rightarrow> request list \<Rightarrow> pub \<Rightarrow> bool \<times> pub" where
  "transfer_all net [] p = (True, p)"
| "transfer_all net (r # rs) p =
     (case curl_easy_perform net r p of (ok, p') \<Rightarrow> if ok then transfer_all net rs p' else (False, p'))"

definition data_line :: "cstr \<Rightarrow> bool" where
  "data_line l \<longleftrightarrow> NL \<notin> set l \<and> NUL \<notin> set l \<and> length l \<le> 318"

definition more_records :: "cstr \<Rightarrow> cstr list \<Rightarrow> cstr" where
  "more_records s ls = concat (map (\<lambda>l. '','' @ record_text s l) ls)"

lemma join_Cons: "join sep (x # xs) = x @ concat (map (\<lambda>y. sep @ y) xs)"
  by (induction xs arbitrary: x) auto

lemma batch_text_Cons:
  "batch_text s (l # ls) = ''['' @ record_text s l @ more_records s ls @ '']''"
  by (simp only: batch_text_def more_records_def list.map join_Cons) (simp add: comp_def)

lemma line_buffer [simp]:
  "data_line l \<Longrightarrow> c_string (l @ [NL]) = l @ [NL]"
  by (intro c_string_id) (simp add: data_line_def)

lemma publish_more:
  assumes "\<forall>l \<in> set ls. data_line l" "0 < i" "i + length ls \<le> 9"
    "length m + length (more_records s ls) < MESSAGE_CAP"
  shows "publish_lines net r s (map (\<lambda>l. l @ [NL]) ls @ rest) i m p =
    publish_lines net r s rest (i + length ls) (m @ more_records s ls) p"
  using assms
proof (induction ls arbitrary: i m)
  case Nil
  then show ?case by (simp add: more_records_def)
next
  case (Cons l ls)
  let ?m = "m @ '','' @ record_text s l"
  have "length ?m + length (more_records s ls) < MESSAGE_CAP"
    using Cons.prems(4) by (simp add: more_records_def)
  then show ?case
    using Cons.prems Cons.IH [of "i + 1" ?m] by (simp add: more_records_def)
qed

lemma publish_first:
  assumes "data_line l" "length (''['' @ record_text s l) < MESSAGE_CAP"
  shows "publish_lines net r s ((l @ [NL]) # rest) 0 m p =
    publish_lines net r s rest 1 (''['' @ record_text s l) p"
  using assms by simp

lemma publish_block:
  assumes "\<forall>l \<in> set ls. data_line l" "length ls = 10" "length (batch_text s ls) < MESSAGE_CAP"
  shows "publish_lines net r s (map (\<lambda>l. l @ [NL]) ls @ rest) 0 [] p =
    (case curl_easy_perform net (r\<lparr>body := batch_text s ls\<rparr>) p of (ok, p') \<Rightarrow>
       if ok then publish_lines net r s rest 0 [] p' else Some (False, 9, batch_text s ls, p'))"
proof -
  obtain x ys z where ls: "ls = x # ys @ [z]" and ys: "length ys = 8"
  proof -
    obtain x zs where 1: "ls = x # zs" "length zs = 9" using assms(2) by (cases ls) auto
    moreover obtain ys z where "zs = ys @ [z]" using 1(2) by (cases zs rule: rev_cases) auto
    ultimately show ?thesis using that by auto
  qed
  have b: "batch_text s ls = (''['' @ record_text s x) @ more_records s ys @ '','' @ record_text s z @ '']''"
    unfolding ls batch_text_Cons by (simp add: more_records_def)
  have len: "length (''['' @ record_text s x) + length (more_records s ys) < MESSAGE_CAP"
    using assms(3) unfolding b by simp
  let ?m = "(''['' @ record_text s x) @ more_records s ys"
  have "publish_lines net r s (map (\<lambda>l. l @ [NL]) ls @ rest) 0 [] p =
      publish_lines net r s (map (\<lambda>l. l @ [NL]) ys @ (z @ [NL]) # rest) 1 (''['' @ record_text s x) p"
    using publish_first [of x s net r _ "[]" p] assms(1) len by (simp add: ls)
  also have "\<dots> = publish_lines net r s ((z @ [NL]) # rest) 9 ?m p"
    using publish_more [of ys 1 "''['' @ record_text s x" s net r "(z @ [NL]) # rest" p] assms(1) len ys
    by (simp add: ls)
  also have "\<dots> = (case curl_easy_perform net (r\<lparr>body := batch_text s ls\<rparr>) p of (ok, p') \<Rightarrow>
       if ok then publish_lines net r s rest 0 [] p' else Some (False, 9, batch_text s ls, p'))"
    using assms(1,3) by (simp add: ls b [unfolded ls] split: prod.split)
  finally show ?thesis .
qed

lemma publish_lines_tail:
  assumes "\<forall>l \<in> set ls. data_line l"
    "\<forall>b \<in> set (blocks 10 ls). length (batch_text s b) < MESSAGE_CAP"
  shows "Option.bind (publish_lines net r s (map (\<lambda>l. l @ [NL]) ls) 0 [] p) (publish_tail net r) =
    Some (case transfer_all net (map (\<lambda>b. r\<lparr>body := batch_text s b\<rparr>) (blocks 10 ls)) p of
      (ok, p') \<Rightarrow> (if ok then 1 else 0, p'))"
  using assms
proof (induction "10 :: nat" ls arbitrary: p rule: blocks.induct)
  case 1
  then show ?case by (simp add: publish_tail_def)
next
  case (2 x xs)
  show ?case
  proof (cases "10 \<le> length (x # xs)")
    case True
    let ?b = "take 10 (x # xs)" and ?rest = "drop 10 (x # xs)"
    have bl: "blocks 10 (x # xs) = ?b # blocks 10 ?rest" by simp
    have "publish_lines net r s (map (\<lambda>l. l @ [NL]) (x # xs)) 0 [] p =
        publish_lines net r s (map (\<lambda>l. l @ [NL]) ?b @ map (\<lambda>l. l @ [NL]) ?rest) 0 [] p"
      by (simp only: map_append [symmetric] append_take_drop_id)
    moreover have "\<forall>l \<in> set ?b. data_line l" "\<forall>l \<in> set ?rest. data_line l"
      using 2(2) by (auto dest!: in_set_takeD in_set_dropD simp del: take_Suc_Cons)
    ultimately show ?thesis
      using 2 True publish_block [of ?b s net r "map (\<lambda>l. l @ [NL]) ?rest" p]
      unfolding bl by (simp add: publish_tail_def split: prod.split del: take_Suc_Cons drop_Suc_Cons)
  next
    case False
    then have bl: "blocks 10 (x # xs) = [x # xs]" by (intro blocks_short) simp_all
    have fit: "length (batch_text s (x # xs)) < MESSAGE_CAP" using 2(3) unfolding bl by simp
    have "publish_lines net r s (map (\<lambda>l. l @ [NL]) (x # xs)) 0 [] p =
        Some (True, length (x # xs), (''['' @ record_text s x) @ more_records s xs, p)"
      using publish_first [of x s net r "map (\<lambda>l. l @ [NL]) xs" "[]" p] False fit 2(2)
        publish_more [of xs 1 "''['' @ record_text s x" s net r "[]" p]
      by (simp add: batch_text_Cons)
    then show ?thesis
      using fit unfolding bl by (simp add: publish_tail_def batch_text_Cons split: prod.split)
  qed
qed

lemma publish_file_posts:
  assumes "u \<noteq> []" "s \<noteq> []" "name \<noteq> []" "curl_ok net"
    and contents: "fs name = Some (concat (map (\<lambda>l. l @ [NL]) ls))" "\<forall>l \<in> set ls. data_line l"
    and fits: "\<forall>b \<in> set (blocks 10 ls). length (batch_text s b) < MESSAGE_CAP"
  shows "publish_file net fs (Some u) (Some s) (Some name) p =
    Some (case transfer_all net
        (map (\<lambda>b. \<lparr>meth = POST, url = u, body = batch_text s b, hdrs = headers (init_curl p)\<rparr>) (blocks 10 ls))
        (init_curl p) of (ok, p') \<Rightarrow> (if ok then 1 else 0, p'))"
proof -
  let ?r = "\<lparr>meth = POST, url = u, body = [], hdrs = headers (init_curl p)\<rparr>"
  have l: "fgets_all 320 (concat (map (\<lambda>l. l @ [NL]) ls)) = map (\<lambda>l. l @ [NL]) ls"
    using contents(2) by (intro fgets_all_lines) (auto simp: data_line_def)
  show ?thesis
    using assms(1-4) contents(1) publish_lines_tail [OF contents(2) fits, of net ?r "init_curl p"]
    by (simp add: publish_file_def check_URL_def check_message_def prepare_publish_def Let_def l)
qed

text \<open>
  C2. \<open>publish_file\<close> sends every line of the file, in order and exactly once, in batches of
  ten records, each a JSON array of the objects \<open>{static, line}\<close>, the last one possibly
  shorter; it stops at the first transfer that fails and returns 1 exactly when none does.
  This holds for files of lines of at most 318 characters whose batches fit \<open>message\<close>.
\<close>

theorem publish_file_batches:
  assumes "u \<noteq> []" "s \<noteq> []" "name \<noteq> []" "curl_ok net"
    and contents: "fs name = Some (concat (map (\<lambda>l. l @ [NL]) ls))" "\<forall>l \<in> set ls. data_line l"
    and fits: "\<forall>b \<in> set (blocks 10 ls). length (batch_text s b) < MESSAGE_CAP"
  shows "publish_file net fs (Some u) (Some s) (Some name) p =
    Some (case transfer_all net
        (map (\<lambda>b. \<lparr>meth = POST, url = u, body = batch_text s b, hdrs = headers (init_curl p)\<rparr>) (blocks 10 ls))
        (init_curl p) of (ok, p') \<Rightarrow> (if ok then 1 else 0, p'))"
  using assms by (rule publish_file_posts)

theorem publish_file_batches_witness:
  "publish_file \<lparr>curl_ok = True, reply = (\<lambda>_ _. (True, [])), realloc_at = (\<lambda>_. InPlace)\<rparr>
     (\<lambda>_. Some (concat (map (\<lambda>l. l @ [NL]) [''1'', ''2'']))) (Some ''u'') (Some ''s'') (Some ''f'')
     \<lparr>headers = [''h''], sent = []\<rparr> =
   Some (1, \<lparr>headers = [''h''], sent = [\<lparr>meth = POST, url = ''u'', body = ''[{s, 1},{s, 2}]'', hdrs = [''h'']\<rparr>]\<rparr>)"
proof -
  let ?net = "\<lparr>curl_ok = True, reply = (\<lambda>_ _. (True, [])), realloc_at = (\<lambda>_. InPlace)\<rparr>"
  have b: "blocks 10 [''1'', ''2''] = [[''1'', ''2'']]" by (intro blocks_short) simp_all
  have t: "batch_text ''s'' [''1'', ''2''] = ''[{s, 1},{s, 2}]''"
    by (simp add: batch_text_def record_text_def)
  show ?thesis
    by (subst publish_file_batches [of "''u''" "''s''" "''f''" ?net _ "[''1'', ''2'']"])
      (simp_all add: b t MESSAGE_CAP_def data_line_def curl_easy_perform_def init_curl_def)
qed

text \<open>Overflow of the message array.\<close>

lemma publish_more_overflow:
  assumes "\<forall>l \<in> set ls. data_line l" "0 < i" "i + length ls \<le> 9" "length m < MESSAGE_CAP"
    "MESSAGE_CAP \<le> length m + length (more_records s ls)"
  shows "publish_lines net r s (map (\<lambda>l. l @ [NL]) ls @ rest) i m p = None"
  using assms
proof (induction ls arbitrary: i m)
  case Nil
  then show ?case by (simp add: more_records_def)
next
  case (Cons l ls)
  let ?m = "m @ '','' @ record_text s l"
  show ?case
  proof (cases "length ?m < MESSAGE_CAP")
    case True
    have "MESSAGE_CAP \<le> length ?m + length (more_records s ls)"
      using Cons.prems(5) by (simp add: more_records_def)
    then show ?thesis using Cons.prems Cons.IH [of "i + 1" ?m] True by (simp add: more_records_def)
  next
    case False
    then have "c_append MESSAGE_CAP m ('','' @ record_text s l) = None" by (simp add: c_safe)
    then show ?thesis using Cons.prems by simp
  qed
qed

lemma publish_block_overflow:
  assumes "\<forall>l \<in> set ls. data_line l" "length ls = 10" "MESSAGE_CAP \<le> length (batch_text s ls)"
  shows "publish_lines net r s (map (\<lambda>l. l @ [NL]) ls @ rest) 0 [] p = None"
proof -
  obtain x ys z where ls: "ls = x # ys @ [z]" and ys: "length ys = 8"
  proof -
    obtain x zs where 1: "ls = x # zs" "length zs = 9" using assms(2) by (cases ls) auto
    moreover obtain ys z where "zs = ys @ [z]" using 1(2) by (cases zs rule: rev_cases) auto
    ultimately show ?thesis using that by auto
  qed
  let ?f = "''['' @ record_text s x"
  let ?rest = "(z @ [NL]) # rest"
  have b: "batch_text s ls = ?f @ more_records s ys @ '','' @ record_text s z @ '']''"
    unfolding ls batch_text_Cons by (simp add: more_records_def)
  have eq: "map (\<lambda>l. l @ [NL]) ls @ rest = (x @ [NL]) # map (\<lambda>l. l @ [NL]) ys @ ?rest" by (simp add: ls)
  have dl: "data_line x" "\<forall>l \<in> set ys. data_line l" "data_line z" using assms(1) by (simp_all add: ls)
  consider "MESSAGE_CAP \<le> length ?f"
    | "length ?f < MESSAGE_CAP" "MESSAGE_CAP \<le> length ?f + length (more_records s ys)"
    | "length ?f + length (more_records s ys) < MESSAGE_CAP" by linarith
  then show ?thesis
  proof cases
    case 1
    then have "c_store MESSAGE_CAP ?f = None" by (simp only: c_store_None)
    then show ?thesis unfolding eq using dl(1) by simp
  next
    case 2
    have "publish_lines net r s (map (\<lambda>l. l @ [NL]) ys @ ?rest) 1 ?f p = None"
      by (rule publish_more_overflow) (use 2 dl(2) ys in simp_all)
    then show ?thesis unfolding eq using publish_first [OF dl(1) 2(1)] by simp
  next
    case 3
    let ?m = "?f @ more_records s ys"
    have f: "length ?f < MESSAGE_CAP" using 3 by linarith
    have "c_append MESSAGE_CAP ?m ('','' @ record_text s z @ '']'') = None"
      using assms(3) unfolding b by (simp add: c_safe)
    then have "publish_lines net r s ?rest 9 ?m p = None" using dl(3) by simp
    moreover have "publish_lines net r s (map (\<lambda>l. l @ [NL]) ys @ ?rest) 1 ?f p =
        publish_lines net r s ?rest 9 ?m p"
      using publish_more [OF dl(2), of 1 ?f s net r ?rest p] 3 ys by simp
    ultimately show ?thesis unfolding eq using publish_first [OF dl(1) f] by simp
  qed
qed

text \<open>
  Ten lines whose batch text reaches 3200 characters overflow the array \<open>message\<close>: with
  the capacities the code chose (static strings up to 255 characters, lines up to 318) the array
  of 10 * 320 bytes is too small, and \<open>publish_file\<close> is undefined on such a file.
\<close>

theorem publish_file_overflow:
  assumes "u \<noteq> []" "s \<noteq> []" "name \<noteq> []" "curl_ok net"
    and contents: "fs name = Some (concat (map (\<lambda>l. l @ [NL]) (ls @ rest_lines)))"
      "\<forall>l \<in> set (ls @ rest_lines). data_line l" "length ls = 10"
    and long: "MESSAGE_CAP \<le> length (batch_text s ls)"
  shows "publish_file net fs (Some u) (Some s) (Some name) p = None"
proof -
  have l: "fgets_all 320 (concat (map (\<lambda>l. l @ [NL]) (ls @ rest_lines))) = map (\<lambda>l. l @ [NL]) (ls @ rest_lines)"
    using contents(2) by (intro fgets_all_lines) (auto simp: data_line_def)
  have "publish_lines net r s (map (\<lambda>l. l @ [NL]) (ls @ rest_lines)) 0 [] q = None" for r q
    using publish_block_overflow [OF _ contents(3) long] contents(2) by simp
  then show ?thesis
    using assms(1-4) l contents(1)
    by (simp add: publish_file_def check_URL_def check_message_def prepare_publish_def Let_def)
qed

lemma length_batch_replicate:
  "length (batch_text s (replicate (Suc n) l)) = 2 + (length s + length l + 4) + n * (length s + length l + 5)"
  by (simp add: batch_text_Cons more_records_def record_text_def length_concat sum_list_replicate algebra_simps)

lemma ten_long_lines:
  "length l = 160 \<Longrightarrow> length s = 155 \<Longrightarrow> MESSAGE_CAP \<le> length (batch_text s (replicate 10 l))"
  using length_batch_replicate [of s 9 l] by (simp add: MESSAGE_CAP_def del: replicate_Suc replicate.simps)

theorem publish_file_overflow_witness:
  "publish_file \<lparr>curl_ok = True, reply = (\<lambda>_ _. (True, [])), realloc_at = (\<lambda>_. InPlace)\<rparr>
     (\<lambda>_. Some (concat (map (\<lambda>l. l @ [NL]) (replicate 10 (replicate 160 CHR ''x'') @ []))))
     (Some ''u'') (Some (replicate 155 CHR ''s'')) (Some ''f'') \<lparr>headers = [], sent = []\<rparr> = None"
proof (rule publish_file_overflow)
  show "replicate 155 CHR ''s'' \<noteq> []" by (metis length_replicate list.size(3) zero_neq_numeral)
  show "\<forall>l \<in> set (replicate 10 (replicate 160 CHR ''x'') @ []). data_line l"
    by (simp only: set_append set_replicate_conv_if data_line_def set_replicate_conv_if) (simp del: replicate_Suc replicate.simps)
  show "MESSAGE_CAP \<le> length (batch_text (replicate 155 CHR ''s'') (replicate 10 (replicate 160 CHR ''x'')))"
    by (rule ten_long_lines) (rule length_replicate)+
  show "length (replicate 10 (replicate 160 CHR ''x'')) = 10" by (rule length_replicate)
  show "(\<lambda>_. Some (concat (map (\<lambda>l. l @ [NL]) (replicate 10 (replicate 160 CHR ''x'') @ [])))) ''f'' =
    Some (concat (map (\<lambda>l. l @ [NL]) (replicate 10 (replicate 160 CHR ''x'') @ [])))" by (rule refl)
qed simp_all

subsection \<open>Guards and responses\<close>

text \<open>
  \<open>publish_json\<close> on every branch: without a URL, a message or a curl handle it makes no
  transfer and returns 0; otherwise it makes exactly one, a POST of the message to the URL with
  the JSON headers, and returns 1 exactly when it succeeds.
\<close>

theorem publish_json_cases:
  "publish_json net URL message p =
    (case (URL, message) of
       (Some u, Some m) \<Rightarrow>
         (if u = [] \<or> m = [] then (0, p)
          else if \<not> curl_ok net then (0, init_curl p)
          else let r = \<lparr>meth = POST, url = u, body = m, hdrs = headers (init_curl p)\<rparr> in
            (if fst (reply net (length (sent p)) r) then 1 else 0,
             (init_curl p)\<lparr>sent := sent p @ [r]\<rparr>))
     | _ \<Rightarrow> (0, p))"
  by (auto simp: publish_json_def check_URL_def check_message_def prepare_publish_def
      curl_easy_perform_def init_curl_def Let_def split: option.splits)

lemma deliver_in_place:
  assumes "\<forall>n. ra n = InPlace"
  shows "deliver ra chunks (Live b) =
    Some (True, Live (if chunks = [] then b else c_string (last chunks)))"
  using assms by (induction chunks arbitrary: b) auto

text \<open>
  What the caller finds in \<open>experiment_id\<close> after a successful transfer, when \<open>realloc\<close>
  never moves the block: the last chunk of the response alone. The earlier chunks are
  overwritten, since the callback copies each chunk to the start of the block.
\<close>

theorem experiment_id_last_chunk:
  assumes "u \<noteq> []" "m \<noteq> []" "curl_ok net" "\<forall>n. realloc_at net n = InPlace"
    and "reply net (length (sent p)) \<lparr>meth = POST, url = u, body = m, hdrs = headers (init_curl p)\<rparr> = (True, chunks)"
    and "chunks \<noteq> []"
  shows "\<exists>p'. create_new_experiment net (Some u) (Some m) (Live old) p = Some (1, Live (c_string (last chunks)), p')"
proof -
  have "length (sent (init_curl p)) = length (sent p)" by (simp add: init_curl_def)
  then show ?thesis using assms
    by (simp add: create_new_experiment_def check_URL_def check_message_def prepare_publish_def
        curl_easy_perform_reading_def deliver_in_place Let_def)
qed

theorem experiment_id_last_chunk_witness:
  "\<exists>p'. create_new_experiment
     \<lparr>curl_ok = True, reply = (\<lambda>_ _. (True, [''AV'', ''x3''])), realloc_at = (\<lambda>_. InPlace)\<rparr>
     (Some ''u'') (Some ''m'') (Live []) \<lparr>headers = [], sent = []\<rparr> = Some (1, Live ''x3'', p')"
  using experiment_id_last_chunk [of "''u''" "''m''"
      "\<lparr>curl_ok = True, reply = (\<lambda>_ _. (True, [''AV'', ''x3''])), realloc_at = (\<lambda>_. InPlace)\<rparr>"
      "\<lparr>headers = [], sent = []\<rparr>" "[''AV'', ''x3'']" "[]"]
  by (simp add: c_string_def)

lemma sent_init_curl [simp]: "sent (init_curl p) = sent p"
  by (simp add: init_curl_def)

lemma create_new_experiment_reading:
  assumes "u \<noteq> []" "m \<noteq> []" "curl_ok net"
  shows "create_new_experiment net (Some u) (Some m) b p =
    (let r = \<lparr>meth = POST, url = u, body = m, hdrs = headers (init_curl p)\<rparr> in do {
       (whole, b') \<leftarrow> deliver (realloc_at net) (snd (reply net (length (sent p)) r)) b;
       Some (if fst (reply net (length (sent p)) r) \<and> whole then 1 else 0, b',
         (init_curl p)\<lparr>sent := sent p @ [r]\<rparr>)
     })"
  using assms
  by (simp add: create_new_experiment_def check_URL_def check_message_def prepare_publish_def Let_def
      curl_easy_perform_reading_def split_def)

end
