(* ===== verification/Thread_Handler.thy ===== *)
theory Thread_Handler
  imports Plugin_Discover Publisher
begin

text \<open>
  The sampling threads of \<^verbatim>\<open>agent/thread_handler.c\<close>: the timings read from the
  configuration, the bulk message of a round of samples, and the loop that publishes it.
  How the threads interleave is the subject of theory \<open>Agent_Shutdown\<close>.
\<close>

subsection \<open>Timings\<close>

record timespec =
  tv_sec :: int
  tv_nsec :: int

text \<open>The globals \<open>timings[256]\<close> and \<open>sleep_tims[256]\<close>.\<close>

record timing_state =
  timings :: "nat \<Rightarrow> int"
  sleep_tims :: "nat \<Rightarrow> timespec"

definition timings_start :: timing_state where
  "timings_start = \<lparr>timings = (\<lambda>_. 0), sleep_tims = (\<lambda>_. \<lparr>tv_sec = 0, tv_nsec = 0\<rparr>)\<rparr>"

text \<open>\<open>10e8\<close>, a \<open>double\<close>, is a thousand million.\<close>

abbreviation "ten_e8 \<equiv> Fin False (10 ^ 9)"

text \<open>\<open>%\<close> of C truncates towards zero; here its first operand is at least \<open>10e8\<close>.\<close>

definition to_timespec :: "int \<Rightarrow> timespec option" where
  "to_timespec t =
     (if fp_le ten_e8 (fp_of_int binary64 t) then do {
        s \<leftarrow> fp_trunc (fp_div binary64 (fp_of_int binary64 t) ten_e8);
        Some \<lparr>tv_sec = s, tv_nsec = t mod 10 ^ 9\<rparr>
      }
      else Some \<lparr>tv_sec = 0, tv_nsec = t\<rparr>)"

definition init_timing ::
  "mfp_state \<Rightarrow> (nat \<Rightarrow> cstr option) \<Rightarrow> int \<Rightarrow> nat \<Rightarrow> timing_state \<Rightarrow> timing_state option" where
  "init_timing cfg names default_timing i ts =
     (case names i of None \<Rightarrow> Some ts
      | Some name \<Rightarrow> do {
          val \<leftarrow> mfp_get_value cfg ''timings'' name 20 [];
          if val = [] then Some (ts\<lparr>timings := (timings ts)(i := default_timing)\<rparr>)
          else do {
            sleep \<leftarrow> to_timespec (strtol val);
            Some (ts\<lparr>timings := (timings ts)(i := strtol val), sleep_tims := (sleep_tims ts)(i := sleep)\<rparr>)
          }
        })"

definition init_timings ::
  "mfp_state \<Rightarrow> (nat \<Rightarrow> cstr option) \<Rightarrow> nat \<Rightarrow> timing_state \<Rightarrow> timing_state option" where
  "init_timings cfg names count ts = do {
     timing \<leftarrow> mfp_get_value cfg ''timings'' ''default'' 20 [];
     foldM (init_timing cfg names (strtol timing)) [0..<count] ts
   }"

subsection \<open>The message of a round\<close>

definition JSON_LEN :: nat where "JSON_LEN = 1024"

record ids =
  application_id :: cstr
  experiment_id :: cstr
  task_id :: cstr
  platform_id :: cstr

definition quoted :: "cstr \<Rightarrow> cstr" where
  "quoted s = [DQ] @ s @ [DQ]"

definition static_text :: "ids \<Rightarrow> cstr" where
  "static_text x = ''{'' @ quoted ''WorkflowID'' @ '':'' @ quoted (application_id x) @ '','' @
     quoted ''ExperimentID'' @ '':'' @ quoted (experiment_id x) @ '','' @
     quoted ''TaskID'' @ '':'' @ quoted (task_id x) @ '','' @
     quoted ''host'' @ '':'' @ quoted (platform_id x) @ '','' "

text \<open>
  \<open>calloc(JSON_LEN * bulk_size)\<close> and the write of its first character: without a positive
  \<open>bulk_size\<close> there is no room for it, and from 2^21 on the product overflows \<open>int\<close>.
\<close>

definition bulk_alloc :: "int \<Rightarrow> nat option" where
  "bulk_alloc bulk_size =
     (if bulk_size \<le> 0 \<or> 2 ^ 31 \<le> 1024 * bulk_size then None else Some (nat (1024 * bulk_size)))"

text \<open>
  The \<open>for\<close> loop of a round: \<open>k\<close> samples are left, \<open>sample i\<close> is what the hook
  returns at its \<open>i\<close>-th call of the round and whether the \<open>nanosleep\<close> after it
  completes.
\<close>

fun gather_bulk ::
  "(nat \<Rightarrow> cstr option \<times> bool) \<Rightarrow> cstr \<Rightarrow> nat \<Rightarrow> nat \<Rightarrow> nat \<Rightarrow> cstr \<Rightarrow> cstr option" where
  "gather_bulk sample static_json cap 0 i json_array = Some json_array"
| "gather_bulk sample static_json cap (Suc k) i json_array = do {
     arr \<leftarrow> (case fst (sample i) of None \<Rightarrow> Some json_array
       | Some json \<Rightarrow> do {
           msg \<leftarrow> c_store JSON_LEN (static_json @ json @ ''},'');
           c_append cap json_array msg
         });
     if snd (sample i) then gather_bulk sample static_json cap k (i + 1) arr else Some arr
   }"

definition bulk_message ::
  "(nat \<Rightarrow> cstr option \<times> bool) \<Rightarrow> cstr \<Rightarrow> nat \<Rightarrow> nat \<Rightarrow> cstr option" where
  "bulk_message sample static_json cap bulk = do {
     arr \<leftarrow> gather_bulk sample static_json cap bulk 0 ''['';
     Some (butlast arr @ '']'')
   }"

text \<open>
  \<open>gatherMetric\<close> of a thread whose hook is \<open>h\<close> (\<open>None\<close> is a null pointer), for
  the number of rounds at whose start \<open>running\<close> is set; \<open>call h r i\<close> is the \<open>i\<close>-th
  call of the hook in round \<open>r\<close>.
\<close>

fun gather_rounds ::
  "net \<Rightarrow> cstr \<Rightarrow> ('h \<Rightarrow> nat \<Rightarrow> nat \<Rightarrow> cstr option \<times> bool) \<Rightarrow> 'h option \<Rightarrow> cstr \<Rightarrow> nat \<Rightarrow> nat \<Rightarrow> nat \<Rightarrow> nat \<Rightarrow>
   pub \<Rightarrow> pub option" where
  "gather_rounds net u call h static_json cap bulk 0 r p = Some p"
| "gather_rounds net u call h static_json cap bulk (Suc n) r p =
     (case h of None \<Rightarrow> None
      | Some f \<Rightarrow> do {
          m \<leftarrow> bulk_message (call f r) static_json cap bulk;
          gather_rounds net u call h static_json cap bulk n (r + 1) (snd (publish_json net (Some u) (Some m) p))
        })"

definition gatherMetric ::
  "net \<Rightarrow> ids \<Rightarrow> cstr \<Rightarrow> ('h \<Rightarrow> nat \<Rightarrow> nat \<Rightarrow> cstr option \<times> bool) \<Rightarrow> 'h option list \<Rightarrow> nat \<Rightarrow> int \<Rightarrow> nat \<Rightarrow>
   pub \<Rightarrow> pub option" where
  "gatherMetric net x metrics_publish_URL call hooks num bulk_size rounds p = do {
     cap \<leftarrow> bulk_alloc bulk_size;
     static_json \<leftarrow> c_store 512 (static_text x);
     gather_rounds net metrics_publish_URL call (hooks ! num) static_json cap (nat bulk_size) rounds 0 p
   }"

subsection \<open>Starting the threads\<close>

text \<open>
  \<open>startThreads\<close> up to the creation of the threads: \<open>bulk_size\<close>, the timings and one
  hook per plugin, all taken before the first thread runs. One thread more than there are
  plugins is created, in an array of 256.
\<close>

record ('q, 'd, 'h) agent_start =
  discovery :: "('q, 'd) discovery"
  start_timing :: timing_state
  bulk_size :: int
  hooks :: "'h option list"

definition startThreads ::
  "('q, 'h) ecq \<Rightarrow> ('q, 'd) loader \<Rightarrow> (cstr \<Rightarrow> cstr list option) \<Rightarrow> mfp_state \<Rightarrow> cstr \<Rightarrow>
   ('q, 'd, 'h) agent_start option" where
  "startThreads Q dl dirs cfg pwd = do {
     p1 \<leftarrow> c_store 256 pwd;
     pluginLocation \<leftarrow> c_append 256 p1 ''/plugins'';
     (pdstate, d) \<leftarrow> discover_plugins dl dirs cfg pluginLocation
       \<lparr>pm = PluginManager_new Q, plugins_name = Map.empty, pluginCount = 0, handle_list = [], closed = []\<rparr>;
     ts \<leftarrow> init_timings cfg (plugins_name d) (pluginCount d) timings_start;
     tmp_string \<leftarrow> mfp_get_value cfg ''generic'' ''bulk_size'' 20 [];
     (let (hs, pm') = get_hooks Q (pluginCount d) (pm d) in
      if 256 \<le> pluginCount d then None
      else Some \<lparr>discovery = d\<lparr>pm := pm'\<rparr>, start_timing = ts, bulk_size = atoi tmp_string, hooks = hs\<rparr>)
   }"

text \<open>
  One round of \<open>checkConf\<close>: the file is read again, then, after the sleep of
  \<open>update_configuration\<close> seconds, the timings.
\<close>

definition checkConf_round ::
  "(cstr \<Rightarrow> string option) \<Rightarrow> cstr \<Rightarrow> (nat \<Rightarrow> cstr option) \<Rightarrow> nat \<Rightarrow> mfp_state \<times> timing_state \<Rightarrow>
   (int \<times> mfp_state \<times> timing_state) option" where
  "checkConf_round fs confFile names count = (\<lambda>(cfg, ts).
     (let cfg' = snd (mfp_parse fs confFile cfg) in do {
        wait \<leftarrow> mfp_get_value cfg' ''timings'' ''update_configuration'' 20 [];
        ts' \<leftarrow> init_timings cfg' names count ts;
        Some (atoi wait, cfg', ts')
      }))"

text \<open>\<open>entryThreads\<close>: the last thread watches the configuration, the others sample.\<close>

datatype thread_role = Gather nat | Check_Conf

definition entryThreads :: "nat \<Rightarrow> nat \<Rightarrow> thread_role" where
  "entryThreads count t = (if t < count then Gather t else Check_Conf)"


subsection \<open>What the timings mean\<close>

text \<open>The timings the split into seconds and nanoseconds is exact for: up to 2^23 seconds.\<close>

abbreviation "MAX_TIMING \<equiv> (2 ^ 23 * 10 ^ 9 :: int)"

lemma to_timespec_split:
  assumes "0 \<le> t" "t < MAX_TIMING"
  shows "to_timespec t = Some \<lparr>tv_sec = t div 10 ^ 9, tv_nsec = t mod 10 ^ 9\<rparr>"
proof (cases "10 ^ 9 \<le> t")
  case True
  then show ?thesis using fp_le_billion [of t] seconds_of_nanoseconds [of t] assms by (simp add: to_timespec_def)
next
  case False
  then show ?thesis using fp_le_billion [of t] assms by (simp add: to_timespec_def)
qed

text \<open>A plugin's own timing in the configuration, if it has one.\<close>

definition own_timing :: "mfp_state \<Rightarrow> (nat \<Rightarrow> cstr option) \<Rightarrow> nat \<Rightarrow> int option" where
  "own_timing cfg names i = do {
     name \<leftarrow> names i;
     v \<leftarrow> mfp_lookup cfg ''timings'' name;
     if v = [] then None else Some (strtol v)
   }"

text \<open>The hypotheses on a configuration: values of at most 19 characters, sensible timings.\<close>

definition timings_ok :: "mfp_state \<Rightarrow> (nat \<Rightarrow> cstr option) \<Rightarrow> nat \<Rightarrow> bool" where
  "timings_ok cfg names count \<longleftrightarrow>
     ht_initialized cfg \<and> mp_alive cfg \<and>
     (\<forall>v. mfp_lookup cfg ''timings'' ''default'' = Some v \<longrightarrow> length v < 20) \<and>
     (\<forall>i < count. \<forall>n v. names i = Some n \<longrightarrow> mfp_lookup cfg ''timings'' n = Some v \<longrightarrow>
        length v < 20 \<and> 0 \<le> strtol v \<and> strtol v < MAX_TIMING)"

definition default_of :: "mfp_state \<Rightarrow> int" where
  "default_of cfg = (case mfp_lookup cfg ''timings'' ''default'' of None \<Rightarrow> 0 | Some v \<Rightarrow> strtol v)"

definition timing_after :: "mfp_state \<Rightarrow> (nat \<Rightarrow> cstr option) \<Rightarrow> timing_state \<Rightarrow> nat \<Rightarrow> int \<times> timespec" where
  "timing_after cfg names ts i =
     (case own_timing cfg names i of
        Some t \<Rightarrow> (t, \<lparr>tv_sec = t div 10 ^ 9, tv_nsec = t mod 10 ^ 9\<rparr>)
      | None \<Rightarrow> (if names i = None then timings ts i else default_of cfg, sleep_tims ts i))"

lemma init_timing_one:
  assumes "timings_ok cfg names count" "i < count"
  shows "init_timing cfg names (default_of cfg) i ts =
    Some (ts\<lparr>timings := (timings ts)(i := fst (timing_after cfg names ts i)),
             sleep_tims := (sleep_tims ts)(i := snd (timing_after cfg names ts i))\<rparr>)"
  using assms
  by (auto simp: init_timing_def timing_after_def own_timing_def timings_ok_def mfp_get_value_lookup
      to_timespec_split split: option.split)

lemma init_timings_upto:
  assumes "timings_ok cfg names count" "n \<le> count"
  shows "\<exists>ts'. foldM (init_timing cfg names (default_of cfg)) [0..<n] ts = Some ts' \<and>
    (\<forall>i. (timings ts' i, sleep_tims ts' i) =
       (if i < n then timing_after cfg names ts i else (timings ts i, sleep_tims ts i)))"
  using assms(2)
proof (induction n)
  case (Suc n)
  then obtain ts1 where ts1: "foldM (init_timing cfg names (default_of cfg)) [0..<n] ts = Some ts1"
    and eq: "\<forall>i. (timings ts1 i, sleep_tims ts1 i) =
       (if i < n then timing_after cfg names ts i else (timings ts i, sleep_tims ts i))"
    by auto
  have "timings ts1 n = timings ts n" "sleep_tims ts1 n = sleep_tims ts n"
    using eq [rule_format, of n] by simp_all
  then have "timing_after cfg names ts1 n = timing_after cfg names ts n"
    by (auto simp: timing_after_def split: option.split)
  then show ?case
    using eq init_timing_one [OF assms(1), of n ts1] Suc.prems
    by (auto simp: foldM_append ts1 less_Suc_eq)
qed simp

text \<open>
  C22. What \<open>init_timings\<close> does to every plugin thread. A plugin with a timing of its own
  gets it, and a sleep that is exactly that many nanoseconds, split into whole seconds and a
  remainder below a second although the split goes through a \<open>double\<close>. A plugin without
  one gets the \<open>default\<close> of the configuration in \<open>timings\<close> only: the time its thread
  sleeps stays what it was, zero at the start of the agent.
\<close>

theorem init_timings_correct:
  assumes "timings_ok cfg names count"
  shows "\<exists>ts'. init_timings cfg names count ts = Some ts' \<and>
    (\<forall>i < count. case own_timing cfg names i of
       Some t \<Rightarrow> timings ts' i = t \<and> tv_sec (sleep_tims ts' i) * 10 ^ 9 + tv_nsec (sleep_tims ts' i) = t \<and>
         0 \<le> tv_nsec (sleep_tims ts' i) \<and> tv_nsec (sleep_tims ts' i) < 10 ^ 9
     | None \<Rightarrow> (names i \<noteq> None \<longrightarrow> timings ts' i = default_of cfg) \<and> sleep_tims ts' i = sleep_tims ts i)"
proof -
  from init_timings_upto [OF assms order_refl, of ts] obtain ts' where
    ts': "foldM (init_timing cfg names (default_of cfg)) [0..<count] ts = Some ts'"
    and eq: "\<forall>i. (timings ts' i, sleep_tims ts' i) =
       (if i < count then timing_after cfg names ts i else (timings ts i, sleep_tims ts i))"
    by blast
  have "strtol [] = 0" by (simp add: strtol_def scan_number_def scan_sign_def)
  then have "init_timings cfg names count ts = Some ts'"
    using assms ts'
    by (auto simp: init_timings_def timings_ok_def mfp_get_value_lookup default_of_def split: option.splits)
  moreover have "case own_timing cfg names i of
       Some t \<Rightarrow> timings ts' i = t \<and> tv_sec (sleep_tims ts' i) * 10 ^ 9 + tv_nsec (sleep_tims ts' i) = t \<and>
         0 \<le> tv_nsec (sleep_tims ts' i) \<and> tv_nsec (sleep_tims ts' i) < 10 ^ 9
     | None \<Rightarrow> (names i \<noteq> None \<longrightarrow> timings ts' i = default_of cfg) \<and> sleep_tims ts' i = sleep_tims ts i"
    if "i < count" for i
    using eq [rule_format, of i] that
    by (auto simp: timing_after_def div_mult_mod_eq split: option.splits)
  ultimately show ?thesis by blast
qed

definition sample_timings :: mfp_state where
  "sample_timings = \<lparr>ht_initialized = True, mp_alive = True, ht_config = [''timings'' \<mapsto>
     [''default'' \<mapsto> ''1000000000ns'', ''mf_plugin_NVML'' \<mapsto> ''2500000000ns'']]\<rparr>"

definition sample_names :: "nat \<Rightarrow> cstr option" where
  "sample_names = (\<lambda>i. if i = 0 then Some ''mf_plugin_NVML'' else if i = 1 then Some ''mf_plugin_x'' else None)"

lemma sample_strtol:
  "strtol ''1000000000ns'' = 1000000000" "strtol ''2500000000ns'' = 2500000000"
  by (simp_all add: strtol_def scan_number_def scan_sign_def digits_val_def digit_val_def isdigit_def
      isspace_def clamp_long_def)

lemma all_less_2: "(\<forall>i < 2. P i) \<longleftrightarrow> P 0 \<and> P (1 :: nat)"
  by (auto simp: less_2_cases_iff)

lemma sample_lookup:
  "mfp_lookup sample_timings ''timings'' ''default'' = Some ''1000000000ns''"
  "mfp_lookup sample_timings ''timings'' ''mf_plugin_NVML'' = Some ''2500000000ns''"
  "mfp_lookup sample_timings ''timings'' ''mf_plugin_x'' = None"
  by code_simp+

lemma sample_timings_ok: "timings_ok sample_timings sample_names 2"
proof -
  have "ht_initialized sample_timings" "mp_alive sample_timings" by (simp_all add: sample_timings_def)
  moreover have "sample_names 0 = Some ''mf_plugin_NVML''" "sample_names 1 = Some ''mf_plugin_x''"
    by (simp_all add: sample_names_def)
  ultimately show ?thesis
    unfolding timings_ok_def all_less_2 by (simp add: sample_lookup sample_strtol)
qed

theorem init_timings_correct_witness:
  "\<exists>ts'. init_timings sample_timings sample_names 2 timings_start = Some ts' \<and>
     timings ts' 0 = 2500000000 \<and> timings ts' 1 = 1000000000 \<and>
     tv_sec (sleep_tims ts' 0) * 10 ^ 9 + tv_nsec (sleep_tims ts' 0) = 2500000000 \<and>
     sleep_tims ts' 1 = \<lparr>tv_sec = 0, tv_nsec = 0\<rparr>"
proof -
  have o: "own_timing sample_timings sample_names 0 = Some 2500000000"
    "own_timing sample_timings sample_names 1 = None" "default_of sample_timings = 1000000000"
    "sample_names 1 \<noteq> None" "sleep_tims timings_start 1 = \<lparr>tv_sec = 0, tv_nsec = 0\<rparr>"
    by (simp_all add: own_timing_def default_of_def sample_names_def sample_lookup sample_strtol timings_start_def)
  obtain ts' where i: "init_timings sample_timings sample_names 2 timings_start = Some ts'"
    and r: "\<forall>i < 2. case own_timing sample_timings sample_names i of
       Some t \<Rightarrow> timings ts' i = t \<and> tv_sec (sleep_tims ts' i) * 10 ^ 9 + tv_nsec (sleep_tims ts' i) = t \<and>
         0 \<le> tv_nsec (sleep_tims ts' i) \<and> tv_nsec (sleep_tims ts' i) < 10 ^ 9
     | None \<Rightarrow> (sample_names i \<noteq> None \<longrightarrow> timings ts' i = default_of sample_timings) \<and>
         sleep_tims ts' i = sleep_tims timings_start i"
    using init_timings_correct [OF sample_timings_ok, of timings_start] by blast
  from r [unfolded all_less_2 o option.case] i o(4) show ?thesis by blast
qed


subsection \<open>The bulk message\<close>

text \<open>
  The specification: a JSON array of one record per sample, the static fields followed by the
  fields the hook printed. \<open>complete\<close> says that every hook call of a round returned a text
  and every sleep completed; \<open>fits_record\<close> that a record fits the array \<open>msg\<close>.
\<close>

definition metric_record :: "cstr \<Rightarrow> cstr \<Rightarrow> cstr" where
  "metric_record static_json json = static_json @ json @ ''}''"

definition bulk_text :: "cstr \<Rightarrow> cstr list \<Rightarrow> cstr" where
  "bulk_text static_json jsons = ''['' @ join '','' (map (metric_record static_json) jsons) @ '']''"

definition fits_record :: "cstr \<Rightarrow> cstr \<Rightarrow> bool" where
  "fits_record static_json json \<longleftrightarrow> length static_json + length json + 2 < JSON_LEN"

definition commas :: "cstr \<Rightarrow> cstr list \<Rightarrow> cstr" where
  "commas static_json jsons = concat (map (\<lambda>j. metric_record static_json j @ '','') jsons)"

lemma join_commas: "jsons \<noteq> [] \<Longrightarrow> join '','' (map (metric_record s) jsons) @ '','' = commas s jsons"
proof (induction jsons rule: rev_induct)
  case (snoc j js)
  then show ?case by (cases "js = []") (auto simp: commas_def join_snoc)
qed simp

lemma length_commas:
  "\<forall>j \<in> set js. fits_record s j \<Longrightarrow> length (commas s js) \<le> 1023 * length js"
  by (induction js) (auto simp: commas_def fits_record_def metric_record_def JSON_LEN_def)

text \<open>The samples of a round that return a text, up to the first interrupted sleep.\<close>

fun round_samples :: "(nat \<Rightarrow> cstr option \<times> bool) \<Rightarrow> nat \<Rightarrow> nat \<Rightarrow> cstr list" where
  "round_samples sample 0 i = []"
| "round_samples sample (Suc k) i =
     (case fst (sample i) of None \<Rightarrow> [] | Some j \<Rightarrow> [j]) @
     (if snd (sample i) then round_samples sample k (i + 1) else [])"

lemma round_samples_length: "length (round_samples sample k i) \<le> k"
proof (induction k arbitrary: i)
  case (Suc k)
  from Suc [of "i + 1"] show ?case by (simp split: option.split)
qed simp

lemma gather_bulk_text:
  assumes "\<forall>j \<in> set (round_samples sample k i). fits_record s j"
    and "length arr + length (commas s (round_samples sample k i)) < cap"
  shows "gather_bulk sample s cap k i arr = Some (arr @ commas s (round_samples sample k i))"
  using assms
proof (induction k arbitrary: i arr)
  case 0
  then show ?case by (simp add: commas_def)
next
  case (Suc k)
  show ?case
  proof (cases "fst (sample i)")
    case None
    then show ?thesis using Suc.IH [of "i + 1" arr] Suc.prems
      by (cases "snd (sample i)") (simp_all add: commas_def)
  next
    case (Some j)
    let ?m = "s @ j @ ''},''"
    have "c_store JSON_LEN ?m = Some ?m"
      using Suc.prems(1) Some by (simp add: fits_record_def)
    moreover have "c_append cap arr ?m = Some (arr @ ?m)"
      using Suc.prems(2) Some by (simp add: commas_def metric_record_def)
    ultimately show ?thesis using Suc.IH [of "i + 1" "arr @ ?m"] Suc.prems Some
      by (cases "snd (sample i)") (simp_all add: commas_def metric_record_def)
  qed
qed

lemma gather_bulk_fits:
  assumes "2 \<le> bulk" "\<forall>j \<in> set (round_samples sample bulk 0). fits_record s j"
  shows "gather_bulk sample s (1024 * bulk) bulk 0 ''['' = Some (''['' @ commas s (round_samples sample bulk 0))"
  using gather_bulk_text [OF assms(2), of "''[''" "1024 * bulk"] assms(1)
    length_commas [OF assms(2)] round_samples_length [of sample bulk 0]
  by simp

lemma bulk_message_rule:
  assumes "2 \<le> bulk" "\<forall>j \<in> set (round_samples sample bulk 0). fits_record s j"
  shows "bulk_message sample s (1024 * bulk) bulk =
    Some (if round_samples sample bulk 0 = [] then '']'' else bulk_text s (round_samples sample bulk 0))"
proof (cases "round_samples sample bulk 0 = []")
  case True
  then show ?thesis using gather_bulk_fits [OF assms] by (simp add: bulk_message_def commas_def)
next
  case False
  have "butlast (''['' @ commas s (round_samples sample bulk 0)) =
      ''['' @ join '','' (map (metric_record s) (round_samples sample bulk 0))"
    unfolding join_commas [OF False, of s, symmetric] by (simp add: butlast_append)
  then show ?thesis using False gather_bulk_fits [OF assms]
    by (simp add: bulk_message_def bulk_text_def)
qed

text \<open>
  The message of a round with \<open>bulk_size\<close> at least two: if every record fits the array
  \<open>msg\<close>, nothing overflows, and the message is the JSON array of the samples of the
  round, in order, a sample the hook did not deliver left out and an interrupted sleep ending
  the round early. The exception is a round without any sample, whose message is a lone
  bracket: the code then overwrites the opening one.
\<close>

theorem bulk_message_correct:
  assumes "2 \<le> bulk" "\<forall>j \<in> set (round_samples sample bulk 0). fits_record s j"
  shows "bulk_message sample s (1024 * bulk) bulk =
    Some (if round_samples sample bulk 0 = [] then '']'' else bulk_text s (round_samples sample bulk 0))"
  using assms by (rule bulk_message_rule)

theorem bulk_message_correct_witness:
  "bulk_message (\<lambda>i. if i = 2 then (None, True) else (Some ''m'', True)) ''{s,'' (1024 * 3) 3 = Some ''[{s,m},{s,m}]''"
proof -
  have r: "round_samples (\<lambda>i. if i = 2 then (None, True) else (Some ''m'', True)) 3 0 = [''m'', ''m'']"
    by (simp add: numeral_nat)
  show ?thesis
    using bulk_message_correct [of 3 "\<lambda>i. if i = 2 then (None, True) else (Some ''m'', True)" "''{s,''"]
    by (simp add: r fits_record_def JSON_LEN_def bulk_text_def metric_record_def)
qed

text \<open>
  The bound on \<open>bulk_size\<close> is sharp: with \<open>bulk_size\<close> one the buffer has 1024
  characters for the bracket and the record, so a record of the greatest length \<open>msg\<close> can
  hold overflows it by one.
\<close>

theorem bulk_size_one_overflows:
  assumes "sample 0 = (Some json, slept)" "length s + length json + 2 = 1023"
  shows "bulk_message sample s (1024 * 1) 1 = None \<and> fits_record s json"
proof -
  have "c_store JSON_LEN (s @ json @ ''},'') = Some (s @ json @ ''},'')" using assms(2) by (simp add: JSON_LEN_def)
  moreover have "c_append (1024 * 1) ''['' (s @ json @ ''},'') = None" using assms(2) by (simp add: c_append_None)
  ultimately show ?thesis using assms by (simp add: bulk_message_def fits_record_def JSON_LEN_def)
qed

theorem bulk_size_one_overflows_witness:
  "bulk_message (\<lambda>_. (Some (replicate 1021 CHR ''x''), True)) [] (1024 * 1) 1 = None"
  using bulk_size_one_overflows [of "\<lambda>_. (Some (replicate 1021 CHR ''x''), True)" "replicate 1021 CHR ''x''" True "[]"]
  by (simp del: replicate.simps replicate_Suc)

definition round_message :: "(nat \<Rightarrow> cstr option \<times> bool) \<Rightarrow> cstr \<Rightarrow> nat \<Rightarrow> cstr" where
  "round_message sample s bulk =
     (if round_samples sample bulk 0 = [] then '']'' else bulk_text s (round_samples sample bulk 0))"

lemma bulk_message_text:
  assumes "2 \<le> bulk" "\<forall>j \<in> set (round_samples sample bulk 0). fits_record s j"
  shows "bulk_message sample s (1024 * bulk) bulk = Some (round_message sample s bulk)"
  unfolding round_message_def using assms by (rule bulk_message_rule)

lemma round_message_nonempty [simp]: "round_message sample s bulk \<noteq> []"
  by (simp add: round_message_def bulk_text_def)

lemma headers_init_curl [simp]: "headers (init_curl (init_curl p\<lparr>sent := xs\<rparr>)) = headers (init_curl p)"
  by (simp add: init_curl_def)

lemma publish_json_sends:
  assumes "curl_ok net" "u \<noteq> []" "m \<noteq> []"
  shows "snd (publish_json net (Some u) (Some m) p) =
    (init_curl p)\<lparr>sent := sent p @ [\<lparr>meth = POST, url = u, body = m, hdrs = headers (init_curl p)\<rparr>]\<rparr>"
  using assms
  by (simp add: publish_json_def check_URL_def check_message_def prepare_publish_def
      curl_easy_perform_def init_curl_def Let_def)

lemma gather_rounds_sends:
  assumes "2 \<le> bulk" "curl_ok net" "u \<noteq> []"
    and "\<forall>k < n. \<forall>j \<in> set (round_samples (call f (r + k)) bulk 0). fits_record s j"
  shows "\<exists>p'. gather_rounds net u call (Some f) s (1024 * bulk) bulk n r p = Some p' \<and>
    sent p' = sent p @ map (\<lambda>k. \<lparr>meth = POST, url = u, body = round_message (call f k) s bulk,
      hdrs = headers (init_curl p)\<rparr>) [r..<r + n]"
  using assms(4)
proof (induction n arbitrary: r p)
  case (Suc n)
  let ?m = "round_message (call f r) s bulk"
  let ?p = "(init_curl p)\<lparr>sent := sent p @ [\<lparr>meth = POST, url = u, body = ?m, hdrs = headers (init_curl p)\<rparr>]\<rparr>"
  have now: "bulk_message (call f r) s (1024 * bulk) bulk = Some ?m"
    using Suc.prems [rule_format, of 0] by (intro bulk_message_text [OF assms(1)]) simp
  have "\<forall>k < n. \<forall>j \<in> set (round_samples (call f (r + 1 + k)) bulk 0). fits_record s j"
    using Suc.prems by (metis Suc_eq_plus1 Suc_less_eq add.assoc add.commute)
  then show ?case
    using Suc.IH [of "r + 1" ?p] now
    by (simp add: publish_json_sends [OF assms(2,3)] upt_conv_Cons del: upt_Suc)
qed simp

text \<open>
  C3. Every round of \<open>gatherMetric\<close> publishes its message, in order: with records that fit
  \<open>msg\<close>, \<open>bulk_size\<close> between two and 2^21 and identifiers that fit \<open>static_json\<close>, nothing
  is undefined and the transfers made are one POST to the metrics URL per round.
\<close>

theorem gatherMetric_publishes:
  assumes "2 \<le> b" "b < 2 ^ 21" "length (static_text x) < 512" "curl_ok net" "u \<noteq> []"
    and "hs ! num = Some f"
    and "\<forall>k < rounds. \<forall>j \<in> set (round_samples (call f k) (nat b) 0). fits_record (static_text x) j"
  shows "\<exists>p'. gatherMetric net x u call hs num b rounds p = Some p' \<and>
    sent p' = sent p @ map (\<lambda>k. \<lparr>meth = POST, url = u, body = round_message (call f k) (static_text x) (nat b),
      hdrs = headers (init_curl p)\<rparr>) [0..<rounds]"
  using gather_rounds_sends [of "nat b" net u rounds call f 0 "static_text x" p] assms
  by (simp add: gatherMetric_def bulk_alloc_def nat_mult_distrib)

theorem gatherMetric_publishes_witness:
  "\<exists>p'. gatherMetric \<lparr>curl_ok = True, reply = (\<lambda>_ _. (True, [])), realloc_at = (\<lambda>_. InPlace)\<rparr>
      \<lparr>application_id = ''a'', experiment_id = ''e'', task_id = ''t'', platform_id = ''p''\<rparr> ''u''
      (\<lambda>f r i. (Some ''m'', True)) [None, Some ()] 1 2 3 \<lparr>headers = [], sent = []\<rparr> = Some p' \<and> length (sent p') = 3"
proof -
  have "round_samples (\<lambda>i. (Some ''m'', True)) 2 0 = [''m'', ''m'']" by (simp add: numeral_nat)
  then show ?thesis
    using gatherMetric_publishes [of 2 "\<lparr>application_id = ''a'', experiment_id = ''e'', task_id = ''t'', platform_id = ''p''\<rparr>"
      "\<lparr>curl_ok = True, reply = (\<lambda>_ _. (True, [])), realloc_at = (\<lambda>_. InPlace)\<rparr>" "''u''" "[None, Some ()]" 1 "()" 3
      "\<lambda>f r i. (Some ''m'', True)" "\<lparr>headers = [], sent = []\<rparr>"]
    by (auto simp: static_text_def quoted_def fits_record_def JSON_LEN_def)
qed

end
