(* ===== verification/Agent_Main.thy ===== *)
theory Agent_Main
  imports Thread_Handler
begin

text \<open>
  The start of the agent, \<^verbatim>\<open>agent/main.c\<close>: paths derived from the executable, command-line
  options, the configuration, and \<open>prepare\<close>, which asks the server for an experiment.
  The operating system is the parameter \<open>os\<close>: what \<open>readlink\<close>, the clock, \<open>getpid\<close>
  and \<open>fopen\<close> for writing give. \<open>exit\<close> is a value of the result.
\<close>

record os =
  proc_self_exe :: cstr
  time_stamp :: cstr
  process_id :: nat
  can_open :: "cstr \<Rightarrow> bool"

text \<open>
  \<open>set_pwd\<close>: the directory of the executable; \<open>readlink\<close> gives at most 200 characters.
  Without a slash in it the subtraction from the null pointer \<open>lastslash\<close> is undefined.
\<close>

definition set_pwd :: "os \<Rightarrow> cstr option" where
  "set_pwd os =
     (let buf = take 200 (proc_self_exe os) in
      case strrchr buf CHR ''/'' of None \<Rightarrow> None | Some lastslash \<Rightarrow> Some (take lastslash buf))"

text \<open>The name of the log file, and whether \<open>logFile\<close> is a stream or null.\<close>

definition createLogFile :: "os \<Rightarrow> cstr \<Rightarrow> (cstr \<times> bool) option" where
  "createLogFile os pwd = do {
     timeForFile \<leftarrow> c_store 50 (time_stamp os);
     _ \<leftarrow> c_store 300 (pwd @ ''/log'');
     logFileName \<leftarrow> c_store 300 (pwd @ ''/log/log-'' @ timeForFile);
     Some (logFileName, can_open os logFileName)
   }"

text \<open>The result is the name of the file and, unless it cannot be opened, its contents.\<close>

definition writeTmpPID :: "os \<Rightarrow> cstr \<Rightarrow> (cstr \<times> cstr option) option" where
  "writeTmpPID os pwd = do {
     n \<leftarrow> c_store 256 pwd;
     name \<leftarrow> c_append 256 n ''/tmp_pid'';
     Some (name, if can_open os name then Some (show_nat (process_id os)) else None)
   }"

subsection \<open>Options\<close>

datatype getopt_result = Opt_a cstr | Opt_t cstr | Opt_h | Opt_unknown

record options =
  opt_ids :: ids
  err_flag :: bool
  help_flag :: bool

definition ids_start :: ids where
  "ids_start = \<lparr>application_id = [], experiment_id = [], task_id = [], platform_id = []\<rparr>"

fun parse_option :: "getopt_result \<Rightarrow> options \<Rightarrow> options option" where
  "parse_option (Opt_a optarg) x = do {
     v \<leftarrow> c_store 128 optarg; Some (x\<lparr>opt_ids := (opt_ids x)\<lparr>application_id := v\<rparr>\<rparr>) }"
| "parse_option (Opt_t optarg) x = do {
     v \<leftarrow> c_store 128 optarg; Some (x\<lparr>opt_ids := (opt_ids x)\<lparr>task_id := v\<rparr>\<rparr>) }"
| "parse_option Opt_h x = Some (x\<lparr>help_flag := True\<rparr>)"
| "parse_option Opt_unknown x = Some (x\<lparr>err_flag := True\<rparr>)"

definition usage :: "cstr \<Rightarrow> cstr" where
  "usage argv0 = ''usage: '' @ argv0 @ '' [-a application_id] [-t task_id] [-h help]'' @ [NL]"

subsection \<open>The experiment\<close>

text \<open>
  \<open>prepare\<close> fills \<open>metrics_publish_URL\<close> and the identifiers and returns 1, or 0 when the
  server gave no experiment id. Reading \<open>experiment_id\<close> after \<open>realloc\<close> has moved its
  block is undefined.
\<close>

definition with_defaults :: "ids \<Rightarrow> ids" where
  "with_defaults x =
     (if application_id x = [] \<or> task_id x = []
      then x\<lparr>application_id := ''infrastructure'', task_id := platform_id x\<rparr> else x)"

definition experiment_msg :: "ids \<Rightarrow> cstr" where
  "experiment_msg x =
     ''{'' @ quoted ''application'' @ '':'' @ quoted (application_id x) @ '', '' @
     quoted ''task'' @ '': '' @ quoted (task_id x) @ '', '' @
     quoted ''host'' @ '': '' @ quoted (platform_id x) @ ''}''"

definition prepare :: "net \<Rightarrow> mfp_state \<Rightarrow> ids \<Rightarrow> pub \<Rightarrow> (int \<times> cstr \<times> ids \<times> pub) option" where
  "prepare net cfg x p = do {
     server_name \<leftarrow> mfp_get_value cfg ''generic'' ''server'' 128 [];
     metrics_publish_URL \<leftarrow> c_store 256 (server_name @ ''/phantom_mf/metrics'');
     platform \<leftarrow> mfp_get_value cfg ''generic'' ''platform_id'' 128 [];
     (let x1 = with_defaults (x\<lparr>platform_id := platform\<rparr>) in do {
        msg \<leftarrow> c_store 256 (experiment_msg x1);
        experiments_URL \<leftarrow> c_store 256 (server_name @ ''/phantom_mf/experiments/'' @ application_id x1);
        (rc, experiment, p') \<leftarrow> create_new_experiment net (Some experiments_URL) (Some msg) (Live (experiment_id x1)) p;
        (case experiment of Dangling \<Rightarrow> None
         | Live e \<Rightarrow> Some (if e = [] then 0 else 1, metrics_publish_URL, x1\<lparr>experiment_id := e\<rparr>, p'))
      })
   }"

subsection \<open>main\<close>

text \<open>
  \<open>main\<close> up to \<open>startThreads\<close>: \<open>Exit\<close> is a call of \<open>exit(FAILURE)\<close>, which leaves
  the file of the process id behind; \<open>Running\<close> has what the threads work with. Every
  path after \<open>writeTmpPID\<close> (and its failure) writes to the log, which is undefined when
  \<open>logFile\<close> is null.
\<close>

datatype ('q, 'd, 'h) main_result =
  Exit | Running cstr ids "('q, 'd, 'h) agent_start" mfp_state pub

definition main ::
  "os \<Rightarrow> (cstr \<Rightarrow> string option) \<Rightarrow> net \<Rightarrow> ('q, 'h) ecq \<Rightarrow> ('q, 'd) loader \<Rightarrow> (cstr \<Rightarrow> cstr list option) \<Rightarrow>
   cstr \<Rightarrow> getopt_result list \<Rightarrow> ('q, 'd, 'h) main_result option" where
  "main os fs net Q dl dirs argv0 args = do {
     pwd \<leftarrow> set_pwd os;
     (logFileName, logFile) \<leftarrow> createLogFile os pwd;
     (name, pid) \<leftarrow> writeTmpPID os pwd;
     if \<not> logFile then None
     else if pid = None then Some Exit
     else do {
       opts \<leftarrow> foldM parse_option args \<lparr>opt_ids = ids_start, err_flag = False, help_flag = False\<rparr>;
       if err_flag opts \<or> help_flag opts then do { _ \<leftarrow> c_store 256 (usage argv0); Some Exit }
       else do {
         confFile \<leftarrow> c_store 256 (pwd @ ''/../mf_config.ini'');
         (case mfp_parse fs confFile mfp_start of (rc, cfg) \<Rightarrow>
            if rc = 0 then Some Exit
            else do {
              (ok, metrics_URL, x, p) \<leftarrow> prepare net cfg (opt_ids opts) \<lparr>headers = [], sent = []\<rparr>;
              if ok = 0 then Some Exit
              else do {
                a \<leftarrow> startThreads Q dl dirs cfg pwd;
                Some (Running metrics_URL x a cfg p)
              }
            })
       }
     }
   }"


subsection \<open>What the server is asked and what comes back\<close>

definition config_value :: "mfp_state \<Rightarrow> cstr \<Rightarrow> cstr \<Rightarrow> cstr" where
  "config_value cfg s k = (case mfp_lookup cfg s k of None \<Rightarrow> [] | Some v \<Rightarrow> v)"

lemma mfp_get_value_config:
  "ht_initialized cfg \<Longrightarrow> mp_alive cfg \<Longrightarrow> length (config_value cfg s k) < cap \<Longrightarrow>
   mfp_get_value cfg s k cap [] = Some (config_value cfg s k)"
  by (auto simp: mfp_get_value_lookup config_value_def split: option.splits)

text \<open>The identifiers and the request \<open>prepare\<close> should use, from the configuration.\<close>

definition agent_ids :: "mfp_state \<Rightarrow> ids \<Rightarrow> ids" where
  "agent_ids cfg x = with_defaults (x\<lparr>platform_id := config_value cfg ''generic'' ''platform_id''\<rparr>)"

definition experiment_request :: "mfp_state \<Rightarrow> ids \<Rightarrow> pub \<Rightarrow> request" where
  "experiment_request cfg x p =
     \<lparr>meth = POST,
      url = config_value cfg ''generic'' ''server'' @ ''/phantom_mf/experiments/'' @ application_id (agent_ids cfg x),
      body = experiment_msg (agent_ids cfg x), hdrs = headers (init_curl p)\<rparr>"

definition prepare_fits :: "mfp_state \<Rightarrow> ids \<Rightarrow> bool" where
  "prepare_fits cfg x \<longleftrightarrow>
     ht_initialized cfg \<and> mp_alive cfg \<and>
     length (config_value cfg ''generic'' ''server'') < 128 \<and>
     length (config_value cfg ''generic'' ''platform_id'') < 128 \<and>
     length (config_value cfg ''generic'' ''server'') + length (application_id (agent_ids cfg x)) + 24 < 256 \<and>
     length (experiment_msg (agent_ids cfg x)) < 256"

lemma experiment_msg_nonempty [simp]: "experiment_msg x \<noteq> []"
  by (simp add: experiment_msg_def)

lemma prepare_reading:
  assumes "prepare_fits cfg x" "curl_ok net"
  shows "prepare net cfg x p = do {
     (whole, b) \<leftarrow> deliver (realloc_at net) (snd (reply net (length (sent p)) (experiment_request cfg x p)))
        (Live (experiment_id x));
     case b of Dangling \<Rightarrow> None
     | Live e \<Rightarrow> Some (if e = [] then 0 else 1, config_value cfg ''generic'' ''server'' @ ''/phantom_mf/metrics'',
         (agent_ids cfg x)\<lparr>experiment_id := e\<rparr>,
         (init_curl p)\<lparr>sent := sent p @ [experiment_request cfg x p]\<rparr>) }"
proof -
  have e: "experiment_id (with_defaults y) = experiment_id y" for y by (simp add: with_defaults_def)
  show ?thesis
    using assms(1) unfolding prepare_fits_def
    by (simp add: prepare_def mfp_get_value_config create_new_experiment_reading [OF _ _ assms(2)]
        experiment_request_def agent_ids_def [symmetric] Let_def split_def e [of "x\<lparr>platform_id := z\<rparr>" for z, folded agent_ids_def]
        cong: block.case_cong)
qed

lemma deliver_chunks_in_place:
  assumes "\<forall>c \<in> set chunks. ra (length c + 1) = InPlace"
  shows "deliver ra chunks (Live b) = Some (True, Live (if chunks = [] then b else c_string (last chunks)))"
  using assms by (induction chunks arbitrary: b) auto

text \<open>
  C17. \<open>prepare\<close>, as \<open>main\<close> calls it with an empty experiment id, sends exactly one request: a
  POST to \<open><server>/phantom_mf/experiments/<application>\<close> with the application, the task and the
  host in JSON. When the application or the task is missing, the application is
  \<open>infrastructure\<close> and the task is the platform. It succeeds if and only if the response has a
  last chunk that is not empty, which becomes the experiment id. (The texts fit their buffers,
  and \<open>realloc\<close> grows the block of the id in place for every chunk; otherwise
  \<open>prepare_use_after_free\<close>.)
\<close>

theorem prepare_correct:
  assumes "ht_initialized cfg" "mp_alive cfg" "curl_ok net" "experiment_id x = []"
    "server = config_value cfg ''generic'' ''server''" "platform = config_value cfg ''generic'' ''platform_id''"
    "(app, task) = (if application_id x = [] \<or> task_id x = [] then (''infrastructure'', platform)
       else (application_id x, task_id x))"
    "length server < 128" "length platform < 128" "length server + length app < 232"
    "length app + length task + length platform < 213"
    "r = \<lparr>meth = POST, url = server @ ''/phantom_mf/experiments/'' @ app,
       body = ''{'' @ [DQ] @ ''application'' @ [DQ] @ '':'' @ [DQ] @ app @ [DQ] @ '', '' @ [DQ] @ ''task'' @ [DQ] @ '': '' @ [DQ] @ task @ [DQ] @
         '', '' @ [DQ] @ ''host'' @ [DQ] @ '': '' @ [DQ] @ platform @ [DQ] @ ''}'',
       hdrs = (if headers p = [] then [''Accept: application/json'', ''Content-Type: application/json'', ''charsets: utf-8'']
         else headers p)\<rparr>"
    "reply net (length (sent p)) r = (ok, chunks)" "\<forall>c \<in> set chunks. realloc_at net (length c + 1) = InPlace"
  shows "prepare net cfg x p = Some (if chunks \<noteq> [] \<and> c_string (last chunks) \<noteq> [] then 1 else 0,
      server @ ''/phantom_mf/metrics'',
      \<lparr>application_id = app, experiment_id = (if chunks = [] then [] else c_string (last chunks)), task_id = task,
        platform_id = platform\<rparr>,
      \<lparr>headers = hdrs r, sent = sent p @ [r]\<rparr>)"
proof -
  have x: "agent_ids cfg x = \<lparr>application_id = app, experiment_id = [], task_id = task, platform_id = platform\<rparr>"
    using assms(4,6,7) by (cases x) (auto simp: agent_ids_def with_defaults_def split: if_split_asm)
  have r: "experiment_request cfg x p = r"
    unfolding experiment_request_def x assms(5,12) by (simp add: experiment_msg_def quoted_def init_curl_def)
  have f: "prepare_fits cfg x"
    using assms(1,2,5,6,8-11) unfolding prepare_fits_def x by (simp add: experiment_msg_def quoted_def)
  have h: "(init_curl p)\<lparr>sent := s\<rparr> = \<lparr>headers = hdrs r, sent = s\<rparr>" for s
    unfolding assms(12) by (cases p) (simp add: init_curl_def)
  show ?thesis
    unfolding prepare_reading [OF f assms(3)] r x h
    by (simp add: assms(4,5,13) deliver_chunks_in_place [OF assms(14)])
qed

definition sample_generic :: mfp_state where
  "sample_generic = \<lparr>ht_initialized = True, mp_alive = True, ht_config = [''generic'' \<mapsto>
     [''server'' \<mapsto> ''localhost:3033/v1'', ''platform_id'' \<mapsto> ''node01'']]\<rparr>"

lemma sample_generic_value:
  "config_value sample_generic ''generic'' ''server'' = ''localhost:3033/v1''"
  "config_value sample_generic ''generic'' ''platform_id'' = ''node01''"
  by (simp_all add: config_value_def mfp_lookup_def sample_generic_def)

lemma sample_prepare_fits: "prepare_fits sample_generic ids_start"
  by (simp add: prepare_fits_def sample_generic_value agent_ids_def with_defaults_def ids_start_def
      experiment_msg_def quoted_def, simp add: sample_generic_def)

theorem prepare_correct_witness:
  "prepare \<lparr>curl_ok = True, reply = (\<lambda>_ _. (True, [''AVx'', ''Qy7''])), realloc_at = (\<lambda>n. if n \<le> 128 then InPlace else Moved)\<rparr>
     sample_generic ids_start \<lparr>headers = [], sent = []\<rparr> =
   (let h = [''Accept: application/json'', ''Content-Type: application/json'', ''charsets: utf-8''];
        b = ''{'' @ [DQ] @ ''application'' @ [DQ] @ '':'' @ [DQ] @ ''infrastructure'' @ [DQ] @ '', '' @ [DQ] @ ''task'' @ [DQ] @ '': '' @ [DQ] @
          ''node01'' @ [DQ] @ '', '' @ [DQ] @ ''host'' @ [DQ] @ '': '' @ [DQ] @ ''node01'' @ [DQ] @ ''}'' in
    Some (1, ''localhost:3033/v1/phantom_mf/metrics'',
      \<lparr>application_id = ''infrastructure'', experiment_id = ''Qy7'', task_id = ''node01'', platform_id = ''node01''\<rparr>,
      \<lparr>headers = h, sent = [\<lparr>meth = POST, url = ''localhost:3033/v1/phantom_mf/experiments/infrastructure'', body = b, hdrs = h\<rparr>]\<rparr>))"
  using prepare_correct [OF _ _ _ _ sample_generic_value(1) [symmetric] sample_generic_value(2) [symmetric] _ _ _ _ _ refl,
      of "\<lparr>curl_ok = True, reply = (\<lambda>_ _. (True, [''AVx'', ''Qy7''])), realloc_at = (\<lambda>n. if n \<le> 128 then InPlace else Moved)\<rparr>"
        ids_start "''infrastructure''" "''node01''" "\<lparr>headers = [], sent = []\<rparr>" True "[''AVx'', ''Qy7'']"]
  by (simp add: sample_generic_def ids_start_def c_string_def Let_def)

text \<open>
  The block behind \<open>experiment_id\<close> has 128 characters. When the response makes
  \<open>realloc\<close> move it, the write callback only updates its own copy of the pointer, and
  \<open>prepare\<close> then reads the released block.
\<close>

theorem prepare_use_after_free:
  assumes "prepare_fits cfg x" "curl_ok net"
    and "reply net (length (sent p)) (experiment_request cfg x p) = (ok, [chunk])"
    and "realloc_at net (length chunk + 1) = Moved"
  shows "prepare net cfg x p = None"
  using assms(4) by (simp add: prepare_reading [OF assms(1,2)] assms(3))

theorem prepare_use_after_free_witness:
  "prepare \<lparr>curl_ok = True, reply = (\<lambda>_ _. (True, [replicate 300 CHR ''x''])),
       realloc_at = (\<lambda>n. if n \<le> 128 then InPlace else Moved)\<rparr>
     sample_generic ids_start \<lparr>headers = [], sent = []\<rparr> = None"
  by (rule prepare_use_after_free [OF sample_prepare_fits, where chunk = "replicate 300 CHR ''x''" and ok = True])
    (simp_all del: replicate.simps replicate_Suc)

lemma with_defaults_application [simp]: "application_id (with_defaults x) \<noteq> []"
  by (simp add: with_defaults_def)

lemma prepare_ok:
  assumes "prepare net cfg x p = Some (ok, u, x', p')" "ok \<noteq> 0"
  shows "experiment_id x' \<noteq> [] \<and> application_id x' \<noteq> []"
  using assms unfolding prepare_def
  by (clarsimp simp: Let_def Option.bind_eq_Some_conv) (auto split: block.split_asm if_split_asm)

lemma mfp_parse_code: "mfp_parse fs f st = (rc, cfg) \<Longrightarrow> rc \<noteq> 0 \<Longrightarrow> rc = 1"
  by (auto simp: mfp_parse_def Let_def split_def split: if_splits)

text \<open>
  The threads only start with an experiment: if \<open>main\<close> reaches them, the configuration
  file beside the executable's directory was read, the server gave a non-empty experiment id,
  the application id is not empty, and the threads were prepared from that configuration.
\<close>

theorem main_running:
  assumes "main os fs net Q dl dirs argv0 args = Some (Running u x a cfg p)"
  shows "experiment_id x \<noteq> [] \<and> application_id x \<noteq> [] \<and>
    (\<exists>pwd. set_pwd os = Some pwd \<and> mfp_parse fs (pwd @ ''/../mf_config.ini'') mfp_start = (1, cfg) \<and>
       startThreads Q dl dirs cfg pwd = Some a)"
  using assms unfolding main_def
  by (auto simp: Option.bind_eq_Some_conv c_safe split: if_splits prod.splits dest: prepare_ok mfp_parse_code)

definition sample_os :: os where
  "sample_os = \<lparr>proc_self_exe = ''/d/a'', time_stamp = ''t'', process_id = 42, can_open = (\<lambda>_. True)\<rparr>"

definition sample_main :: "(nat plugin_hook_type list, nat, nat) main_result option" where
  "sample_main = main sample_os
     (\<lambda>f. if f = ''/d/../mf_config.ini'' then Some (''[generic]'' @ [NL] @ ''server=s'' @ [NL]) else None)
     \<lparr>curl_ok = True, reply = (\<lambda>_ _. (True, [''Q''])), realloc_at = (\<lambda>_. InPlace)\<rparr>
     list_ecq sample_loader (\<lambda>_. None) ''a'' [Opt_a ''app'']"

definition started_id :: "('q, 'd, 'h) main_result option \<Rightarrow> cstr option" where
  "started_id r = (case r of Some (Running u x a cfg p) \<Rightarrow> Some (experiment_id x) | _ \<Rightarrow> None)"

lemma sample_started: "started_id sample_main = Some ''Q''"
  by code_simp

theorem main_running_witness:
  "\<exists>u x a cfg p. sample_main = Some (Running u x a cfg p) \<and> experiment_id x = ''Q'' \<and>
    mfp_parse (\<lambda>f. if f = ''/d/../mf_config.ini'' then Some (''[generic]'' @ [NL] @ ''server=s'' @ [NL]) else None)
      ''/d/../mf_config.ini'' mfp_start = (1, cfg)"
proof -
  obtain u x a cfg p where r: "sample_main = Some (Running u x a cfg p)" and e: "experiment_id x = ''Q''"
    using sample_started by (auto simp: started_id_def split: option.splits main_result.splits)
  have "set_pwd sample_os = Some ''/d''" by code_simp
  with main_running [OF r [unfolded sample_main_def]] r e show ?thesis by auto
qed

end
