(* ===== verification/Agent_Shutdown.thy ===== *)
theory Agent_Shutdown
  imports Agent_Main
begin

text \<open>
  The threads of the running agent and their end (\<^verbatim>\<open>agent/thread_handler.c\<close> and the end of
  \<open>main\<close>): one thread per plugin, the thread that watches the configuration, and the main
  thread, which waits for a signal, joins the plugin threads, unloads the plugins and destroys
  the configuration. They interleave arbitrarily, so the agent is a step relation; a step of a
  thread is a call, or a test of the flag \<open>running\<close>, that the other threads cannot observe
  half done.

  A call of \<open>hooks[t]()\<close> is possible exactly when thread \<open>t\<close> is \<open>Sampling\<close>. A lookup in
  the configuration is the model of theory \<open>Mf_Parser\<close>, in which a lookup after the pool has
  been destroyed is undefined: the state \<open>Crashed\<close>.
\<close>

datatype main_pc = Waiting | Joining nat | Unloading | Closing | Exiting

datatype plugin_pc = Testing | Sampling | Returned

datatype conf_pc = Test_Running | Parse | Read_Wait | Sleeping | Init_Timings | Conf_Returned

record agent =
  running :: bool
  main_at :: main_pc
  plugins_at :: "plugin_pc list"
  conf_at :: conf_pc
  unloaded :: bool
  agent_cfg :: mfp_state

datatype outcome = Ok agent | Crashed

text \<open>
  What the configuration thread reads: its file system and file name, the names of the
  plugins, which discovery fixed before the threads started.
\<close>

record conf_env =
  env_fs :: "cstr \<Rightarrow> string option"
  env_file :: cstr
  env_names :: "nat \<Rightarrow> cstr option"

definition conf_step :: "conf_env \<Rightarrow> agent \<Rightarrow> agent option" where
  "conf_step E s =
     (case conf_at s of
        Test_Running \<Rightarrow> Some (s\<lparr>conf_at := if running s then Parse else Conf_Returned\<rparr>)
      | Parse \<Rightarrow> Some (s\<lparr>agent_cfg := snd (mfp_parse (env_fs E) (env_file E) (agent_cfg s)), conf_at := Read_Wait\<rparr>)
      | Read_Wait \<Rightarrow> do {
          _ \<leftarrow> mfp_get_value (agent_cfg s) ''timings'' ''update_configuration'' 20 [];
          Some (s\<lparr>conf_at := Sleeping\<rparr>)
        }
      | Sleeping \<Rightarrow> Some (s\<lparr>conf_at := Init_Timings\<rparr>)
      | Init_Timings \<Rightarrow> do {
          _ \<leftarrow> init_timings (agent_cfg s) (env_names E) (length (plugins_at s)) timings_start;
          Some (s\<lparr>conf_at := Test_Running\<rparr>)
        }
      | Conf_Returned \<Rightarrow> Some s)"

definition plugin_step :: "nat \<Rightarrow> agent \<Rightarrow> agent" where
  "plugin_step t s =
     (case plugins_at s ! t of
        Testing \<Rightarrow> s\<lparr>plugins_at := (plugins_at s)[t := if running s then Sampling else Returned]\<rparr>
      | Sampling \<Rightarrow> s\<lparr>plugins_at := (plugins_at s)[t := Testing]\<rparr>
      | Returned \<Rightarrow> s)"

text \<open>A step of the main thread; \<open>None\<close> while it waits for the signal or for a thread.\<close>

definition main_step :: "agent \<Rightarrow> agent option" where
  "main_step s =
     (case main_at s of
        Waiting \<Rightarrow> if running s then None else Some (s\<lparr>main_at := Joining 0\<rparr>)
      | Joining t \<Rightarrow>
          if t < length (plugins_at s)
          then if plugins_at s ! t = Returned then Some (s\<lparr>main_at := Joining (t + 1)\<rparr>) else None
          else Some (s\<lparr>main_at := Unloading\<rparr>)
      | Unloading \<Rightarrow> Some (s\<lparr>unloaded := True, main_at := Closing\<rparr>)
      | Closing \<Rightarrow> Some (s\<lparr>agent_cfg := mfp_parse_clean (agent_cfg s), main_at := Exiting\<rparr>)
      | Exiting \<Rightarrow> None)"

text \<open>\<open>catcher\<close>, and the four kinds of steps.\<close>

definition catcher :: "agent \<Rightarrow> agent" where
  "catcher s = s\<lparr>running := False\<rparr>"

inductive agent_step :: "conf_env \<Rightarrow> agent \<Rightarrow> outcome \<Rightarrow> bool" for E where
  signal: "agent_step E s (Ok (catcher s))"
| plugin: "t < length (plugins_at s) \<Longrightarrow> agent_step E s (Ok (plugin_step t s))"
| main_thread: "main_step s = Some s' \<Longrightarrow> agent_step E s (Ok s')"
| conf: "conf_step E s = Some s' \<Longrightarrow> agent_step E s (Ok s')"
| crash: "conf_step E s = None \<Longrightarrow> agent_step E s Crashed"

inductive_cases agent_stepE: "agent_step E s (Ok s')"

definition agent_start_state :: "mfp_state \<Rightarrow> nat \<Rightarrow> agent" where
  "agent_start_state cfg n = \<lparr>running = True, main_at = Waiting, plugins_at = replicate n Testing,
     conf_at = Test_Running, unloaded = False, agent_cfg = cfg\<rparr>"

inductive reachable :: "conf_env \<Rightarrow> agent \<Rightarrow> agent \<Rightarrow> bool" for E s0 where
  start: "reachable E s0 s0"
| step: "reachable E s0 s \<Longrightarrow> agent_step E s (Ok s') \<Longrightarrow> reachable E s0 s'"

subsection \<open>Joining protects the plugins\<close>

text \<open>The threads the main thread has joined.\<close>

definition joined :: "agent \<Rightarrow> nat" where
  "joined s = (case main_at s of Waiting \<Rightarrow> 0 | Joining t \<Rightarrow> t | _ \<Rightarrow> length (plugins_at s))"

definition shutdown_inv :: "agent \<Rightarrow> bool" where
  "shutdown_inv s \<longleftrightarrow>
     joined s \<le> length (plugins_at s) \<and>
     (\<forall>t < joined s. plugins_at s ! t = Returned) \<and>
     (main_at s \<noteq> Waiting \<longrightarrow> \<not> running s) \<and>
     (unloaded s \<longleftrightarrow> main_at s = Closing \<or> main_at s = Exiting)"

lemma joined_simps [simp]:
  "main_at s = Waiting \<Longrightarrow> joined s = 0"
  "main_at s = Joining t \<Longrightarrow> joined s = t"
  "main_at s \<in> {Unloading, Closing, Exiting} \<Longrightarrow> joined s = length (plugins_at s)"
  by (auto simp: joined_def)

lemma shutdown_inv_start: "shutdown_inv (agent_start_state cfg n)"
  by (simp add: shutdown_inv_def agent_start_state_def joined_def)

lemma shutdown_inv_frame:
  "main_at s' = main_at s \<Longrightarrow> plugins_at s' = plugins_at s \<Longrightarrow> unloaded s' = unloaded s \<Longrightarrow>
   (running s' \<Longrightarrow> running s) \<Longrightarrow> shutdown_inv s \<Longrightarrow> shutdown_inv s'"
  by (auto simp: shutdown_inv_def joined_def split: main_pc.splits)

lemma shutdown_inv_catcher: "shutdown_inv s \<Longrightarrow> shutdown_inv (catcher s)"
  by (erule shutdown_inv_frame [rotated 4]) (simp_all add: catcher_def)

lemma shutdown_inv_plugin: "t < length (plugins_at s) \<Longrightarrow> shutdown_inv s \<Longrightarrow> shutdown_inv (plugin_step t s)"
  by (auto simp: shutdown_inv_def plugin_step_def joined_def nth_list_update
      split: plugin_pc.splits main_pc.splits)

lemma shutdown_inv_main: "main_step s = Some s' \<Longrightarrow> shutdown_inv s \<Longrightarrow> shutdown_inv s'"
  by (auto simp: shutdown_inv_def main_step_def joined_def less_Suc_eq
      split: main_pc.splits if_splits)

lemma conf_step_keeps:
  "conf_step E s = Some s' \<Longrightarrow> running s' = running s \<and> main_at s' = main_at s \<and>
     plugins_at s' = plugins_at s \<and> unloaded s' = unloaded s"
  by (auto simp: conf_step_def Option.bind_eq_Some_conv split: conf_pc.splits)

lemma shutdown_inv_conf: "conf_step E s = Some s' \<Longrightarrow> shutdown_inv s \<Longrightarrow> shutdown_inv s'"
  by (erule shutdown_inv_frame [rotated 4]) (simp_all add: conf_step_keeps)

lemma shutdown_inv_step: "agent_step E s (Ok s') \<Longrightarrow> shutdown_inv s \<Longrightarrow> shutdown_inv s'"
  by (elim agent_stepE)
    (auto intro: shutdown_inv_catcher shutdown_inv_plugin shutdown_inv_main shutdown_inv_conf)

lemma shutdown_inv_reachable: "reachable E s0 s \<Longrightarrow> shutdown_inv s0 \<Longrightarrow> shutdown_inv s"
  by (induction rule: reachable.induct) (auto intro: shutdown_inv_step)

text \<open>
  C9. No plugin is called after it has been unloaded: in every reachable state in which the
  main thread has closed the plugin libraries, no plugin thread is inside its hook or about to
  call it.
\<close>

theorem no_hook_after_unload:
  assumes "reachable E (agent_start_state cfg n) s" "unloaded s" "t < length (plugins_at s)"
  shows "plugins_at s ! t = Returned"
proof -
  have "shutdown_inv s" using shutdown_inv_reachable [OF assms(1)] shutdown_inv_start by blast
  then show ?thesis using assms(2,3) by (auto simp: shutdown_inv_def joined_def)
qed



subsection \<open>Shutting down\<close>

lemma reachable_trans: "reachable E a b \<Longrightarrow> reachable E b c \<Longrightarrow> reachable E a c"
  by (rotate_tac, induction rule: reachable.induct) (auto intro: reachable.step)

lemma reachable_one: "agent_step E s (Ok s') \<Longrightarrow> reachable E s s'"
  using reachable.start reachable.step by blast

lemma return_one:
  assumes "\<not> running s" "t < length (plugins_at s)"
  shows "reachable E s (s\<lparr>plugins_at := (plugins_at s)[t := Returned]\<rparr>)"
proof (cases "plugins_at s ! t")
  case Testing
  then have "plugin_step t s = s\<lparr>plugins_at := (plugins_at s)[t := Returned]\<rparr>"
    using assms by (simp add: plugin_step_def)
  then show ?thesis using agent_step.plugin [OF assms(2), of E] reachable_one by metis
next
  case Sampling
  then have "plugin_step t (plugin_step t s) = s\<lparr>plugins_at := (plugins_at s)[t := Returned]\<rparr>"
    and "t < length (plugins_at (plugin_step t s))"
    using assms by (simp_all add: plugin_step_def)
  then show ?thesis
    using agent_step.plugin [OF assms(2), of E] agent_step.plugin reachable.start reachable.step by metis
next
  case Returned
  then have "s\<lparr>plugins_at := (plugins_at s)[t := Returned]\<rparr> = s"
    by (metis agent.surjective agent.update_convs(3) list_update_id)
  then show ?thesis by (simp add: reachable.start)
qed

lemma return_all:
  assumes "\<not> running s" "k \<le> length (plugins_at s)"
  shows "reachable E s (s\<lparr>plugins_at := replicate k Returned @ drop k (plugins_at s)\<rparr>)"
  using assms(2)
proof (induction k)
  case 0
  then show ?case by (simp add: reachable.start)
next
  case (Suc k)
  let ?s = "s\<lparr>plugins_at := replicate k Returned @ drop k (plugins_at s)\<rparr>"
  have "(replicate k Returned @ drop k (plugins_at s))[k := Returned] =
      replicate (Suc k) Returned @ drop (Suc k) (plugins_at s)"
    using Suc.prems
    by (simp add: list_update_append Cons_nth_drop_Suc [symmetric] replicate_append_same [symmetric]
        del: replicate_append_same)
  then show ?case
    using reachable_trans [OF Suc.IH return_one [of ?s k E]] Suc.prems assms(1) by simp
qed

lemma join_all:
  assumes "\<forall>t < length (plugins_at s). plugins_at s ! t = Returned" "k + j \<le> length (plugins_at s)"
  shows "reachable E (s\<lparr>main_at := Joining j\<rparr>) (s\<lparr>main_at := Joining (j + k)\<rparr>)"
  using assms(2)
proof (induction k)
  case (Suc k)
  have "main_step (s\<lparr>main_at := Joining (j + k)\<rparr>) = Some (s\<lparr>main_at := Joining (j + Suc k)\<rparr>)"
    using Suc.prems assms(1) by (simp add: main_step_def)
  then show ?case using Suc.IH Suc.prems by (auto intro: reachable.step agent_step.main_thread)
qed (simp add: reachable.start)

definition closing_state :: "agent \<Rightarrow> agent" where
  "closing_state s = s\<lparr>unloaded := True, main_at := Exiting, agent_cfg := mfp_parse_clean (agent_cfg s),
     plugins_at := replicate (length (plugins_at s)) Returned\<rparr>"


lemma finish_main:
  assumes "\<not> running s" "\<forall>t < length (plugins_at s). plugins_at s ! t = Returned" "shutdown_inv s"
  shows "\<exists>s'. reachable E s s' \<and> main_at s' = Exiting \<and> plugins_at s' = plugins_at s \<and> conf_at s' = conf_at s \<and>
    (main_at s \<noteq> Exiting \<longrightarrow> agent_cfg s' = mfp_parse_clean (agent_cfg s))"
proof -
  let ?ex = "\<lambda>s. s\<lparr>agent_cfg := mfp_parse_clean (agent_cfg s), unloaded := True, main_at := Exiting\<rparr>"
  have closing: "reachable E s1 (?ex s1)" if "main_at s1 = Closing" "unloaded s1" for s1
    using that reachable_one [OF agent_step.main_thread, of s1 "?ex s1" E] by (simp add: main_step_def)
  have unloading: "reachable E s1 (?ex s1)" if "main_at s1 = Unloading" for s1
    using that reachable_one [OF agent_step.main_thread, of s1 "s1\<lparr>unloaded := True, main_at := Closing\<rparr>" E]
      closing [of "s1\<lparr>unloaded := True, main_at := Closing\<rparr>"]
    by (auto simp: main_step_def intro: reachable_trans)
  have joining: "reachable E s1 (?ex s1)"
    if "main_at s1 = Joining j" "j \<le> length (plugins_at s1)" "plugins_at s1 = plugins_at s" for s1 j
  proof -
    let ?n = "length (plugins_at s)"
    have s1: "s1 = s1\<lparr>main_at := Joining j\<rparr>" using that(1) by (metis agent.surjective agent.update_convs(2))
    have "reachable E s1 (s1\<lparr>main_at := Joining ?n\<rparr>)"
      using join_all [of s1 "?n - j" j E] that assms(2) s1 by simp
    moreover have "reachable E (s1\<lparr>main_at := Joining ?n\<rparr>) (s1\<lparr>main_at := Unloading\<rparr>)"
      using that by (intro reachable_one agent_step.main_thread) (simp add: main_step_def)
    ultimately show ?thesis using unloading [of "s1\<lparr>main_at := Unloading\<rparr>"] by (auto intro: reachable_trans)
  qed
  have waiting: "reachable E s (?ex s)" if "main_at s = Waiting"
  proof -
    have "reachable E s (s\<lparr>main_at := Joining 0\<rparr>)"
      using that assms(1) by (intro reachable_one agent_step.main_thread) (simp add: main_step_def)
    then show ?thesis using joining [of "s\<lparr>main_at := Joining 0\<rparr>" 0] by (auto intro: reachable_trans)
  qed
  have "reachable E s (?ex s) \<or> main_at s = Exiting"
  proof (cases "main_at s")
    case (Joining j)
    then show ?thesis using joining [of s j] assms(3) by (auto simp: shutdown_inv_def)
  qed (use waiting unloading [of s] closing [of s] assms(3) in \<open>auto simp: shutdown_inv_def\<close>)
  then show ?thesis
  proof
    assume "reachable E s (?ex s)"
    then show ?thesis by (intro exI [of _ "?ex s"]) simp
  next
    assume "main_at s = Exiting"
    then show ?thesis by (intro exI [of _ s]) (simp add: reachable.start)
  qed
qed

lemma stop_from:
  assumes "\<not> running s" "shutdown_inv s"
  shows "\<exists>s'. reachable E s s' \<and> main_at s' = Exiting \<and> conf_at s' = conf_at s \<and>
    plugins_at s' = replicate (length (plugins_at s)) Returned \<and>
    (main_at s \<noteq> Exiting \<longrightarrow> agent_cfg s' = mfp_parse_clean (agent_cfg s))"
proof -
  let ?n = "length (plugins_at s)"
  let ?s = "s\<lparr>plugins_at := replicate ?n Returned\<rparr>"
  have r: "reachable E s ?s" using return_all [OF assms(1), of ?n E] by simp
  then have "shutdown_inv ?s" using shutdown_inv_reachable assms(2) by blast
  then obtain s' where s': "reachable E ?s s'" "main_at s' = Exiting" "plugins_at s' = replicate ?n Returned"
      "conf_at s' = conf_at s" "main_at s \<noteq> Exiting \<longrightarrow> agent_cfg s' = mfp_parse_clean (agent_cfg s)"
    using finish_main [of ?s E] assms(1) by auto
  then show ?thesis using reachable_trans [OF r s'(1)] by (intro exI [of _ s']) simp
qed

text \<open>
  C24. The shutdown never blocks: after a signal, in whatever reachable state it arrives, there
  is a run to the end of \<open>main\<close> in which every plugin thread returns and the main thread does
  not need the configuration thread, which may sleep for minutes.
\<close>

theorem shutdown_not_stuck:
  assumes "reachable E (agent_start_state cfg n) s"
  shows "\<exists>s'. reachable E (catcher s) s' \<and> main_at s' = Exiting \<and> conf_at s' = conf_at s \<and>
    plugins_at s' = replicate (length (plugins_at s)) Returned"
proof -
  have "shutdown_inv (catcher s)"
    using shutdown_inv_reachable [OF assms shutdown_inv_start] by (rule shutdown_inv_catcher)
  with stop_from [of "catcher s" E] show ?thesis by (auto simp: catcher_def)
qed

theorem shutdown_not_stuck_witness:
  "\<exists>s'. reachable \<lparr>env_fs = (\<lambda>_. None), env_file = [], env_names = (\<lambda>_. None)\<rparr>
      (catcher (agent_start_state mfp_start 2)) s' \<and> main_at s' = Exiting \<and> plugins_at s' = [Returned, Returned]"
proof -
  let ?E = "\<lparr>env_fs = (\<lambda>_. None), env_file = [], env_names = (\<lambda>_. None)\<rparr>"
  have p: "plugins_at (agent_start_state mfp_start 2) = [Testing, Testing]"
    by (simp add: agent_start_state_def numeral_2_eq_2)
  have r: "replicate 2 Returned = [Returned, Returned]" by (simp add: numeral_2_eq_2)
  show ?thesis
    using shutdown_not_stuck [OF reachable.start [of ?E "agent_start_state mfp_start 2"]]
    by (auto simp: p r)
qed

theorem no_hook_after_unload_witness:
  "\<exists>s. reachable \<lparr>env_fs = (\<lambda>_. None), env_file = [], env_names = (\<lambda>_. None)\<rparr>
      (agent_start_state mfp_start 2) s \<and> unloaded s \<and> plugins_at s ! 1 = Returned"
proof -
  let ?E = "\<lparr>env_fs = (\<lambda>_. None), env_file = [], env_names = (\<lambda>_. None)\<rparr>"
  let ?s = "agent_start_state mfp_start 2"
  have "shutdown_inv (catcher ?s)" by (simp add: shutdown_inv_catcher shutdown_inv_start)
  from stop_from [OF _ this, of ?E] obtain s where
    s: "reachable ?E (catcher ?s) s" "main_at s = Exiting" "plugins_at s = replicate 2 Returned"
    by (auto simp: catcher_def agent_start_state_def)
  have r: "reachable ?E ?s s"
    using reachable_trans [OF reachable_one [OF agent_step.signal] s(1)] .
  then have "unloaded s" using shutdown_inv_reachable [OF r shutdown_inv_start] s(2)
    by (simp add: shutdown_inv_def)
  then show ?thesis using no_hook_after_unload [OF r, of 1] s r by auto
qed

text \<open>
  C27. The main thread does not join the configuration thread before it destroys the
  configuration: whatever the configuration and the number of plugins, the agent can reach a
  state at the end of \<open>main\<close> in which the next step of the configuration thread looks up the
  destroyed configuration.
\<close>

theorem config_thread_race:
  "\<exists>s. reachable E (agent_start_state cfg n) s \<and> main_at s = Exiting \<and> agent_step E s Crashed"
proof -
  let ?s0 = "agent_start_state cfg n"
  let ?s1 = "?s0\<lparr>conf_at := Parse\<rparr>"
  let ?s2 = "?s1\<lparr>agent_cfg := snd (mfp_parse (env_fs E) (env_file E) cfg), conf_at := Read_Wait\<rparr>"
  have "agent_step E ?s0 (Ok ?s1)" "agent_step E ?s1 (Ok ?s2)"
    by (rule agent_step.conf, simp add: conf_step_def agent_start_state_def)+
  then have r: "reachable E ?s0 ?s2" by (blast intro: reachable.intros)
  then have r': "reachable E ?s0 (catcher ?s2)" using agent_step.signal reachable.step by blast
  then have "shutdown_inv (catcher ?s2)" using shutdown_inv_reachable shutdown_inv_start by blast
  then obtain s where s: "reachable E (catcher ?s2) s" "main_at s = Exiting" "conf_at s = Read_Wait"
      "agent_cfg s = mfp_parse_clean (snd (mfp_parse (env_fs E) (env_file E) cfg))"
    using stop_from [of "catcher ?s2" E] by (auto simp: catcher_def agent_start_state_def)
  have "conf_step E s = None"
    using s(3,4) mfp_parse_initialized [of "env_fs E" "env_file E" cfg]
    by (simp add: conf_step_def mfp_get_value_def mfp_parse_clean_def)
  then show ?thesis using s r' reachable_trans agent_step.crash by blast
qed

end
