(* ===== verification/Plugin_Metrics.thy ===== *)
theory Plugin_Metrics
  imports C_Strings
begin

text \<open>
  What the plugin connectors share: the structure \<open>Plugin_metrics\<close> of
  \<^verbatim>\<open>plugins/utils/plugin_utils.h\<close>, the view of the \<^verbatim>\<open>/proc\<close> file system and the clock at one
  moment, and the two \<open>sprintf\<close>/\<open>strcat\<close> steps every connector builds its JSON text from.

  The array \<open>values\<close> is allocated with \<open>malloc\<close>: an entry is \<open>None\<close> until it is
  written. \<open>events\<close> holds the entries that have been allocated.
\<close>

definition MAX_EVENTS_NUMBER :: nat where "MAX_EVENTS_NUMBER = 32"
definition MAX_EVENTS_LEN :: nat where "MAX_EVENTS_LEN = 32"
definition JSON_MAX_LEN :: nat where "JSON_MAX_LEN = 1024"

record Plugin_metrics =
  events :: "cstr list"
  "values" :: "cfp option list"
  num_events :: nat

definition metrics_start :: Plugin_metrics where
  "metrics_start = \<lparr>events = [], values = replicate MAX_EVENTS_NUMBER None, num_events = 0\<rparr>"

text \<open>
  \<open>malloc\<close> of the next event name and the copy into it. The init functions count the events from
  0 in a local variable; the model appends, which is the same in a structure without events, and
  every structure is initialised once.
\<close>

definition add_event :: "cstr \<Rightarrow> Plugin_metrics \<Rightarrow> Plugin_metrics option" where
  "add_event name d =
     (if MAX_EVENTS_NUMBER \<le> length (events d) then None
      else do { e \<leftarrow> c_store MAX_EVENTS_LEN name; Some (d\<lparr>events := events d @ [e]\<rparr>) })"

definition set_value :: "nat \<Rightarrow> cfp \<Rightarrow> Plugin_metrics \<Rightarrow> Plugin_metrics option" where
  "set_value i v d =
     (if i < length (values d) then Some (d\<lparr>values := (values d)[i := Some v]\<rparr>) else None)"

lemma set_value_Some [simp]:
  "i < length (values d) \<Longrightarrow> set_value i v d = Some (d\<lparr>values := (values d)[i := Some v]\<rparr>)"
  by (simp add: set_value_def)

subsection \<open>Flags for the requested metrics\<close>

text \<open>
  The connectors keep the requested metrics as bits of an \<open>unsigned int\<close>: bit \<open>ii\<close> stands
  for entry \<open>ii\<close> of the connector's table. \<open>flag & (1 << ii)\<close> is the test of a bit.
\<close>

definition has_stat :: "32 word \<Rightarrow> nat \<Rightarrow> bool" where
  "has_stat w ii = bit w ii"

definition mark_event :: "cstr list \<Rightarrow> cstr \<Rightarrow> nat \<Rightarrow> 32 word \<Rightarrow> 32 word" where
  "mark_event metrics e ii w = (if e = metrics ! ii then set_bit ii w else w)"

definition mark_events :: "cstr list \<Rightarrow> cstr list \<Rightarrow> 32 word \<Rightarrow> 32 word" where
  "mark_events metrics evs w = fold (\<lambda>e w. fold (mark_event metrics e) [0..<length metrics] w) evs w"

lemma bit_mark_event:
  "ii < 32 \<Longrightarrow> bit (mark_event metrics e ii w) n \<longleftrightarrow> bit w n \<or> (n = ii \<and> e = metrics ! n)"
  by (auto simp: mark_event_def bit_set_bit_iff)

lemma bit_mark_all:
  "k \<le> 32 \<Longrightarrow> bit (fold (mark_event metrics e) [0..<k] w) n \<longleftrightarrow> bit w n \<or> (n < k \<and> e = metrics ! n)"
proof (induction k)
  case (Suc k)
  then show ?case by (simp only: upt_Suc_append fold_append fold_simps comp_apply bit_mark_event
        zero_le less_Suc_eq Suc_le_lessD less_imp_le) blast
qed simp

lemma bit_mark_events:
  assumes "length metrics \<le> 32"
  shows "bit (mark_events metrics evs w) n \<longleftrightarrow> bit w n \<or> (n < length metrics \<and> metrics ! n \<in> set evs)"
  unfolding mark_events_def
proof (induction evs arbitrary: w)
  case (Cons e evs)
  then show ?case using bit_mark_all [OF assms, of metrics e w n] by (simp only: fold_simps list.set insert_iff) auto
qed simp

subsection \<open>The machine at one moment\<close>

record timestamp =
  sec :: int
  nsec :: int

record machine =
  proc_file :: "cstr \<Rightarrow> string option"
  proc_dir :: "cstr list option"
  realtime :: timestamp

text \<open>\<open>tv_sec * 1.0 + (double)(tv_nsec / 1.0e9)\<close>: the time in seconds.\<close>

definition seconds :: "timestamp \<Rightarrow> cfp" where
  "seconds t = fp_add binary64 (fp_mul binary64 (fp_of_int binary64 (sec t)) (Fin False 1))
     (fp_div binary64 (fp_of_int binary64 (nsec t)) (Fin False (10 ^ 9)))"

text \<open>\<open>tv_sec * 1.0e3 + (double)(tv_nsec / 1.0e6)\<close>: the time in milliseconds.\<close>

definition milliseconds :: "timestamp \<Rightarrow> cfp" where
  "milliseconds t = fp_add binary64 (fp_mul binary64 (fp_of_int binary64 (sec t)) (Fin False 1000))
     (fp_div binary64 (fp_of_int binary64 (nsec t)) (Fin False (10 ^ 6)))"

lemma seconds_whole: "n < 2 ^ 31 \<Longrightarrow> seconds \<lparr>sec = int n, nsec = 0\<rparr> = Fin False (of_nat n)"
proof -
  assume n: "n < 2 ^ 31"
  have r: "fp_round binary64 False (of_nat n) = Fin False (of_nat n)" using n by (intro fp_round64_nat) simp
  have z: "fp_of_int binary64 0 = Fin False 0" by simp
  have d: "fp_div binary64 (Fin False 0) (Fin False (10 ^ 9)) = Fin False 0" by simp
  have m: "fp_mul binary64 (Fin False (of_nat n)) (Fin False 1) = Fin False (of_nat n)" using r by simp
  have "seconds \<lparr>sec = int n, nsec = 0\<rparr> = fp_add binary64 (Fin False (of_nat n)) (Fin False 0)"
    unfolding seconds_def by (simp only: timestamp.select_convs fp_of_int_small [OF n] z d m)
  also have "\<dots> = Fin False (of_nat n)"
    using r by (cases "n = 0") (simp_all add: signed_def fp_of_rat_def Let_def)
  finally show ?thesis .
qed

text \<open>A call that may end the process with an exit code instead of returning.\<close>

datatype 'a call = Exit int | Return 'a

subsection \<open>JSON fields\<close>

definition json_type :: "cstr \<Rightarrow> cstr" where
  "json_type name = [DQ] @ ''type'' @ [DQ] @ '':'' @ [DQ] @ name @ [DQ]"

definition json_time :: "cfp \<Rightarrow> cstr" where
  "json_time ms = '','' @ [DQ] @ ''local_timestamp'' @ [DQ] @ '':'' @ [DQ] @ show_fp 1 ms @ [DQ]"

definition json_metric :: "cstr \<Rightarrow> cfp \<Rightarrow> cstr" where
  "json_metric name v = '','' @ [DQ] @ name @ [DQ] @ '':'' @ show_fp 3 v"

text \<open>\<open>sprintf(tmp, ...); strcat(json, tmp);\<close> with \<open>char tmp[128]\<close>.\<close>

definition json_add :: "cstr \<Rightarrow> cstr \<Rightarrow> cstr option" where
  "json_add t json = do { tmp \<leftarrow> c_store 128 t; c_append JSON_MAX_LEN json tmp }"

definition json_begin :: "cstr \<Rightarrow> cfp \<Rightarrow> cstr option" where
  "json_begin name ms = do { json \<leftarrow> c_store JSON_MAX_LEN (json_type name); json_add (json_time ms) json }"

text \<open>Event \<open>i\<close> with its value, when both have been written.\<close>

definition event_value :: "Plugin_metrics \<Rightarrow> nat \<Rightarrow> (cstr \<times> cfp) option" where
  "event_value d i =
     (if i < length (events d) \<and> i < length (values d)
      then map_option (\<lambda>v. (events d ! i, v)) (values d ! i) else None)"

text \<open>One round of the loop over the events, which drops negative values (and NaN).\<close>

definition json_nonnegative :: "Plugin_metrics \<Rightarrow> nat \<Rightarrow> cstr \<Rightarrow> cstr option" where
  "json_nonnegative d i json = do {
     (e, v) \<leftarrow> event_value d i;
     if fp_le fp_zero v then json_add (json_metric e v) json else Some json
   }"

text \<open>
  The nested loop of the connectors whose JSON text follows the order of the configured
  metrics: for every requested metric, the events it selects. The value is looked at only when
  the name matches.
\<close>

definition json_selected_event ::
  "(cstr \<Rightarrow> cstr \<Rightarrow> bool) \<Rightarrow> (cfp \<Rightarrow> bool) \<Rightarrow> Plugin_metrics \<Rightarrow> cstr \<times> nat \<Rightarrow> cstr \<Rightarrow> cstr option" where
  "json_selected_event matches keep d = (\<lambda>(e, ii) json.
     if length (events d) \<le> ii then None
     else if matches (events d ! ii) e then do {
       (name, v) \<leftarrow> event_value d ii;
       if keep v then json_add (json_metric name v) json else Some json
     } else Some json)"

definition json_selected ::
  "(cstr \<Rightarrow> cstr \<Rightarrow> bool) \<Rightarrow> (cfp \<Rightarrow> bool) \<Rightarrow> Plugin_metrics \<Rightarrow> cstr list \<Rightarrow> cstr \<Rightarrow> cstr option" where
  "json_selected matches keep d evs =
     foldM (json_selected_event matches keep d) (List.product evs [0..<num_events d])"

text \<open>An energy, a \<open>float\<close>, over an interval in \<open>double\<close>, stored as a \<open>float\<close>.\<close>

definition power_over :: "cfp \<Rightarrow> cfp \<Rightarrow> cfp" where
  "power_over energy interval = fp_conv binary32 (fp_div binary64 energy interval)"

text \<open>\<open>data->values[i] = ...; i++\<close> for a list of values.\<close>

fun put_values :: "cfp list \<Rightarrow> nat \<Rightarrow> Plugin_metrics \<Rightarrow> (nat \<times> Plugin_metrics) option" where
  "put_values [] i d = Some (i, d)"
| "put_values (v # vs) i d = do { d' \<leftarrow> set_value i v d; put_values vs (i + 1) d' }"

subsection \<open>Values written in sequence\<close>

fun write_values :: "(bool \<times> cfp option) list \<Rightarrow> nat \<Rightarrow> cfp option list \<Rightarrow> cfp option list" where
  "write_values [] i vs = vs"
| "write_values ((on, r) # xs) i vs =
     (if on then write_values xs (i + 1) (case r of None \<Rightarrow> vs | Some v \<Rightarrow> vs[i := Some v])
      else write_values xs i vs)"

lemma length_write_values [simp]: "length (write_values xs i vs) = length vs"
  by (induction xs i vs rule: write_values.induct) (auto split: option.split)

lemma write_values_before: "k < i \<Longrightarrow> write_values xs i vs ! k = vs ! k"
  by (induction xs i vs rule: write_values.induct) (auto split: option.split)

lemma write_values_nth:
  assumes "j < length (filter fst xs)" "i + j < length vs"
  shows "write_values xs i vs ! (i + j) =
    (case snd (filter fst xs ! j) of Some v \<Rightarrow> Some v | None \<Rightarrow> vs ! (i + j))"
  using assms
proof (induction xs i vs arbitrary: j rule: write_values.induct)
  case (2 on r xs i vs)
  show ?case
  proof (cases on)
    case on: True
    show ?thesis
    proof (cases j)
      case 0
      then show ?thesis using on 2(4) by (auto simp: write_values_before split: option.split)
    next
      case (Suc j')
      then show ?thesis using on 2(1) [OF on, of j'] 2(3,4) by (auto split: option.split)
    qed
  qed (use 2 in simp)
qed simp

subsection \<open>The text fits its buffers\<close>

text \<open>The values a variable of type \<open>float\<close> can have.\<close>

definition is_float :: "cfp \<Rightarrow> bool" where
  "is_float v = (case v of Fin s a \<Rightarrow> 0 \<le> a \<and> a < 2 ^ 128 | _ \<Rightarrow> True)"

lemma is_float_conv [simp]: "fp_ok x \<Longrightarrow> is_float (fp_conv binary32 x)"
proof (cases x)
  case (Fin s a)
  moreover have "pow2 (emax binary32 + 1) = 2 ^ 128" by (simp add: binary32_def pow2_def)
  moreover assume "fp_ok x"
  ultimately show ?thesis by (auto simp: is_float_def fp_round_def Let_def rnd_nonneg not_le)
qed (simp_all add: is_float_def)

lemma power_over_float: "fp_ok e \<Longrightarrow> fp_ok t \<Longrightarrow> is_float (power_over e t)"
  by (simp add: power_over_def)

lemma rne_below: "0 \<le> x \<Longrightarrow> x + 1 \<le> of_nat n \<Longrightarrow> nat (rne x) < n"
proof -
  assume x: "0 \<le> x" "x + 1 \<le> of_nat n"
  have "of_int (rne x) \<le> x + 1 / 2" using rne_error [of x] by (simp only: abs_le_iff) linarith
  then have "of_int (rne x) < (of_int (int n) :: rat)" using x(2) by simp
  then have "rne x < int n" by (simp only: of_int_less_iff)
  then show ?thesis using rne_nonneg [OF x(1)] by simp
qed

lemma length_show_padded: "n < 10 ^ Suc d \<Longrightarrow> length (show_padded (Suc d) n) = Suc d"
  using length_show_nat [of n d] by (simp add: show_padded_def Let_def)

lemma length_show_fp:
  assumes "0 \<le> a" "a * 10 ^ Suc d + 1 \<le> 10 ^ (Suc k + Suc d)"
  shows "length (show_fp (Suc d) (Fin s a)) \<le> Suc k + Suc d + 2"
proof -
  let ?n = "nat (rne (a * 10 ^ Suc d))"
  have "?n < 10 ^ (Suc k + Suc d)"
    by (rule rne_below) (use assms in simp_all)
  then have "?n div 10 ^ Suc d < 10 ^ Suc k"
    by (simp only: div_less_iff_less_mult zero_less_power zero_less_numeral power_add)
  then have "length (show_nat (?n div 10 ^ Suc d)) \<le> Suc k" by (rule length_show_nat)
  moreover have "length (show_padded (Suc d) (?n mod 10 ^ Suc d)) = Suc d"
    by (rule length_show_padded) simp
  ultimately show ?thesis by (simp add: Let_def)
qed

lemma length_show_float: "is_float v \<Longrightarrow> length (show_fp 3 v) \<le> 44"
proof (cases v)
  case (Fin s a)
  assume "is_float v"
  then have a: "0 \<le> a" "a < 2 ^ 128" by (simp_all add: is_float_def Fin)
  have "a * 10 ^ Suc 2 + 1 \<le> 2 ^ 128 * 1000 + 1" using a by simp
  also have "\<dots> \<le> (10 ^ (Suc 38 + Suc 2) :: rat)" by simp
  finally have len: "length (show_fp (Suc 2) (Fin s a)) \<le> Suc 38 + Suc 2 + 2" by (rule length_show_fp [OF a(1)])
  have t: "show_fp 3 = show_fp (Suc 2)" by (rule arg_cong) simp
  show ?thesis unfolding Fin t by (rule order_trans [OF len]) simp
qed simp_all

lemma length_show_ms:
  assumes "0 \<le> a" "a \<le> 10 ^ 12"
  shows "length (show_fp 1 (fp_mul binary64 (Fin False a) (Fin False 1000))) \<le> 19"
proof -
  let ?b = "rnd binary64 (a * 1000)"
  have "a * 1000 \<le> of_nat (10 ^ 15)" using assms(2) by simp
  then have b: "?b \<le> of_nat (10 ^ 15)" using assms(1) by (intro r64_below_nat) simp_all
  have b0: "0 \<le> ?b" using assms(1) by (intro rnd_nonneg) simp
  have "below_max64 (a * 1000)" by (rule below_max64I [of _ "10 ^ 15"]) (use assms in simp_all)
  then have m: "fp_mul binary64 (Fin False a) (Fin False 1000) = Fin False ?b" by (simp add: fp_round64)
  have "?b * 10 ^ Suc 0 + 1 \<le> 10 ^ (Suc 15 + Suc 0)" using b by simp
  then have "length (show_fp (Suc 0) (Fin False ?b)) \<le> Suc 15 + Suc 0 + 2" by (rule length_show_fp [OF b0])
  then show ?thesis unfolding m by simp
qed

text \<open>The field of event \<open>i\<close>, and the fields of all events.\<close>

definition json_field :: "Plugin_metrics \<Rightarrow> nat \<Rightarrow> cstr" where
  "json_field d i = (case event_value d i of None \<Rightarrow> []
     | Some (e, v) \<Rightarrow> if fp_le fp_zero v then json_metric e v else [])"

definition printable :: "Plugin_metrics \<Rightarrow> bool" where
  "printable d \<longleftrightarrow> (\<forall>i < num_events d. \<exists>e v. event_value d i = Some (e, v) \<and> length e < 32 \<and> is_float v)"

lemma length_json_metric: "length e < 32 \<Longrightarrow> is_float v \<Longrightarrow> length (json_metric e v) \<le> 79"
  using length_show_float [of v] by (simp add: json_metric_def)

lemma json_fields_fit:
  assumes "\<forall>i \<in> set is. \<exists>e v. event_value d i = Some (e, v) \<and> length e < 32 \<and> is_float v"
    and "length json + 79 * length is < JSON_MAX_LEN"
  shows "foldM (json_nonnegative d) is json = Some (json @ concat (map (json_field d) is))"
  using assms
proof (induction "is" arbitrary: json)
  case (Cons i js)
  obtain e v where ev: "event_value d i = Some (e, v)" "length e < 32" "is_float v" using Cons.prems(1) by auto
  have "length (json_metric e v) \<le> 79" using length_json_metric ev by blast
  then have "json_nonnegative d i json = Some (json @ json_field d i)" "length (json_field d i) \<le> 79"
    using ev(1) Cons.prems(2) by (simp_all add: json_nonnegative_def json_field_def json_add_def)
  then show ?case using Cons.IH [of "json @ json_field d i"] Cons.prems by simp
qed simp

lemma json_begin_fits:
  assumes "length (json_type name) \<le> 40" "length (show_fp 1 ms) \<le> 19"
  shows "json_begin name ms = Some (json_type name @ json_time ms) \<and> length (json_type name @ json_time ms) \<le> 80"
  using assms by (simp add: json_begin_def json_add_def json_time_def JSON_MAX_LEN_def)

subsection \<open>The contract of a connector's sampling\<close>

text \<open>
  Sampling never changes which events a connector reports: the JSON text after it pairs the
  names chosen at initialisation with the new values. Inside the locale: this holds after any
  number of samples, and the number of values stays that of the array.
\<close>

definition same_events :: "Plugin_metrics \<Rightarrow> Plugin_metrics \<Rightarrow> bool" where
  "same_events d d' \<longleftrightarrow> events d' = events d \<and> num_events d' = num_events d \<and>
     length (values d') = length (values d)"

lemma same_events_refl [simp, intro]: "same_events d d"
  by (simp add: same_events_def)

lemma same_events_trans: "same_events a b \<Longrightarrow> same_events b c \<Longrightarrow> same_events a c"
  by (simp add: same_events_def)

lemma set_value_same: "set_value i v d = Some d' \<Longrightarrow> same_events d d'"
  by (auto simp: set_value_def same_events_def split: if_splits)

lemma set_value_eq: "set_value i v d = Some d' \<longleftrightarrow> i < length (values d) \<and> d' = d\<lparr>values := (values d)[i := Some v]\<rparr>"
  by (auto simp: set_value_def)

lemma put_values_spec:
  "put_values vs i d = Some (n, d') \<Longrightarrow> same_events d d' \<and> i + length vs \<le> max i (length (values d)) \<and>
    (\<forall>j. values d' ! j = (if i \<le> j \<and> j < i + length vs then Some (vs ! (j - i)) else values d ! j))"
proof (induction vs i d arbitrary: n d' rule: put_values.induct)
  case (2 v vs i d)
  from 2(2) obtain d1 where d1: "i < length (values d)" "d1 = d\<lparr>values := (values d)[i := Some v]\<rparr>"
    and r: "put_values vs (i + 1) d1 = Some (n, d')"
    by (auto simp: Option.bind_eq_Some_conv set_value_eq)
  have "set_value i v d = Some d1" using d1 by simp
  from 2(1) [OF this r] d1 show ?case
    by (auto simp: same_events_def nth_list_update nth_Cons')
qed auto

lemma put_values_fits:
  "i + length vs \<le> length (values d) \<Longrightarrow> \<exists>d'. put_values vs i d = Some (i + length vs, d')"
proof (induction vs i d rule: put_values.induct)
  case (2 v vs i d)
  then show ?case by simp
qed simp

lemma put_values_index: "put_values vs i d = Some (n, d') \<Longrightarrow> n = i + length vs"
  by (induction vs i d rule: put_values.induct) (auto simp: Option.bind_eq_Some_conv)

lemma put_values_append:
  "put_values (xs @ ys) i d = do { (j, d') \<leftarrow> put_values xs i d; put_values ys j d' }"
proof (induction xs i d rule: put_values.induct)
  case (2 v vs i d)
  then show ?case by (cases "set_value i v d") (simp_all add: bind_assoc split_def)
qed simp

lemma values_of_events:
  assumes "put_values (map g es) 0 d = Some (n, d')" "j < length es"
  shows "values d' ! j = Some (g (es ! j))"
  using put_values_spec [OF assms(1)] assms(2) by simp

lemma add_event_Some:
  "add_event e d = Some d' \<Longrightarrow> events d' = events d @ [e] \<and> values d' = values d"
  by (auto simp: add_event_def c_safe Option.bind_eq_Some_conv split: if_splits)

lemma add_events_Some:
  "foldM add_event es d = Some d' \<Longrightarrow> events d' = events d @ es \<and> values d' = values d"
proof (induction es arbitrary: d)
  case (Cons e es)
  then obtain d1 where "add_event e d = Some d1" "foldM add_event es d1 = Some d'"
    by (auto simp: Option.bind_eq_Some_conv)
  with Cons.IH add_event_Some [of e d d1] show ?case by simp
qed simp

lemma add_events_length:
  "foldM add_event es d = Some d' \<Longrightarrow> length (events d) \<le> MAX_EVENTS_NUMBER \<Longrightarrow> length (events d') \<le> MAX_EVENTS_NUMBER"
  by (erule foldM_invariant) (auto simp: add_event_def c_safe Option.bind_eq_Some_conv split: if_split_asm)

text \<open>The text of the nested loop.\<close>

definition json_selected_field ::
  "(cstr \<Rightarrow> cstr \<Rightarrow> bool) \<Rightarrow> (cfp \<Rightarrow> bool) \<Rightarrow> Plugin_metrics \<Rightarrow> cstr \<times> nat \<Rightarrow> cstr" where
  "json_selected_field matches keep d = (\<lambda>(e, ii). case event_value d ii of None \<Rightarrow> []
     | Some (name, v) \<Rightarrow> if matches name e \<and> keep v then json_metric name v else [])"

lemma json_selected_event_text:
  "json_selected_event matches keep d x json = Some json' \<Longrightarrow> json' = json @ json_selected_field matches keep d x"
  by (cases x) (auto simp: json_selected_event_def json_selected_field_def json_add_def event_value_def c_safe
      Option.bind_eq_Some_conv split: if_split_asm option.split)

lemma json_selected_loop:
  "foldM (json_selected_event matches keep d) xs json = Some json' \<Longrightarrow>
   json' = json @ concat (map (json_selected_field matches keep d) xs)"
proof (induction xs arbitrary: json)
  case (Cons x xs)
  then obtain j where "json_selected_event matches keep d x json = Some j"
    "foldM (json_selected_event matches keep d) xs j = Some json'"
    by (auto simp: Option.bind_eq_Some_conv)
  with Cons.IH [of j] json_selected_event_text show ?case by fastforce
qed simp

lemma json_selected_text:
  "json_selected matches keep d evs json = Some json' \<Longrightarrow>
   json' = json @ concat (map (json_selected_field matches keep d) (List.product evs [0..<num_events d]))"
  unfolding json_selected_def by (rule json_selected_loop)

locale connector =
  fixes sample :: "'e \<Rightarrow> 's \<times> Plugin_metrics \<Rightarrow> ('s \<times> Plugin_metrics) option"
  assumes sample_events: "sample e (s, d) = Some (s', d') \<Longrightarrow> same_events d d'"
begin

lemma samples_events: "foldM sample es (s, d) = Some (s', d') \<Longrightarrow> same_events d d'"
proof (induction es arbitrary: s d)
  case (Cons e es)
  then obtain s1 d1 where "sample e (s, d) = Some (s1, d1)" "foldM sample es (s1, d1) = Some (s', d')"
    by (auto simp: Option.bind_eq_Some_conv)
  with Cons.IH sample_events same_events_trans show ?case by blast
qed simp

end

end
