(* ===== verification/Linux_Resources.thy ===== *)
theory Linux_Resources
  imports Plugin_Metrics
begin

text \<open>
  The Linux_resources connector,
  \<^verbatim>\<open>plugins/Linux_resources/src/mf_Linux_resources_connector.c\<close>: CPU, RAM and swap usage rates
  in percent, network and disk throughput in bytes per second. The global variables of the
  file are the record \<open>lin_state\<close>. One exception to \<open>None\<close> for undefined behaviour: the product
  of two \<open>int\<close>s wraps around, as it does in the connector's build with \<open>-O0\<close>; the claims about
  the rates say what this changes.
\<close>

record cpu_stats =
  total_cpu_time :: u64
  total_idle_time :: u64

record net_stats =
  rcv_bytes :: u64
  send_bytes :: u64

record io_stats =
  read_bytes :: u64
  write_bytes :: u64

record lin_state =
  flag :: "32 word"
  before_time :: cfp
  after_time :: cfp
  cpu_stat_before :: cpu_stats
  cpu_stat_after :: cpu_stats
  net_stat_before :: net_stats
  net_stat_after :: net_stats
  io_stat_before :: io_stats
  io_stat_after :: io_stats

definition lin_start :: lin_state where
  "lin_start = \<lparr>flag = 0, before_time = fp_zero, after_time = fp_zero,
     cpu_stat_before = \<lparr>total_cpu_time = 0, total_idle_time = 0\<rparr>,
     cpu_stat_after = \<lparr>total_cpu_time = 0, total_idle_time = 0\<rparr>,
     net_stat_before = \<lparr>rcv_bytes = 0, send_bytes = 0\<rparr>, net_stat_after = \<lparr>rcv_bytes = 0, send_bytes = 0\<rparr>,
     io_stat_before = \<lparr>read_bytes = 0, write_bytes = 0\<rparr>, io_stat_after = \<lparr>read_bytes = 0, write_bytes = 0\<rparr>\<rparr>"

definition Linux_resources_metrics :: "cstr list" where
  "Linux_resources_metrics =
     [''CPU_usage_rate'', ''RAM_usage_rate'', ''swap_usage_rate'', ''net_throughput'', ''io_throughput'']"

definition flag_init :: "cstr list \<Rightarrow> 32 word \<Rightarrow> int \<times> 32 word" where
  "flag_init evs w =
     (let w' = mark_events Linux_resources_metrics evs w in (if w' = 0 then 0 else 1, w'))"

subsection \<open>Reading the counters\<close>

text \<open>
  A reader returns its code and the structure it fills. Skipping past the end of a line, or
  using a variable no conversion has assigned, is undefined.
\<close>

definition CPU_stat_read :: "machine \<Rightarrow> cpu_stats \<Rightarrow> (int \<times> cpu_stats) option" where
  "CPU_stat_read m info =
     (case proc_file m ''/proc/stat'' of None \<Rightarrow> Some (0, info)
      | Some f \<Rightarrow>
          (case fgets_all 1024 f of
             [] \<Rightarrow> Some (1, \<lparr>total_cpu_time = 0, total_idle_time = 0\<rparr>)
           | line # _ \<Rightarrow> do {
               s \<leftarrow> skip 5 (c_string line);
               case scan_u64s 8 s of
                 [user, nice, sys, idle, iowait, irq, softirq, steal] \<Rightarrow>
                   Some (1, \<lparr>total_cpu_time = user + nice + sys + idle + iowait + irq + softirq + steal,
                             total_idle_time = idle + iowait\<rparr>)
               | _ \<Rightarrow> None
             }))"

text \<open>
  The loops over \<^verbatim>\<open>/proc/meminfo\<close>: \<open>tot\<close> and \<open>free\<close> hold the values read so far; the loop
  ends at the first line after which their product is not zero.
\<close>

definition scan_into :: "cstr \<Rightarrow> cstr \<Rightarrow> s32 \<Rightarrow> s32" where
  "scan_into key line v =
     (if strncmp_eq line key (length key)
      then (case scan_s32 (drop (length key) line) of None \<Rightarrow> v | Some (n, _) \<Rightarrow> n) else v)"

definition percent_free :: "s32 \<Rightarrow> s32 \<Rightarrow> cfp" where
  "percent_free tot free =
     percent_of (fp_of_int binary64 (sint (tot - free))) (fp_of_int binary64 (sint tot))"

fun meminfo_rate :: "cstr \<Rightarrow> cstr \<Rightarrow> string list \<Rightarrow> s32 \<Rightarrow> s32 \<Rightarrow> cfp" where
  "meminfo_rate total_key free_key [] tot free = fp_zero"
| "meminfo_rate total_key free_key (line # lines) tot free =
     (let t = scan_into total_key (c_string line) tot; f = scan_into free_key (c_string line) free in
      if t * f \<noteq> 0 then percent_free t f else meminfo_rate total_key free_key lines t f)"

definition RAM_usage_rate_read :: "machine \<Rightarrow> cfp" where
  "RAM_usage_rate_read m =
     (case proc_file m ''/proc/meminfo'' of None \<Rightarrow> fp_zero
      | Some f \<Rightarrow> meminfo_rate ''MemTotal:'' ''MemFree:'' (fgets_all 1024 f) 0 0)"

definition swap_usage_rate_read :: "machine \<Rightarrow> cfp" where
  "swap_usage_rate_read m =
     (case proc_file m ''/proc/meminfo'' of None \<Rightarrow> fp_zero
      | Some f \<Rightarrow> meminfo_rate ''SwapTotal:'' ''SwapFree:'' (fgets_all 1024 f) 0 0)"

text \<open>
  \<open>NET_stat_read\<close>. \<open>rcv\<close> and \<open>snd\<close> are the local variables the nine conversions assign
  (the first and the last of them); they keep their values from one line to the next.
\<close>

type_synonym net_locals = "u64 option \<times> u64 option"

definition net_scan :: "cstr \<Rightarrow> net_locals \<Rightarrow> net_locals" where
  "net_scan s = (\<lambda>(rcv, snd).
     let vs = scan_u64s 9 s in
     (if 1 \<le> length vs then Some (vs ! 0) else rcv, if 9 \<le> length vs then Some (vs ! 8) else snd))"

definition net_device ::
  "cstr \<Rightarrow> nat \<Rightarrow> cstr \<Rightarrow> net_locals \<times> net_stats \<Rightarrow> (net_locals \<times> net_stats) option" where
  "net_device dev n line = (\<lambda>(locals, info).
     case strstr line dev of None \<Rightarrow> Some (locals, info)
     | Some sub_line \<Rightarrow> do {
         s \<leftarrow> skip n sub_line;
         (let locals' = net_scan s locals in do {
            r \<leftarrow> fst locals';
            t \<leftarrow> snd locals';
            Some (locals', \<lparr>rcv_bytes = rcv_bytes info + r, send_bytes = send_bytes info + t\<rparr>)
          })
       })"

definition net_line :: "string \<Rightarrow> net_locals \<times> net_stats \<Rightarrow> (net_locals \<times> net_stats) option" where
  "net_line line x = do {
     y \<leftarrow> net_device ''eth'' 5 (c_string line) x;
     net_device ''wlan'' 6 (c_string line) y
   }"

definition NET_stat_read :: "machine \<Rightarrow> net_stats \<Rightarrow> (int \<times> net_stats) option" where
  "NET_stat_read m info =
     (case proc_file m ''/proc/net/dev'' of None \<Rightarrow> Some (0, info)
      | Some f \<Rightarrow> do {
          (_, info') \<leftarrow> foldM net_line (fgets_all 1024 f) ((None, None), \<lparr>rcv_bytes = 0, send_bytes = 0\<rparr>);
          Some (1, info')
        })"

fun io_lines :: "string list \<Rightarrow> io_stats \<Rightarrow> io_stats option" where
  "io_lines [] io = Some io"
| "io_lines (line # lines) io =
     (let l = c_string line in do {
        r \<leftarrow> (if strncmp_eq l ''read_bytes:'' 11 then scan_at 12 l (read_bytes io) else Some (read_bytes io));
        w \<leftarrow> (if strncmp_eq l ''write_bytes:'' 12 then scan_at 13 l (write_bytes io) else Some (write_bytes io));
        if r * w \<noteq> 0 then Some \<lparr>read_bytes = r, write_bytes = w\<rparr>
        else io_lines lines \<lparr>read_bytes = r, write_bytes = w\<rparr>
      })"

text \<open>\<open>None\<close> inside \<open>Some\<close> is the return code FAILURE.\<close>

definition process_IO_stat_read :: "machine \<Rightarrow> int \<Rightarrow> io_stats option option" where
  "process_IO_stat_read m pid =
     (case proc_file m (''/proc/'' @ show_int pid @ ''/io'') of None \<Rightarrow> Some None
      | Some f \<Rightarrow> map_option Some (io_lines (fgets_all 256 f) \<lparr>read_bytes = 0, write_bytes = 0\<rparr>))"

definition sys_IO_entry :: "machine \<Rightarrow> cstr \<Rightarrow> io_stats \<Rightarrow> io_stats option" where
  "sys_IO_entry m d_name tot =
     (if d_name \<noteq> [] \<and> isdigit (hd d_name) then do {
        io \<leftarrow> process_IO_stat_read m (atoi d_name);
        Some (case io of None \<Rightarrow> tot
          | Some s \<Rightarrow> \<lparr>read_bytes = read_bytes tot + read_bytes s, write_bytes = write_bytes tot + write_bytes s\<rparr>)
      }
      else Some tot)"

definition sys_IO_stat_read :: "machine \<Rightarrow> io_stats \<Rightarrow> (int \<times> io_stats) option" where
  "sys_IO_stat_read m info =
     (case proc_dir m of None \<Rightarrow> Some (0, info)
      | Some names \<Rightarrow> do {
          tot \<leftarrow> foldM (sys_IO_entry m) names \<lparr>read_bytes = 0, write_bytes = 0\<rparr>;
          Some (1, tot)
        })"

subsection \<open>Initialisation\<close>

text \<open>
  Each \<open>if (flag & HAS_...)\<close> of \<open>mf_Linux_resources_init\<close> allocates the next event name and
  takes the first reading of its counters.
\<close>

definition init_cpu :: "machine \<Rightarrow> lin_state \<times> Plugin_metrics \<Rightarrow> (lin_state \<times> Plugin_metrics) option" where
  "init_cpu m = (\<lambda>(st, d).
     if \<not> has_stat (flag st) 0 then Some (st, d)
     else do {
       d' \<leftarrow> add_event ''CPU_usage_rate'' d;
       (_, c) \<leftarrow> CPU_stat_read m (cpu_stat_before st);
       Some (st\<lparr>cpu_stat_before := c\<rparr>, d')
     })"

definition init_name :: "nat \<Rightarrow> lin_state \<times> Plugin_metrics \<Rightarrow> (lin_state \<times> Plugin_metrics) option" where
  "init_name ii = (\<lambda>(st, d).
     if \<not> has_stat (flag st) ii then Some (st, d)
     else do { d' \<leftarrow> add_event (Linux_resources_metrics ! ii) d; Some (st, d') })"

definition init_net :: "machine \<Rightarrow> lin_state \<times> Plugin_metrics \<Rightarrow> (lin_state \<times> Plugin_metrics) option" where
  "init_net m = (\<lambda>(st, d).
     if \<not> has_stat (flag st) 3 then Some (st, d)
     else do {
       d' \<leftarrow> add_event ''net_throughput'' d;
       (_, n) \<leftarrow> NET_stat_read m (net_stat_before st);
       Some (st\<lparr>net_stat_before := n\<rparr>, d')
     })"

definition init_io :: "machine \<Rightarrow> lin_state \<times> Plugin_metrics \<Rightarrow> (lin_state \<times> Plugin_metrics) option" where
  "init_io m = (\<lambda>(st, d).
     if \<not> has_stat (flag st) 4 then Some (st, d)
     else do {
       d' \<leftarrow> add_event ''io_throughput'' d;
       (_, io) \<leftarrow> sys_IO_stat_read m (io_stat_before st);
       Some (st\<lparr>io_stat_before := io\<rparr>, d')
     })"

definition mf_Linux_resources_init ::
  "machine \<Rightarrow> cstr list \<Rightarrow> lin_state \<times> Plugin_metrics \<Rightarrow> (int \<times> lin_state \<times> Plugin_metrics) option" where
  "mf_Linux_resources_init m evs = (\<lambda>(st, d).
     case flag_init evs (flag st) of (ok, w) \<Rightarrow>
       if ok = 0 then Some (0, st\<lparr>flag := w\<rparr>, d)
       else do {
         x1 \<leftarrow> init_cpu m (st\<lparr>flag := w, before_time := seconds (realtime m)\<rparr>, d);
         x2 \<leftarrow> init_name 1 x1;
         x3 \<leftarrow> init_name 2 x2;
         x4 \<leftarrow> init_net m x3;
         (st', d') \<leftarrow> init_io m x4;
         Some (1, st', d'\<lparr>num_events := length (events d')\<rparr>)
       })"

subsection \<open>Sampling\<close>

text \<open>Each stage carries the index \<open>i\<close> of the next value.\<close>

definition sample_cpu ::
  "machine \<Rightarrow> lin_state \<times> Plugin_metrics \<times> nat \<Rightarrow> (lin_state \<times> Plugin_metrics \<times> nat) option" where
  "sample_cpu m = (\<lambda>(st, d, i).
     if \<not> has_stat (flag st) 0 then Some (st, d, i)
     else do {
       (_, a) \<leftarrow> CPU_stat_read m (cpu_stat_after st);
       (let b = cpu_stat_before st in
        if total_cpu_time b < total_cpu_time a then do {
          (let run = total_cpu_time a - total_cpu_time b; idle = total_idle_time a - total_idle_time b in do {
             d' \<leftarrow> set_value i (percent_of (fp_of_u64 binary64 (run - idle)) (fp_of_u64 binary64 run)) d;
             Some (st\<lparr>cpu_stat_after := a, cpu_stat_before := a\<rparr>, d', i + 1)
           })
        }
        else Some (st\<lparr>cpu_stat_after := a\<rparr>, d, i + 1))
     })"

definition sample_rate ::
  "nat \<Rightarrow> cfp \<Rightarrow> lin_state \<times> Plugin_metrics \<times> nat \<Rightarrow> (lin_state \<times> Plugin_metrics \<times> nat) option" where
  "sample_rate ii rate = (\<lambda>(st, d, i).
     if \<not> has_stat (flag st) ii then Some (st, d, i)
     else do { d' \<leftarrow> set_value i rate d; Some (st, d', i + 1) })"

text \<open>\<open>(float) (total_bytes * 1.0 / time_interval)\<close>\<close>

definition per_second :: "u64 \<Rightarrow> cfp \<Rightarrow> cfp" where
  "per_second bytes interval =
     fp_conv binary32 (fp_div binary64 (fp_mul binary64 (fp_of_u64 binary64 bytes) (Fin False 1)) interval)"

definition sample_net ::
  "machine \<Rightarrow> cfp \<Rightarrow> lin_state \<times> Plugin_metrics \<times> nat \<Rightarrow> (lin_state \<times> Plugin_metrics \<times> nat) option" where
  "sample_net m interval = (\<lambda>(st, d, i).
     if \<not> has_stat (flag st) 3 then Some (st, d, i)
     else do {
       (_, a) \<leftarrow> NET_stat_read m (net_stat_after st);
       (let b = net_stat_before st;
            bytes = (rcv_bytes a - rcv_bytes b) + (send_bytes a - send_bytes b) in
        if bytes \<noteq> 0 then do {
          d' \<leftarrow> set_value i (per_second bytes interval) d;
          Some (st\<lparr>net_stat_after := a, net_stat_before := a\<rparr>, d', i + 1)
        }
        else Some (st\<lparr>net_stat_after := a\<rparr>, d, i + 1))
     })"

definition sample_io ::
  "machine \<Rightarrow> cfp \<Rightarrow> lin_state \<times> Plugin_metrics \<times> nat \<Rightarrow> (lin_state \<times> Plugin_metrics \<times> nat) option" where
  "sample_io m interval = (\<lambda>(st, d, i).
     if \<not> has_stat (flag st) 4 then Some (st, d, i)
     else do {
       (_, a) \<leftarrow> sys_IO_stat_read m (io_stat_after st);
       (let b = io_stat_before st;
            bytes = (read_bytes a - read_bytes b) + (write_bytes a - write_bytes b) in
        if bytes \<noteq> 0 then do {
          d' \<leftarrow> set_value i (per_second bytes interval) d;
          Some (st\<lparr>io_stat_after := a, io_stat_before := a\<rparr>, d', i + 1)
        }
        else Some (st\<lparr>io_stat_after := a\<rparr>, d, i + 1))
     })"

definition mf_Linux_resources_sample ::
  "machine \<Rightarrow> lin_state \<times> Plugin_metrics \<Rightarrow> (lin_state \<times> Plugin_metrics) option" where
  "mf_Linux_resources_sample m = (\<lambda>(st, d).
     (let now = seconds (realtime m); interval = fp_sub binary64 now (before_time st) in do {
        x1 \<leftarrow> sample_cpu m (st\<lparr>after_time := now\<rparr>, d, 0);
        x2 \<leftarrow> sample_rate 1 (RAM_usage_rate_read m) x1;
        x3 \<leftarrow> sample_rate 2 (swap_usage_rate_read m) x2;
        x4 \<leftarrow> sample_net m interval x3;
        (st', d', _) \<leftarrow> sample_io m interval x4;
        Some (st'\<lparr>before_time := after_time st'\<rparr>, d')
      }))"

definition mf_Linux_resources_to_json :: "lin_state \<Rightarrow> Plugin_metrics \<Rightarrow> cstr option" where
  "mf_Linux_resources_to_json st d = do {
     json \<leftarrow> json_begin ''Linux_resources'' (fp_mul binary64 (after_time st) (Fin False 1000));
     foldM (json_nonnegative d) [0..<num_events d] json
   }"

subsection \<open>Which events are reported\<close>

lemma flag_init_bit:
  "bit (snd (flag_init evs w)) n \<longleftrightarrow> bit w n \<or> (n < 5 \<and> Linux_resources_metrics ! n \<in> set evs)"
proof -
  have "length Linux_resources_metrics = 5" by (simp add: Linux_resources_metrics_def)
  then show ?thesis using bit_mark_events [of Linux_resources_metrics evs w n] by (simp add: flag_init_def Let_def)
qed

lemma flag_init_code: "fst (flag_init evs w) = (if snd (flag_init evs w) = 0 then 0 else 1)"
  by (simp add: flag_init_def Let_def)

definition enabled_metrics :: "cstr list \<Rightarrow> cstr list" where
  "enabled_metrics evs = filter (\<lambda>e. e \<in> set evs) Linux_resources_metrics"

lemma metrics_upt: "Linux_resources_metrics = map ((!) Linux_resources_metrics) [0, 1, 2, 3, 4]"
  by (simp add: Linux_resources_metrics_def)

lemma enabled_metrics_flag:
  "enabled_metrics evs = map ((!) Linux_resources_metrics) (filter (has_stat (snd (flag_init evs 0))) [0, 1, 2, 3, 4])"
proof -
  have "enabled_metrics evs =
      map ((!) Linux_resources_metrics) (filter (\<lambda>ii. Linux_resources_metrics ! ii \<in> set evs) [0, 1, 2, 3, 4])"
    unfolding enabled_metrics_def by (subst metrics_upt) (simp only: filter_map comp_def)
  also have "filter (\<lambda>ii. Linux_resources_metrics ! ii \<in> set evs) [0, 1, 2, 3, 4] =
      filter (has_stat (snd (flag_init evs 0))) [0, 1, 2, 3, 4]"
    by (rule filter_cong) (auto simp: has_stat_def flag_init_bit)
  finally show ?thesis .
qed

lemma flag_init_zero: "snd (flag_init evs 0) = 0 \<longleftrightarrow> enabled_metrics evs = []"
proof
  assume "snd (flag_init evs 0) = 0"
  then show "enabled_metrics evs = []" by (simp add: enabled_metrics_flag has_stat_def)
next
  assume e: "enabled_metrics evs = []"
  have "\<not> (n < 5 \<and> Linux_resources_metrics ! n \<in> set evs)" for n
  proof
    assume n: "n < 5 \<and> Linux_resources_metrics ! n \<in> set evs"
    then have "Linux_resources_metrics ! n \<in> set Linux_resources_metrics"
      by (intro nth_mem) (simp add: Linux_resources_metrics_def)
    with n e show False by (auto simp: enabled_metrics_def filter_empty_conv)
  qed
  then show "snd (flag_init evs 0) = 0" by (intro bit_eqI) (simp add: flag_init_bit)
qed

text \<open>The bookkeeping of a stage of the initialisation.\<close>

definition init_adds :: "nat \<Rightarrow> lin_state \<times> Plugin_metrics \<Rightarrow> lin_state \<times> Plugin_metrics \<Rightarrow> bool" where
  "init_adds ii x y \<longleftrightarrow> flag (fst y) = flag (fst x) \<and> values (snd y) = values (snd x) \<and>
     events (snd y) = events (snd x) @ (if has_stat (flag (fst x)) ii then [Linux_resources_metrics ! ii] else [])"

lemma init_stages:
  "init_cpu m x = Some y \<Longrightarrow> init_adds 0 x y"
  "init_name ii x = Some y \<Longrightarrow> init_adds ii x y"
  "init_net m x = Some y \<Longrightarrow> init_adds 3 x y"
  "init_io m x = Some y \<Longrightarrow> init_adds 4 x y"
  by (cases x, auto simp: init_adds_def init_cpu_def init_name_def init_net_def init_io_def Option.bind_eq_Some_conv
      Linux_resources_metrics_def split: if_splits dest!: add_event_Some)+

lemma init_events:
  assumes "mf_Linux_resources_init m evs (st, d) = Some (rc, st', d')" "flag st = 0" "events d = []"
  shows "if enabled_metrics evs = [] then rc = 0
    else rc = 1 \<and> events d' = enabled_metrics evs \<and> num_events d' = length (enabled_metrics evs) \<and>
      flag st' = snd (flag_init evs 0) \<and> values d' = values d"
proof (cases "enabled_metrics evs = []")
  case True
  then have "fst (flag_init evs 0) = 0" by (simp add: flag_init_code flag_init_zero)
  then show ?thesis using True assms by (simp add: mf_Linux_resources_init_def split_def)
next
  case False
  let ?w = "snd (flag_init evs 0)"
  have ok: "fst (flag_init evs 0) = 1" using False by (simp add: flag_init_code flag_init_zero)
  obtain x1 x2 x3 x4 x5 where *: "init_cpu m (st\<lparr>flag := ?w, before_time := seconds (realtime m)\<rparr>, d) = Some x1"
      "init_name 1 x1 = Some x2" "init_name 2 x2 = Some x3" "init_net m x3 = Some x4" "init_io m x4 = Some x5"
      "rc = 1" "st' = fst x5" "d' = (snd x5)\<lparr>num_events := length (events (snd x5))\<rparr>"
    using assms(1,2) ok
    by (auto simp: mf_Linux_resources_init_def split_def Option.bind_eq_Some_conv)
  note adds = *(1) [THEN init_stages(1)] *(2,3) [THEN init_stages(2)] *(4) [THEN init_stages(3)] *(5) [THEN init_stages(4)]
  have "flag st' = ?w" "events d' = enabled_metrics evs" "values d' = values d"
    using adds assms(3) *(7,8) by (auto simp: init_adds_def enabled_metrics_flag)
  then show ?thesis using False *(6,8) by auto
qed

text \<open>
  Initialisation reports exactly the known metrics the configuration asks for, in the
  connector's own order, each once, however the configuration orders or repeats them; it fails
  if and only if there is none.
\<close>

theorem Linux_resources_init_events:
  assumes "mf_Linux_resources_init m evs (lin_start, metrics_start) = Some (rc, st, d)"
  shows "(rc = 0 \<longleftrightarrow> (\<forall>e \<in> set evs. e \<notin> set Linux_resources_metrics)) \<and>
    (rc \<noteq> 0 \<longrightarrow> events d = filter (\<lambda>e. e \<in> set evs) Linux_resources_metrics \<and> num_events d = length (events d))"
proof -
  have "enabled_metrics evs = [] \<longleftrightarrow> (\<forall>e \<in> set evs. e \<notin> set Linux_resources_metrics)"
    by (auto simp: enabled_metrics_def filter_empty_conv)
  then show ?thesis using init_events [OF assms] by (auto simp: enabled_metrics_def lin_start_def metrics_start_def split: if_splits)
qed

definition sample_machine :: machine where
  "sample_machine = \<lparr>proc_file = (\<lambda>f. if f = ''/proc/stat'' then Some (''cpu  8 0 2 90 0 0 0 0'' @ [NL])
       else if f = ''/proc/meminfo'' then Some (''MemTotal: 80 kB'' @ [NL] @ ''MemFree: 20 kB'' @ [NL]) else None),
     proc_dir = None, realtime = \<lparr>sec = 7, nsec = 0\<rparr>\<rparr>"

definition sample_wanted :: "cstr list" where
  "sample_wanted = [''RAM_usage_rate'', ''x'', ''CPU_usage_rate'']"

lemma sample_wanted_flag:
  "has_stat (snd (flag_init sample_wanted 0)) ii \<longleftrightarrow> ii = 0 \<or> ii = 1" "fst (flag_init sample_wanted 0) = 1"
proof -
  have m: "ii < 5 \<and> Linux_resources_metrics ! ii \<in> set sample_wanted \<longleftrightarrow> ii = 0 \<or> ii = 1" for ii
    by (auto simp: sample_wanted_def Linux_resources_metrics_def eval_nat_numeral less_Suc_eq)
  then show "has_stat (snd (flag_init sample_wanted 0)) ii \<longleftrightarrow> ii = 0 \<or> ii = 1"
    by (simp add: has_stat_def flag_init_bit)
  from m [of 0] have "enabled_metrics sample_wanted \<noteq> []"
    by (simp add: enabled_metrics_def sample_wanted_def Linux_resources_metrics_def)
  then show "fst (flag_init sample_wanted 0) = 1" by (simp add: flag_init_code flag_init_zero)
qed

lemma eight: "8 = Suc (Suc (Suc (Suc (Suc (Suc (Suc (Suc 0)))))))" by simp

lemma sample_cpu_scan: "scan_u64s 8 (''8 0 2 90 0 0 0 0'' @ [NL]) = [8, 0, 2, 90, 0, 0, 0, 0]"
  unfolding eight scan_u64s.simps by (simp add: scan_simps)

lemma sample_cpu_read:
  "CPU_stat_read sample_machine c = Some (1, \<lparr>total_cpu_time = 100, total_idle_time = 90\<rparr>)"
proof -
  have "fgets_all 1024 (''cpu  8 0 2 90 0 0 0 0'' @ NL # []) = [''cpu  8 0 2 90 0 0 0 0'' @ [NL]]"
    by (subst fgets_all_line) simp_all
  moreover have "skip 5 (c_string (''cpu  8 0 2 90 0 0 0 0'' @ [NL])) = Some (''8 0 2 90 0 0 0 0'' @ [NL])"
    by (simp add: skip_def c_string_def)
  ultimately show ?thesis using sample_cpu_scan by (simp add: CPU_stat_read_def sample_machine_def)
qed

theorem Linux_resources_init_events_witness:
  "\<exists>rc st d. mf_Linux_resources_init sample_machine sample_wanted (lin_start, metrics_start) =
     Some (rc, st, d) \<and> rc \<noteq> 0 \<and> events d = [''CPU_usage_rate'', ''RAM_usage_rate'']"
proof -
  let ?w = "snd (flag_init sample_wanted 0)"
  have "\<exists>st d. mf_Linux_resources_init sample_machine sample_wanted (lin_start, metrics_start) = Some (1, st, d)"
    using sample_wanted_flag
    by (auto simp: mf_Linux_resources_init_def init_cpu_def init_name_def init_net_def init_io_def
        lin_start_def metrics_start_def add_event_def MAX_EVENTS_NUMBER_def MAX_EVENTS_LEN_def
        Linux_resources_metrics_def sample_cpu_read split_def)
  then obtain rc st d where r: "mf_Linux_resources_init sample_machine sample_wanted (lin_start, metrics_start) = Some (rc, st, d)"
    and "rc \<noteq> 0" by auto
  with Linux_resources_init_events [OF r] show ?thesis
    by (auto simp: Linux_resources_metrics_def sample_wanted_def)
qed


subsection \<open>Sampling keeps values and events aligned\<close>

text \<open>
  What a sample should store for each metric; \<open>None\<close> when its counters did not move, in which
  case the previous value stays.
\<close>

definition cpu_reading :: "cpu_stats \<Rightarrow> cpu_stats \<Rightarrow> cfp option" where
  "cpu_reading b a =
     (if total_cpu_time b < total_cpu_time a
      then Some (percent_of
        (fp_of_u64 binary64 ((total_cpu_time a - total_cpu_time b) - (total_idle_time a - total_idle_time b)))
        (fp_of_u64 binary64 (total_cpu_time a - total_cpu_time b)))
      else None)"

definition rate_reading :: "u64 \<Rightarrow> cfp \<Rightarrow> cfp option" where
  "rate_reading bytes interval = (if bytes \<noteq> 0 then Some (per_second bytes interval) else None)"

definition net_reading :: "net_stats \<Rightarrow> net_stats \<Rightarrow> cfp \<Rightarrow> cfp option" where
  "net_reading b a = rate_reading ((rcv_bytes a - rcv_bytes b) + (send_bytes a - send_bytes b))"

definition io_reading :: "io_stats \<Rightarrow> io_stats \<Rightarrow> cfp \<Rightarrow> cfp option" where
  "io_reading b a = rate_reading ((read_bytes a - read_bytes b) + (write_bytes a - write_bytes b))"

definition interval_at :: "machine \<Rightarrow> lin_state \<Rightarrow> cfp" where
  "interval_at m st = fp_sub binary64 (seconds (realtime m)) (before_time st)"

definition lin_reading :: "machine \<Rightarrow> lin_state \<Rightarrow> nat \<Rightarrow> cfp option" where
  "lin_reading m st ii =
     (if ii = 0 then cpu_reading (cpu_stat_before st) (snd (the (CPU_stat_read m (cpu_stat_after st))))
      else if ii = 1 then Some (RAM_usage_rate_read m)
      else if ii = 2 then Some (swap_usage_rate_read m)
      else if ii = 3 then net_reading (net_stat_before st) (snd (the (NET_stat_read m (net_stat_after st)))) (interval_at m st)
      else io_reading (io_stat_before st) (snd (the (sys_IO_stat_read m (io_stat_after st)))) (interval_at m st))"

text \<open>What one stage does to the triple it carries.\<close>

definition stage :: "nat \<Rightarrow> cfp option \<Rightarrow> lin_state \<times> Plugin_metrics \<times> nat \<Rightarrow> lin_state \<times> Plugin_metrics \<times> nat \<Rightarrow> bool" where
  "stage ii r = (\<lambda>(st, d, i) (st', d', i').
     flag st' = flag st \<and> before_time st' = before_time st \<and> events d' = events d \<and> num_events d' = num_events d \<and>
     i' = (if has_stat (flag st) ii then i + 1 else i) \<and>
     values d' = (if has_stat (flag st) ii then (case r of None \<Rightarrow> values d | Some v \<Rightarrow> (values d)[i := Some v]) else values d))"



lemmas stage_defs = stage_def Let_def Option.bind_eq_Some_conv set_value_eq

lemma stage_cpu:
  assumes "sample_cpu m (st, d, i) = Some (st', d', i')"
  shows "stage 0 (cpu_reading (cpu_stat_before st) (snd (the (CPU_stat_read m (cpu_stat_after st))))) (st, d, i) (st', d', i') \<and>
    net_stat_before st' = net_stat_before st \<and> net_stat_after st' = net_stat_after st \<and>
    io_stat_before st' = io_stat_before st \<and> io_stat_after st' = io_stat_after st"
proof (cases "has_stat (flag st) 0")
  case True
  with assms obtain c a where "CPU_stat_read m (cpu_stat_after st) = Some (c, a)"
    by (auto simp: sample_cpu_def Option.bind_eq_Some_conv)
  with True assms show ?thesis
    by (cases "total_cpu_time (cpu_stat_before st) < total_cpu_time a") (simp_all add: sample_cpu_def stage_defs cpu_reading_def, auto)
qed (use assms in \<open>simp add: sample_cpu_def stage_def\<close>)


lemma stage_rate: "sample_rate ii v (st, d, i) = Some (st', d', i') \<Longrightarrow> stage ii (Some v) (st, d, i) (st', d', i') \<and> st' = st"
  by (auto simp: sample_rate_def stage_defs split: if_split_asm)

lemma stage_net:
  assumes "sample_net m t (st, d, i) = Some (st', d', i')"
  shows "stage 3 (net_reading (net_stat_before st) (snd (the (NET_stat_read m (net_stat_after st)))) t) (st, d, i) (st', d', i') \<and>
    io_stat_before st' = io_stat_before st \<and> io_stat_after st' = io_stat_after st"
proof (cases "has_stat (flag st) 3")
  case True
  with assms obtain c a where "NET_stat_read m (net_stat_after st) = Some (c, a)"
    by (auto simp: sample_net_def Option.bind_eq_Some_conv)
  with True assms show ?thesis
    by (cases "(rcv_bytes a - rcv_bytes (net_stat_before st)) + (send_bytes a - send_bytes (net_stat_before st)) = 0") (simp_all add: sample_net_def stage_defs net_reading_def rate_reading_def, auto)
qed (use assms in \<open>simp add: sample_net_def stage_def\<close>)


lemma stage_io:
  assumes "sample_io m t (st, d, i) = Some (st', d', i')"
  shows "stage 4 (io_reading (io_stat_before st) (snd (the (sys_IO_stat_read m (io_stat_after st)))) t) (st, d, i) (st', d', i')"
proof (cases "has_stat (flag st) 4")
  case True
  with assms obtain c a where "sys_IO_stat_read m (io_stat_after st) = Some (c, a)"
    by (auto simp: sample_io_def Option.bind_eq_Some_conv)
  with True assms show ?thesis
    by (cases "(read_bytes a - read_bytes (io_stat_before st)) + (write_bytes a - write_bytes (io_stat_before st)) = 0") (simp_all add: sample_io_def stage_defs io_reading_def rate_reading_def, auto)
qed (use assms in \<open>simp add: sample_io_def stage_def\<close>)


lemma stage_frame:
  "stage ii r (st, d, i) (st', d', i') \<Longrightarrow>
    flag st' = flag st \<and> before_time st' = before_time st \<and> events d' = events d \<and> num_events d' = num_events d"
  by (simp add: stage_def)

lemma stage_write:
  "stage ii r (st, d, i) (st', d', i') \<Longrightarrow>
    write_values xs i' (values d') = write_values ((has_stat (flag st) ii, r) # xs) i (values d)"
  by (simp add: stage_def split: option.split)

definition lin_writes :: "machine \<Rightarrow> lin_state \<Rightarrow> (bool \<times> cfp option) list" where
  "lin_writes m st = map (\<lambda>ii. (has_stat (flag st) ii, lin_reading m st ii)) [0, 1, 2, 3, 4]"

lemma sample_writes:
  assumes "mf_Linux_resources_sample m (st, d) = Some (st', d')"
  shows "flag st' = flag st \<and> events d' = events d \<and> num_events d' = num_events d \<and>
    values d' = write_values (lin_writes m st) 0 (values d) \<and> before_time st' = after_time st'"
proof -
  let ?now = "seconds (realtime m)"
  let ?s0 = "st\<lparr>after_time := ?now\<rparr>"
  obtain s1 d1 i1 s2 d2 i2 s3 d3 i3 s4 d4 i4 s5 d5 i5 where
    *: "sample_cpu m (?s0, d, 0) = Some (s1, d1, i1)"
      "sample_rate 1 (RAM_usage_rate_read m) (s1, d1, i1) = Some (s2, d2, i2)"
      "sample_rate 2 (swap_usage_rate_read m) (s2, d2, i2) = Some (s3, d3, i3)"
      "sample_net m (interval_at m st) (s3, d3, i3) = Some (s4, d4, i4)"
      "sample_io m (interval_at m st) (s4, d4, i4) = Some (s5, d5, i5)"
      "st' = s5\<lparr>before_time := after_time s5\<rparr>" "d' = d5"
    using assms by (auto simp: mf_Linux_resources_sample_def Let_def Option.bind_eq_Some_conv interval_at_def)
  note stages = stage_cpu [OF *(1)] stage_rate [OF *(2)] stage_rate [OF *(3)] stage_net [OF *(4)] stage_io [OF *(5)]
  have st: "stage 0 (lin_reading m st 0) (?s0, d, 0) (s1, d1, i1)" "stage 1 (lin_reading m st 1) (s1, d1, i1) (s2, d2, i2)"
    "stage 2 (lin_reading m st 2) (s2, d2, i2) (s3, d3, i3)" "stage 3 (lin_reading m st 3) (s3, d3, i3) (s4, d4, i4)"
    "stage 4 (lin_reading m st 4) (s4, d4, i4) (s5, d5, i5)"
    using stages by (auto simp: lin_reading_def)
  note frames = st [THEN stage_frame]
  then have fl: "flag ?s0 = flag st" "flag s1 = flag st" "flag s2 = flag st" "flag s3 = flag st" "flag s4 = flag st"
    by simp_all
  note w = st [THEN stage_write, symmetric, unfolded fl]
  have "write_values (lin_writes m st) 0 (values d) = values d5"
    by (simp only: lin_writes_def list.map w write_values.simps(1))
  then show ?thesis using frames *(6,7) by simp
qed

lemma sample_nth:
  assumes "mf_Linux_resources_sample m (st, d) = Some (st', d')"
    and "j < length (filter (has_stat (flag st)) [0, 1, 2, 3, 4])" "length (values d) = 32"
  shows "values d' ! j = (case lin_reading m st (filter (has_stat (flag st)) [0, 1, 2, 3, 4] ! j) of
    Some v \<Rightarrow> Some v | None \<Rightarrow> values d ! j)"
proof -
  define F where "F = filter (has_stat (flag st)) [0, 1, 2, 3, 4]"
  have f: "filter fst (lin_writes m st) = map (\<lambda>ii. (has_stat (flag st) ii, lin_reading m st ii)) F"
    by (simp add: lin_writes_def F_def)
  have j: "j < length F" using assms(2) by (simp only: F_def)
  moreover have "length F \<le> 5" using length_filter_le [of "has_stat (flag st)" "[0, 1, 2, 3, 4]"] by (simp add: F_def)
  ultimately have "values d' ! j = (case lin_reading m st (F ! j) of Some v \<Rightarrow> Some v | None \<Rightarrow> values d ! j)"
    using sample_writes [OF assms(1)] write_values_nth [of j "lin_writes m st" 0 "values d", unfolded add_0] assms(3)
    by (simp add: f)
  then show ?thesis by (simp only: F_def)
qed

definition lin_ready :: "cstr list \<Rightarrow> lin_state \<Rightarrow> Plugin_metrics \<Rightarrow> bool" where
  "lin_ready evs st d \<longleftrightarrow> flag st = snd (flag_init evs 0) \<and> events d = enabled_metrics evs \<and>
     num_events d = length (events d) \<and> length (values d) = 32"

lemma sample_aligned:
  assumes "lin_ready evs st d" "mf_Linux_resources_sample m (st, d) = Some (st', d')"
    and "j < num_events d" "events d ! j = Linux_resources_metrics ! ii" "ii < 5"
  shows "lin_ready evs st' d' \<and>
    values d' ! j = (case lin_reading m st ii of Some v \<Rightarrow> Some v | None \<Rightarrow> values d ! j)"
proof -
  define F where "F = filter (has_stat (flag st)) [0, 1, 2, 3, 4]"
  have ev: "events d = map ((!) Linux_resources_metrics) F"
    using assms(1) by (simp only: lin_ready_def enabled_metrics_flag F_def)
  have j: "j < length F" using assms(1,3) ev by (simp add: lin_ready_def)
  have "F ! j \<in> set F" using j by (rule nth_mem)
  then have F5: "F ! j < 5" by (auto simp: F_def)
  have "Linux_resources_metrics ! (F ! j) = Linux_resources_metrics ! ii"
    using assms(4) j ev by simp
  moreover have "distinct Linux_resources_metrics" "length Linux_resources_metrics = 5"
    by (simp_all add: Linux_resources_metrics_def)
  ultimately have "F ! j = ii" using F5 assms(5) by (simp add: nth_eq_iff_index_eq)
  moreover have "values d' ! j = (case lin_reading m st (F ! j) of Some v \<Rightarrow> Some v | None \<Rightarrow> values d ! j)"
    unfolding F_def using j assms(1) by (intro sample_nth [OF assms(2)]) (simp_all only: lin_ready_def F_def)
  moreover have "lin_ready evs st' d'" using sample_writes [OF assms(2)] assms(1) by (simp add: lin_ready_def)
  ultimately show ?thesis by simp
qed

text \<open>
  C12. Values stay with their names: in a connector initialised with the metrics \<open>evs\<close>, a
  sample that reports the event at index \<open>j\<close> has stored there the reading of exactly that
  metric, or kept the previous value when a counter has not moved; events are unchanged.
\<close>

theorem Linux_resources_sample_aligned:
  assumes "lin_ready evs st d" "mf_Linux_resources_sample m (st, d) = Some (st', d')"
    and "j < num_events d" "events d ! j = Linux_resources_metrics ! ii" "ii < 5"
  shows "lin_ready evs st' d' \<and>
    values d' ! j = (case lin_reading m st ii of Some v \<Rightarrow> Some v | None \<Rightarrow> values d ! j)"
  using assms by (rule sample_aligned)

interpretation lin: connector mf_Linux_resources_sample
  by unfold_locales (simp add: sample_writes same_events_def)

subsection \<open>Rates are percentages\<close>

text \<open>The counters of \<^verbatim>\<open>/proc/stat\<close> grew from \<open>b\<close> to \<open>a\<close>, the idle time by no more than the total.\<close>

definition cpu_progress :: "cpu_stats \<Rightarrow> cpu_stats \<Rightarrow> bool" where
  "cpu_progress b a \<longleftrightarrow> total_cpu_time b < total_cpu_time a \<and> total_idle_time b \<le> total_idle_time a \<and>
     total_idle_time a - total_idle_time b \<le> total_cpu_time a - total_cpu_time b"

lemma cpu_reading_range:
  assumes "cpu_progress b a"
  shows "\<exists>p. cpu_reading b a = Some (Fin False p) \<and> 0 \<le> p \<and> p \<le> 100"
proof -
  let ?run = "total_cpu_time a - total_cpu_time b" and ?idle = "total_idle_time a - total_idle_time b"
  have "?idle \<le> ?run" using assms by (simp add: cpu_progress_def)
  then have "unat (?run - ?idle) \<le> unat ?run" by (simp add: unat_sub)
  moreover have "0 < unat ?run"
    using assms by (auto simp: cpu_progress_def unat_gt_0)
  ultimately show ?thesis using percent_of_u64 [of "?run - ?idle" ?run] assms
    by (auto simp: cpu_reading_def cpu_progress_def)
qed

text \<open>
  C21. A sampled CPU usage rate is a percentage: when the counters of \<^verbatim>\<open>/proc/stat\<close> have grown
  since the previous reading, the idle time by no more than the total, the value stored under
  \<open>CPU_usage_rate\<close> is a finite number between 0 and 100, in spite of the rounding in
  \<open>double\<close> and \<open>float\<close>.
\<close>

theorem CPU_usage_rate_range:
  assumes "lin_ready evs st d" "mf_Linux_resources_sample m (st, d) = Some (st', d')"
    and "j < num_events d" "events d ! j = ''CPU_usage_rate''"
    and "CPU_stat_read m (cpu_stat_after st) = Some (rc, a)" "cpu_progress (cpu_stat_before st) a"
  shows "\<exists>p. values d' ! j = Some (Fin False p) \<and> 0 \<le> p \<and> p \<le> 100"
proof -
  have "events d ! j = Linux_resources_metrics ! 0" using assms(4) by (simp add: Linux_resources_metrics_def)
  from sample_aligned [OF assms(1-3) this]
  have "values d' ! j = (case cpu_reading (cpu_stat_before st) a of Some v \<Rightarrow> Some v | None \<Rightarrow> values d ! j)"
    by (simp add: lin_reading_def assms(5))
  then show ?thesis using cpu_reading_range [OF assms(6)] by auto
qed

subsection \<open>Memory\<close>

text \<open>A line of \<^verbatim>\<open>/proc/meminfo\<close>, and one that the loop over it passes by.\<close>

definition meminfo_line :: "cstr \<Rightarrow> nat \<Rightarrow> cstr" where
  "meminfo_line key n = key @ ''       '' @ show_nat n @ '' kB''"

definition other_line :: "cstr \<Rightarrow> cstr \<Rightarrow> cstr \<Rightarrow> bool" where
  "other_line k1 k2 line \<longleftrightarrow> \<not> prefix k1 (c_string (line @ [NL])) \<and> \<not> prefix k2 (c_string (line @ [NL])) \<and>
     NL \<notin> set line \<and> length line \<le> 1022"

lemma scan_into_other: "\<not> prefix k (c_string line) \<Longrightarrow> scan_into k (c_string line) v = v"
  by (simp add: scan_into_def strncmp_eq_prefix)

lemma c_string_meminfo: "NUL \<notin> set k \<Longrightarrow> c_string (meminfo_line k n @ [NL]) = meminfo_line k n @ [NL]"
  by (intro c_string_id) (auto simp: meminfo_line_def show_nat_not isdigit_def)

lemma scan_into_meminfo:
  assumes "NUL \<notin> set k" "n < 2 ^ 31"
  shows "scan_into k (c_string (meminfo_line k n @ [NL])) v = of_nat n"
proof -
  have "scan_number (show_nat n @ '' kB'' @ [NL]) = Some (False, n, '' kB'' @ [NL])"
    by (rule scan_number_show_nat) (simp add: isdigit_def)
  then have "scan_s32 (show_nat n @ '' kB'' @ [NL]) = Some (to_s32 (int n), '' kB'' @ [NL])"
    using assms(2) by (simp add: scan_s32_def clamp_long_def)
  then have "scan_s32 (''       '' @ show_nat n @ '' kB'' @ [NL]) = Some (to_s32 (int n), '' kB'' @ [NL])"
    by (simp add: scan_spaces isspace_def)
  moreover have "strncmp_eq (meminfo_line k n @ [NL]) k (length k)" by (simp add: strncmp_eq_def meminfo_line_def)
  ultimately show ?thesis
    unfolding scan_into_def c_string_meminfo [OF assms(1)] by (simp add: meminfo_line_def to_s32_def)
qed

lemma meminfo_skip:
  assumes "\<forall>l \<in> set ls. other_line k1 k2 l" "t * f = 0"
  shows "meminfo_rate k1 k2 (map (\<lambda>l. l @ [NL]) ls @ rest) t f = meminfo_rate k1 k2 rest t f"
  using assms by (induction ls) (simp_all add: other_line_def scan_into_other)

lemma meminfo_rate_text:
  assumes "\<forall>l \<in> set (xs @ ys @ zs). other_line k1 k2 l" "NUL \<notin> set k1" "NUL \<notin> set k2"
    and "\<not> prefix k1 k2" "\<not> prefix k2 k1" "t < 2 ^ 31" "f < 2 ^ 31"
  shows "meminfo_rate k1 k2 (map (\<lambda>l. l @ [NL]) (xs @ meminfo_line k1 t # ys @ meminfo_line k2 f # zs)) 0 0 =
    (if (of_nat (t * f) :: s32) = 0 then fp_zero else percent_free (of_nat t) (of_nat f))"
proof -
  have pre: "prefix k (meminfo_line k n @ [NL])" for k n by (simp add: meminfo_line_def)
  have no: "\<not> prefix k2 (c_string (meminfo_line k1 t @ [NL]))" "\<not> prefix k1 (c_string (meminfo_line k2 f @ [NL]))"
    unfolding c_string_meminfo [OF assms(2)] c_string_meminfo [OF assms(3)]
    using assms(4,5) prefix_same_cases pre by blast+
  have z: "\<forall>l \<in> set xs. other_line k1 k2 l" "\<forall>l \<in> set ys. other_line k1 k2 l" "\<forall>l \<in> set zs. other_line k1 k2 l"
    using assms(1) by simp_all
  show ?thesis
    using meminfo_skip [OF z(3), of "of_nat t" "of_nat f" "[]"]
    by (simp add: meminfo_skip [OF z(1)] meminfo_skip [OF z(2)] scan_into_other [OF no(1)] scan_into_other [OF no(2)]
        scan_into_meminfo [OF assms(2,6)] scan_into_meminfo [OF assms(3,7)])
qed

text \<open>The text of \<^verbatim>\<open>/proc/meminfo\<close>, with the two lines a rate is computed from.\<close>

definition meminfo_text :: "cstr \<Rightarrow> cstr \<Rightarrow> cstr list \<Rightarrow> nat \<Rightarrow> cstr list \<Rightarrow> nat \<Rightarrow> cstr list \<Rightarrow> string" where
  "meminfo_text k1 k2 xs t ys f zs =
     concat (map (\<lambda>l. l @ [NL]) (xs @ meminfo_line k1 t # ys @ meminfo_line k2 f # zs))"

lemma meminfo_text_lines:
  assumes "\<forall>l \<in> set (xs @ ys @ zs). other_line k1 k2 l" "NL \<notin> set k1" "NL \<notin> set k2"
    "length k1 \<le> 20" "length k2 \<le> 20" "t < 2 ^ 31" "f < 2 ^ 31"
  shows "fgets_all 1024 (meminfo_text k1 k2 xs t ys f zs) =
    map (\<lambda>l. l @ [NL]) (xs @ meminfo_line k1 t # ys @ meminfo_line k2 f # zs)"
proof -
  have "NL \<notin> set (meminfo_line k n) \<and> length (meminfo_line k n) + 2 \<le> 1024"
    if "NL \<notin> set k" "length k \<le> 20" "n < 2 ^ 31" for k n
    using that length_show_nat [of n 9] by (auto simp: meminfo_line_def show_nat_not isdigit_def)
  then show ?thesis
    unfolding meminfo_text_def using assms by (intro fgets_all_lines) (auto simp: other_line_def)
qed

lemma percent_free_percent:
  assumes "t < 2 ^ 31" "f \<le> t"
  shows "percent_free (of_nat t) (of_nat f) = percent_of (Fin False (of_nat (t - f))) (Fin False (of_nat t))"
proof -
  have u: "sint (of_nat n :: s32) = int n" if "n < 2 ^ 31" for n
    using that by (simp add: signed_of_nat signed_take_bit_int_eq_self)
  have d: "(of_nat t - of_nat f :: s32) = of_nat (t - f)" using assms(2) by (simp add: of_nat_diff)
  show ?thesis unfolding percent_free_def d using assms by (simp only: u fp_of_int_small less_imp_diff_less)
qed

lemma percent_free_range:
  assumes "t < 2 ^ 31" "f \<le> t" "0 < t"
  shows "\<exists>p. percent_free (of_nat t) (of_nat f) = Fin False p \<and> 0 \<le> p \<and> p \<le> 100"
proof -
  have "t \<le> 2 ^ 64" using assms(1) by simp
  then have "(of_nat t :: rat) \<le> of_nat (2 ^ 64)" by (simp only: of_nat_le_iff)
  then have "(of_nat t :: rat) \<le> 2 ^ 64" by simp
  moreover have "1 \<le> (of_nat t :: rat)" using assms(3) by (simp add: Suc_leI)
  ultimately show ?thesis unfolding percent_free_percent [OF assms(1,2)]
    by (intro percent_of_range) simp_all
qed

definition kb_text :: "cstr \<Rightarrow> cstr \<Rightarrow> cstr list \<Rightarrow> nat \<Rightarrow> cstr list \<Rightarrow> nat \<Rightarrow> cstr list \<Rightarrow> machine \<Rightarrow> bool" where
  "kb_text k1 k2 xs t ys f zs m \<longleftrightarrow>
     proc_file m ''/proc/meminfo'' = Some (meminfo_text k1 k2 xs t ys f zs) \<and>
     (\<forall>l \<in> set (xs @ ys @ zs). other_line k1 k2 l) \<and> t < 2 ^ 31 \<and> f \<le> t \<and> 0 < t"

lemma rate_text:
  assumes "kb_text k1 k2 xs t ys f zs m" "NL \<notin> set k1" "NL \<notin> set k2" "NUL \<notin> set k1" "NUL \<notin> set k2"
    "length k1 \<le> 20" "length k2 \<le> 20" "\<not> prefix k1 k2" "\<not> prefix k2 k1"
  shows "meminfo_rate k1 k2 (fgets_all 1024 (meminfo_text k1 k2 xs t ys f zs)) 0 0 =
    (if (of_nat (t * f) :: s32) = 0 then fp_zero else percent_free (of_nat t) (of_nat f))"
proof -
  have "f < 2 ^ 31" using assms(1) unfolding kb_text_def by linarith
  then show ?thesis
    using meminfo_text_lines [of xs ys zs k1 k2 t f] meminfo_rate_text [of xs ys zs k1 k2 t f] assms
    by (simp add: kb_text_def)
qed

text \<open>
  C25. The RAM usage rate of a \<^verbatim>\<open>/proc/meminfo\<close> with the total \<open>t\<close> and the free memory
  \<open>f\<close> in kB, whatever the other lines: the percentage of \<open>t\<close> that is in use, a number
  between 0 and 100, unless the 32-bit product of \<open>t\<close> and \<open>f\<close>, by which the code tests
  that it has read both, wraps to zero.
\<close>

theorem RAM_usage_rate_correct:
  assumes "kb_text ''MemTotal:'' ''MemFree:'' xs t ys f zs m" "\<not> 2 ^ 32 dvd t * f"
  shows "RAM_usage_rate_read m = percent_free (of_nat t) (of_nat f) \<and>
    (\<exists>p. RAM_usage_rate_read m = Fin False p \<and> 0 \<le> p \<and> p \<le> 100)"
proof -
  have "(of_nat (t * f) :: s32) \<noteq> 0" using assms(2) by (simp add: word_of_nat_eq_0_iff del: of_nat_mult)
  then have "RAM_usage_rate_read m = percent_free (of_nat t) (of_nat f)"
    using rate_text [OF assms(1)] assms(1) by (simp add: RAM_usage_rate_read_def kb_text_def del: of_nat_mult)
  then show ?thesis using percent_free_range [of t f] assms(1) by (simp add: kb_text_def)
qed

lemma percent_3_4: "percent_free (of_nat 80) (of_nat 20) = Fin False 75"
  using percent_free_percent [of 80 20] percent_of_exact [of 60 75 80] by simp

theorem RAM_usage_rate_correct_witness:
  "RAM_usage_rate_read (sample_machine\<lparr>proc_file := (\<lambda>_. Some (meminfo_text ''MemTotal:'' ''MemFree:'' [] 80 [] 20 []))\<rparr>) =
   Fin False 75"
  using RAM_usage_rate_correct [of "[]" 80 "[]" 20 "[]"
      "sample_machine\<lparr>proc_file := (\<lambda>_. Some (meminfo_text ''MemTotal:'' ''MemFree:'' [] 80 [] 20 []))\<rparr>"] percent_3_4
  by (simp add: kb_text_def)

text \<open>
  A swap area in full use is reported as unused: with \<open>SwapFree: 0 kB\<close> the test that
  both values have been read never succeeds, and the rate stays 0.
\<close>

theorem swap_full_reports_zero:
  assumes "kb_text ''SwapTotal:'' ''SwapFree:'' xs t ys 0 zs m"
  shows "swap_usage_rate_read m = fp_zero"
  using rate_text [OF assms] assms by (simp add: swap_usage_rate_read_def kb_text_def)

theorem swap_full_reports_zero_witness:
  "swap_usage_rate_read (sample_machine\<lparr>proc_file := (\<lambda>_. Some (meminfo_text ''SwapTotal:'' ''SwapFree:'' [] 80 [] 0 []))\<rparr>) = fp_zero"
  by (rule swap_full_reports_zero [of "[]" 80 "[]" "[]"]) (simp add: kb_text_def)


definition sample_lin :: lin_state where
  "sample_lin = lin_start\<lparr>flag := snd (flag_init sample_wanted 0)\<rparr>"

definition sample_data :: Plugin_metrics where
  "sample_data = \<lparr>events = [''CPU_usage_rate'', ''RAM_usage_rate''], values = replicate 32 None, num_events = 2\<rparr>"

lemma sample_lin_ready: "lin_ready sample_wanted sample_lin sample_data"
  by (simp add: lin_ready_def sample_lin_def sample_data_def enabled_metrics_def sample_wanted_def Linux_resources_metrics_def)

lemma sample_lin_sample:
  obtains st' d' where "mf_Linux_resources_sample sample_machine (sample_lin, sample_data) = Some (st', d')"
proof -
  have f: "has_stat (flag sample_lin) ii \<longleftrightarrow> ii = 0 \<or> ii = 1" for ii
    using sample_wanted_flag(1) by (simp add: sample_lin_def)
  have b: "cpu_stat_before sample_lin = \<lparr>total_cpu_time = 0, total_idle_time = 0\<rparr>"
    by (simp add: sample_lin_def lin_start_def)
  have "\<exists>st' d'. mf_Linux_resources_sample sample_machine (sample_lin, sample_data) = Some (st', d')"
    by (simp add: mf_Linux_resources_sample_def sample_cpu_def sample_rate_def sample_net_def sample_io_def f
        sample_cpu_read b sample_data_def Let_def)
  then show ?thesis using that by auto
qed

theorem Linux_resources_sample_aligned_witness:
  "\<exists>st' d'. mf_Linux_resources_sample sample_machine (sample_lin, sample_data) = Some (st', d') \<and>
     values d' ! 1 = Some (RAM_usage_rate_read sample_machine)"
proof -
  obtain st' d' where s: "mf_Linux_resources_sample sample_machine (sample_lin, sample_data) = Some (st', d')"
    using sample_lin_sample .
  have "events sample_data ! 1 = Linux_resources_metrics ! 1" "1 < num_events sample_data"
    by (simp_all add: sample_data_def Linux_resources_metrics_def)
  from Linux_resources_sample_aligned [OF sample_lin_ready s this(2,1)] s show ?thesis
    by (simp add: lin_reading_def)
qed

theorem CPU_usage_rate_range_witness:
  "\<exists>st' d' p. mf_Linux_resources_sample sample_machine (sample_lin, sample_data) = Some (st', d') \<and>
     values d' ! 0 = Some (Fin False p) \<and> 0 \<le> p \<and> p \<le> 100"
proof -
  obtain st' d' where s: "mf_Linux_resources_sample sample_machine (sample_lin, sample_data) = Some (st', d')"
    using sample_lin_sample .
  have "events sample_data ! 0 = ''CPU_usage_rate''" "0 < num_events sample_data"
    by (simp_all add: sample_data_def)
  moreover have "cpu_progress (cpu_stat_before sample_lin) \<lparr>total_cpu_time = 100, total_idle_time = 90\<rparr>"
    by (simp add: cpu_progress_def sample_lin_def lin_start_def)
  ultimately show ?thesis
    using CPU_usage_rate_range [OF sample_lin_ready s _ _ sample_cpu_read] s by simp
qed

subsection \<open>Disk I/O of all processes\<close>

text \<open>The entries of \<^verbatim>\<open>/proc\<close> that are processes, and the structures read for them.\<close>

definition proc_pids :: "cstr list \<Rightarrow> int list" where
  "proc_pids names = map atoi (filter (\<lambda>n. n \<noteq> [] \<and> isdigit (hd n)) names)"

definition pid_io :: "machine \<Rightarrow> int \<Rightarrow> io_stats" where
  "pid_io m pid = (case process_IO_stat_read m pid of Some (Some io) \<Rightarrow> io | _ \<Rightarrow> \<lparr>read_bytes = 0, write_bytes = 0\<rparr>)"

lemma sys_IO_entries:
  assumes "\<forall>pid \<in> set (proc_pids names). process_IO_stat_read m pid \<noteq> None"
  shows "foldM (sys_IO_entry m) names tot = Some
    \<lparr>read_bytes = read_bytes tot + sum_list (map (\<lambda>p. read_bytes (pid_io m p)) (proc_pids names)),
     write_bytes = write_bytes tot + sum_list (map (\<lambda>p. write_bytes (pid_io m p)) (proc_pids names))\<rparr>"
  using assms
proof (induction names arbitrary: tot)
  case (Cons n ns)
  then show ?case
    by (cases "n \<noteq> [] \<and> isdigit (hd n)")
      (auto simp: sys_IO_entry_def proc_pids_def pid_io_def add.assoc split: option.splits)
qed (simp add: proc_pids_def)

text \<open>
  The disk I/O of the whole system is the sum, modulo 2^64, over the processes in
  \<^verbatim>\<open>/proc\<close>, each once; entries that are not numeric and processes whose file cannot be opened
  do not contribute. The previous contents of the structure do not matter.
\<close>

theorem sys_IO_sum:
  assumes "proc_dir m = Some names" "\<forall>pid \<in> set (proc_pids names). process_IO_stat_read m pid \<noteq> None"
  shows "sys_IO_stat_read m info = Some (1,
    \<lparr>read_bytes = sum_list (map (\<lambda>p. read_bytes (pid_io m p)) (proc_pids names)),
     write_bytes = sum_list (map (\<lambda>p. write_bytes (pid_io m p)) (proc_pids names))\<rparr>)"
  using sys_IO_entries [OF assms(2), of "\<lparr>read_bytes = 0, write_bytes = 0\<rparr>"] assms(1)
  by (simp add: sys_IO_stat_read_def)

definition sample_proc :: machine where
  "sample_proc = \<lparr>proc_file = (\<lambda>f. if f = ''/proc/7/io'' then
       Some (''read_bytes: 3'' @ [NL] @ ''write_bytes: 4'' @ [NL]) else None),
     proc_dir = Some [''.'', ''7'', ''8'', ''net''], realtime = \<lparr>sec = 0, nsec = 0\<rparr>\<rparr>"

lemma sample_proc_pids: "proc_pids [''.'', ''7'', ''8'', ''net''] = [7, 8]"
  by (simp add: proc_pids_def isdigit_def atoi_def strtol_def scan_simps clamp_long_def to_s32_def)

lemma sample_proc_io:
  "process_IO_stat_read sample_proc 7 = Some (Some \<lparr>read_bytes = 3, write_bytes = 4\<rparr>)"
  "process_IO_stat_read sample_proc 8 = Some None"
proof -
  have l: "fgets_all 256 (''read_bytes: 3'' @ NL # ''write_bytes: 4'' @ NL # []) =
      [''read_bytes: 3'' @ [NL], ''write_bytes: 4'' @ [NL]]"
    by (subst fgets_all_line, simp, simp, subst fgets_all_line, simp, simp) simp
  have s: "show_int 7 = ''7''" "show_int 8 = ''8''" by code_simp+
  show "process_IO_stat_read sample_proc 7 = Some (Some \<lparr>read_bytes = 3, write_bytes = 4\<rparr>)"
    using l by (simp add: process_IO_stat_read_def sample_proc_def s c_string_def strncmp_eq_def scan_at_def skip_def
        scan_simps)
  show "process_IO_stat_read sample_proc 8 = Some None"
    by (simp add: process_IO_stat_read_def sample_proc_def s)
qed

theorem sys_IO_sum_witness:
  "sys_IO_stat_read sample_proc \<lparr>read_bytes = 9, write_bytes = 9\<rparr> = Some (1, \<lparr>read_bytes = 3, write_bytes = 4\<rparr>)"
  using sys_IO_sum [of sample_proc "[''.'', ''7'', ''8'', ''net'']"]
  by (simp add: sample_proc_pids sample_proc_io pid_io_def, simp add: sample_proc_def)


subsection \<open>The JSON text\<close>

lemma enabled_metrics_short: "length (enabled_metrics evs) \<le> 5"
  using length_filter_le [of "\<lambda>e. e \<in> set evs" Linux_resources_metrics]
  by (simp add: enabled_metrics_def) (simp add: Linux_resources_metrics_def)

text \<open>
  C26. The JSON text always fits: for any values of type \<open>float\<close>, and any clock before the year
  33000, \<open>mf_Linux_resources_to_json\<close> stays inside its two buffers and yields the type, the
  time in milliseconds and one field per event whose value is not negative, in order.
\<close>

theorem Linux_resources_json:
  assumes "lin_ready evs st d" "printable d" "after_time st = Fin False a" "0 \<le> a" "a \<le> 10 ^ 12"
  shows "mf_Linux_resources_to_json st d =
    Some (json_type ''Linux_resources'' @ json_time (fp_mul binary64 (after_time st) (Fin False 1000)) @
      concat (map (json_field d) [0..<num_events d]))"
proof -
  let ?ms = "fp_mul binary64 (after_time st) (Fin False 1000)"
  have n: "num_events d \<le> 5" using assms(1) enabled_metrics_short [of evs] by (simp add: lin_ready_def)
  have b: "json_begin ''Linux_resources'' ?ms = Some (json_type ''Linux_resources'' @ json_time ?ms)"
    "length (json_type ''Linux_resources'' @ json_time ?ms) \<le> 80"
    using json_begin_fits [of "''Linux_resources''" ?ms] length_show_ms [OF assms(4,5)]
    by (simp_all add: assms(3) json_type_def)
  have "foldM (json_nonnegative d) [0..<num_events d] (json_type ''Linux_resources'' @ json_time ?ms) =
      Some ((json_type ''Linux_resources'' @ json_time ?ms) @ concat (map (json_field d) [0..<num_events d]))"
    using b(2) n assms(2) by (intro json_fields_fit) (auto simp: printable_def JSON_MAX_LEN_def)
  then show ?thesis by (simp only: mf_Linux_resources_to_json_def b Option.bind.bind_lunit append_assoc)
qed

theorem Linux_resources_json_witness:
  "\<exists>t. mf_Linux_resources_to_json (sample_lin\<lparr>after_time := Fin False 7\<rparr>)
     (sample_data\<lparr>values := Some (Fin False 10) # Some (Fin True 1) # replicate 30 None\<rparr>) =
   Some (json_type ''Linux_resources'' @ json_time t @ json_metric ''CPU_usage_rate'' (Fin False 10))"
proof -
  let ?st = "sample_lin\<lparr>after_time := Fin False 7\<rparr>"
  let ?d = "sample_data\<lparr>values := Some (Fin False 10) # Some (Fin True 1) # replicate 30 None\<rparr>"
  have r: "lin_ready sample_wanted ?st ?d" 
    by (simp add: lin_ready_def sample_lin_def sample_data_def enabled_metrics_def sample_wanted_def Linux_resources_metrics_def)
  have e: "event_value ?d 0 = Some (''CPU_usage_rate'', Fin False 10)" "event_value ?d 1 = Some (''RAM_usage_rate'', Fin True 1)"
    by (simp_all add: event_value_def sample_data_def)
  have n: "num_events ?d = 2" by (simp add: sample_data_def)
  then have "printable ?d" using e by (auto simp: printable_def is_float_def less_2_cases_iff)
  from Linux_resources_json [OF r this, of 7] n e show ?thesis
    by (auto simp: upt_rec [of 0] upt_rec [of 1] json_field_def signed_def numeral_2_eq_2)
qed

end
