(* ===== verification/CPU_Perf.thy ===== *)
theory CPU_Perf
  imports Plugin_Metrics
begin

text \<open>
  The CPU_perf connector, \<^verbatim>\<open>plugins/CPU_perf/src/mf_CPU_perf_connector.c\<close>: the rates of
  floating-point instructions, floating-point operations and all instructions of each core,
  from hardware counters. The PAPI library is a parameter: a \<open>papi\<close> holds what its calls
  return during one call of the connector.

  \<open>PAPI_read\<close> copies one counter for each event that was added to the set into the caller's
  array, in the order in which they were added; \<open>papi_counts\<close> states this for the sets that
  \<open>mf_CPU_perf_init\<close> builds.
\<close>

type_synonym s64 = "64 word"

datatype setup_call = Create_eventset | Assign_component | Set_domain | Set_granularity | Attach_cpu

record papi =
  papi_initialized :: bool
  papi_init_ok :: bool
  papi_max_cpus :: int
  papi_setup :: "setup_call \<Rightarrow> nat \<Rightarrow> bool"
  papi_eventset :: "nat \<Rightarrow> int"
  papi_available :: "nat \<Rightarrow> bool"
  papi_start :: "int \<Rightarrow> bool"
  papi_read :: "int \<Rightarrow> s64 list option"
  papi_nsec :: s64

definition PAPI_EVENTS_NUM :: nat where "PAPI_EVENTS_NUM = 3"

definition CPU_perf_metrics :: "cstr list" where
  "CPU_perf_metrics = [''MFLIPS'', ''MFLOPS'', ''MIPS'']"

record perf_state =
  EventSet :: "int list"
  perf_before :: s64
  perf_after :: s64

definition perf_start :: perf_state where
  "perf_start = \<lparr>EventSet = [], perf_before = 0, perf_after = 0\<rparr>"

definition events_are_all_not_valid :: "cstr list \<Rightarrow> cstr list \<Rightarrow> bool" where
  "events_are_all_not_valid metrics evs =
     (fold (\<lambda>e n. fold (\<lambda>ii n. if e = metrics ! ii then n + 1 else n) [0..<length metrics] n) evs (0::nat) = 0)"

subsection \<open>Initialisation\<close>

text \<open>The code and the number of cores, which only the first load of the library limits.\<close>

definition load_papi_library :: "papi \<Rightarrow> int \<Rightarrow> int \<times> int" where
  "load_papi_library p num_cores =
     (if papi_initialized p then (1, num_cores)
      else if \<not> papi_init_ok p then (0, num_cores)
      else if papi_max_cpus p \<le> 0 then (0, num_cores)
      else if papi_max_cpus p < num_cores then (1, papi_max_cpus p)
      else (1, num_cores))"

definition setup_calls :: "setup_call list" where
  "setup_calls = [Create_eventset, Assign_component, Set_domain, Set_granularity, Attach_cpu]"

fun setup_cores :: "papi \<Rightarrow> nat list \<Rightarrow> int list \<Rightarrow> bool \<times> int list" where
  "setup_cores p [] sets = (True, sets)"
| "setup_cores p (i # is) sets =
     (if list_all (\<lambda>c. papi_setup p c i) setup_calls then setup_cores p is (sets @ [papi_eventset p i])
      else (False, sets @ [papi_eventset p i]))"

definition perf_event_name :: "nat \<Rightarrow> nat \<Rightarrow> cstr" where
  "perf_event_name i ii = ''core'' @ show_padded 2 i @ '':'' @ CPU_perf_metrics ! ii"

definition add_perf_event :: "papi \<Rightarrow> nat \<times> nat \<Rightarrow> Plugin_metrics \<Rightarrow> Plugin_metrics option" where
  "add_perf_event p = (\<lambda>(i, ii) d. if papi_available p ii then add_event (perf_event_name i ii) d else Some d)"

definition mf_CPU_perf_init ::
  "papi \<Rightarrow> cstr list \<Rightarrow> int \<Rightarrow> perf_state \<times> Plugin_metrics \<Rightarrow> (int \<times> perf_state \<times> Plugin_metrics) option" where
  "mf_CPU_perf_init p evs num_cores = (\<lambda>(st, d).
     if events_are_all_not_valid CPU_perf_metrics evs then Some (0, st, d)
     else case load_papi_library p num_cores of (loaded, n) \<Rightarrow>
       if loaded = 0 then Some (0, st, d)
       else case setup_cores p [0..<nat n] [] of (ok, sets) \<Rightarrow>
         if \<not> ok then Some (0, st\<lparr>EventSet := sets\<rparr>, d)
         else do {
           d1 \<leftarrow> foldM (add_perf_event p) (List.product [0..<nat n] [0..<PAPI_EVENTS_NUM]) d;
           (let d2 = d1\<lparr>num_events := length (events d1)\<rparr>;
                st2 = st\<lparr>EventSet := sets, perf_before := papi_nsec p\<rparr> in
            if list_all (papi_start p) sets then Some (1, st2, d2) else Some (0, st2, d2))
         })"

subsection \<open>Sampling\<close>

definition perf_rate :: "s64 \<Rightarrow> s64 \<Rightarrow> cfp" where
  "perf_rate duration v =
     fp_div binary32 (fp_conv binary32 (fp_mul binary64 (fp_of_int binary64 (sint v)) (Fin False 1000)))
       (fp_of_int binary32 (sint duration))"

text \<open>
  \<open>buf\<close> is the local array of three counters, \<open>jj\<close> the next index of the values. The first
  component of the result is the code: a failed read ends the call. \<open>PAPI_reset\<close> after each read
  changes only what later reads return, so it is part of the parameter: the counters of a \<open>papi\<close>
  are those since the reset of the call before.
\<close>

definition fill_counters :: "s64 list \<Rightarrow> s64 option list \<Rightarrow> s64 option list option" where
  "fill_counters xs buf = (if length buf < length xs then None else Some (map Some xs @ drop (length xs) buf))"

fun perf_cores ::
  "papi \<Rightarrow> s64 \<Rightarrow> int list \<Rightarrow> nat list \<Rightarrow> s64 option list \<Rightarrow> nat \<Rightarrow> Plugin_metrics \<Rightarrow> (int \<times> Plugin_metrics) option" where
  "perf_cores p duration sets [] buf jj d = Some (1, d)"
| "perf_cores p duration sets (i # is) buf jj d =
     (if length sets \<le> i then None
      else case papi_read p (sets ! i) of None \<Rightarrow> Some (0, d)
      | Some xs \<Rightarrow> do {
          buf' \<leftarrow> fill_counters xs buf;
          vs \<leftarrow> those buf';
          (jj', d') \<leftarrow> put_values (map (perf_rate duration) vs) jj d;
          perf_cores p duration sets is buf' jj' d'
        })"

definition mf_CPU_perf_sample ::
  "papi \<Rightarrow> int \<Rightarrow> perf_state \<times> Plugin_metrics \<Rightarrow> (int \<times> perf_state \<times> Plugin_metrics) option" where
  "mf_CPU_perf_sample p num_cores = (\<lambda>(st, d).
     (let now = papi_nsec p; duration = now - perf_before st in do {
        (rc, d') \<leftarrow> perf_cores p duration (EventSet st) [0..<nat num_cores] (replicate PAPI_EVENTS_NUM None) 0 d;
        Some (rc, if rc = 0 then st\<lparr>perf_after := now\<rparr> else st\<lparr>perf_after := now, perf_before := now\<rparr>, d')
      }))"

text \<open>The JSON text takes its time from the clock and keeps positive values only.\<close>

definition mf_CPU_perf_to_json :: "timestamp \<Rightarrow> Plugin_metrics \<Rightarrow> cstr list \<Rightarrow> cstr option" where
  "mf_CPU_perf_to_json t d evs = do {
     json \<leftarrow> json_begin ''CPU_perf'' (milliseconds t);
     json_selected (\<lambda>name e. strstr name e \<noteq> None) (\<lambda>v. fp_less fp_zero v) d evs json
   }"


lemma those_map_Some [simp]: "those (map Some xs) = Some xs"
  by (induction xs) simp_all

lemma those_map_Some_comp [simp]: "those (map (Some \<circ> f) xs) = Some (map f xs)"
  using those_map_Some [of "map f xs"] by (simp only: map_map)

lemma those_gap: "None \<in> set xs \<Longrightarrow> those xs = None"
  by (induction xs) (auto split: option.split)

text \<open>
  The counters of a set, in the order in which initialisation added the events.
\<close>

definition papi_counts :: "papi \<Rightarrow> perf_state \<Rightarrow> (nat \<Rightarrow> nat \<Rightarrow> s64) \<Rightarrow> bool" where
  "papi_counts p st count \<longleftrightarrow> (\<forall>i < length (EventSet st).
     papi_read p (EventSet st ! i) = Some (map (count i) (filter (papi_available p) [0..<PAPI_EVENTS_NUM])))"

definition all_available :: "papi \<Rightarrow> bool" where
  "all_available p \<longleftrightarrow> (\<forall>ii < PAPI_EVENTS_NUM. papi_available p ii)"

lemma upt_3: "[0..<PAPI_EVENTS_NUM] = [0, 1, 2]"
  by (simp add: PAPI_EVENTS_NUM_def upt_rec numeral_eq_Suc)

lemma available_events: "all_available p \<Longrightarrow> filter (papi_available p) [0..<PAPI_EVENTS_NUM] = [0..<PAPI_EVENTS_NUM]"
  by (simp add: all_available_def)

lemma setup_cores_sets:
  "setup_cores p is sets = (ok, sets') \<Longrightarrow> ok \<Longrightarrow> sets' = sets @ map (papi_eventset p) is"
  by (induction p "is" sets rule: setup_cores.induct) (auto split: if_split_asm)

lemma add_perf_events:
  "foldM (add_perf_event p) xs d = Some d' \<Longrightarrow> values d' = values d \<and>
   events d' = events d @ map (\<lambda>(i, ii). perf_event_name i ii) (filter (\<lambda>(i, ii). papi_available p ii) xs)"
proof (induction xs arbitrary: d)
  case (Cons x xs)
  obtain i ii where x: "x = (i, ii)" by (cases x)
  from Cons.prems obtain d1 where d1: "add_perf_event p x d = Some d1" "foldM (add_perf_event p) xs d1 = Some d'"
    by (auto simp: Option.bind_eq_Some_conv)
  then have "values d1 = values d \<and> events d1 = events d @ (if papi_available p ii then [perf_event_name i ii] else [])"
    by (auto simp: add_perf_event_def x dest: add_event_Some split: if_split_asm)
  with Cons.IH [OF d1(2)] show ?case by (simp add: x)
qed simp

lemma add_perf_events_length:
  "foldM (add_perf_event p) xs d = Some d' \<Longrightarrow> length (events d) \<le> MAX_EVENTS_NUMBER \<Longrightarrow>
   length (events d') \<le> MAX_EVENTS_NUMBER"
  by (erule foldM_invariant) (auto simp: add_perf_event_def add_event_def c_safe Option.bind_eq_Some_conv split: if_split_asm)

lemma sample_cores:
  assumes "\<forall>i \<in> set is. i < length sets \<and> papi_read p (sets ! i) = Some (map (count i) [0..<PAPI_EVENTS_NUM])"
    and "length buf = PAPI_EVENTS_NUM" "jj + 3 * length is \<le> length (values d)"
  shows "\<exists>d'. perf_cores p duration sets is buf jj d = Some (1, d') \<and>
    put_values (map (\<lambda>(i, ii). perf_rate duration (count i ii)) (List.product is [0..<PAPI_EVENTS_NUM])) jj d =
      Some (jj + 3 * length is, d')"
  using assms
proof (induction "is" arbitrary: buf jj d)
  case (Cons i js)
  let ?vs = "map (perf_rate duration) (map (count i) [0..<PAPI_EVENTS_NUM])"
  have f: "fill_counters (map (count i) [0..<PAPI_EVENTS_NUM]) buf = Some (map Some (map (count i) [0..<PAPI_EVENTS_NUM]))"
    using Cons.prems(2) by (simp add: fill_counters_def)
  obtain d1 where d1: "put_values ?vs jj d = Some (jj + 3, d1)"
    using Cons.prems(3) by (simp add: upt_3)
  have len: "length (values d1) = length (values d)" using put_values_spec [OF d1] by (simp add: same_events_def)
  obtain d' where d': "perf_cores p duration sets js (map Some (map (count i) [0..<PAPI_EVENTS_NUM])) (jj + 3) d1 = Some (1, d')"
    "put_values (map (\<lambda>(i, ii). perf_rate duration (count i ii)) (List.product js [0..<PAPI_EVENTS_NUM])) (jj + 3) d1 =
      Some (jj + 3 + 3 * length js, d')"
    using Cons.IH [of "map Some (map (count i) [0..<PAPI_EVENTS_NUM])" "jj + 3" d1] Cons.prems len
    by (auto simp: PAPI_EVENTS_NUM_def)
  have "put_values (map (\<lambda>(i, ii). perf_rate duration (count i ii)) (List.product (i # js) [0..<PAPI_EVENTS_NUM])) jj d =
      Some (jj + 3 * length (i # js), d')"
    using d1 d'(2) by (simp add: put_values_append comp_def algebra_simps)
  moreover have "perf_cores p duration sets (i # js) buf jj d = Some (1, d')"
    using Cons.prems(1) f d1 d'(1) by simp
  ultimately show ?case by blast
qed simp

lemma sample_stuck:
  assumes "\<exists>i \<in> set is. length sets \<le> i" "\<forall>i < length sets. papi_read p (sets ! i) \<noteq> None"
  shows "perf_cores p duration sets is buf jj d = None"
  using assms
proof (induction "is" arbitrary: buf jj d)
  case (Cons i js)
  show ?case
  proof (cases "length sets \<le> i")
    case False
    then have "\<exists>i \<in> set js. length sets \<le> i" using Cons.prems(1) by auto
    with Cons.IH Cons.prems(2) have "perf_cores p duration sets js b j e = None" for b j e by blast
    then show ?thesis using Cons.prems(2) False by (auto split: option.split Option.bind_split)
  qed simp
qed simp

lemma init_facts:
  assumes "mf_CPU_perf_init p evs n (perf_start, metrics_start) = Some (1, st, d)" "\<not> papi_initialized p"
  shows "EventSet st = map (papi_eventset p) [0..<nat (min n (papi_max_cpus p))]" "perf_before st = papi_nsec p"
    "num_events d = length (events d)" "length (values d) = MAX_EVENTS_NUMBER"
    "events d = map (\<lambda>(i, ii). perf_event_name i ii) (filter (\<lambda>(i, ii). papi_available p ii)
      (List.product [0..<nat (min n (papi_max_cpus p))] [0..<PAPI_EVENTS_NUM]))"
    "length (events d) \<le> MAX_EVENTS_NUMBER"
proof -
  have m: "load_papi_library p n = (1, min n (papi_max_cpus p))" if "load_papi_library p n = (k, l)" "k \<noteq> 0" for k l
    using that assms(2) by (auto simp: load_papi_library_def min_def split: if_split_asm)
  obtain l where l: "load_papi_library p n = (1, l)" and lm: "l = min n (papi_max_cpus p)"
    using assms(1) m by (cases "load_papi_library p n") (auto simp: mf_CPU_perf_init_def split: if_split_asm)
  obtain ok sets where s: "setup_cores p [0..<nat l] [] = (ok, sets)" by (cases "setup_cores p [0..<nat l] []")
  have ok: "ok" using assms(1) s l by (auto simp: mf_CPU_perf_init_def split: if_split_asm)
  have sets: "sets = map (papi_eventset p) [0..<nat l]" using setup_cores_sets [OF s ok] by simp
  obtain d1 where e: "foldM (add_perf_event p) (List.product [0..<nat l] [0..<PAPI_EVENTS_NUM]) metrics_start = Some d1"
    and st: "st = perf_start\<lparr>EventSet := sets, perf_before := papi_nsec p\<rparr>"
    and d: "d = d1\<lparr>num_events := length (events d1)\<rparr>"
    using assms(1) s l ok
    by (auto simp: mf_CPU_perf_init_def Let_def Option.bind_eq_Some_conv split: if_split_asm)
  show "EventSet st = map (papi_eventset p) [0..<nat (min n (papi_max_cpus p))]" "perf_before st = papi_nsec p"
    "num_events d = length (events d)" using st d sets lm by simp_all
  show "length (values d) = MAX_EVENTS_NUMBER" "events d = map (\<lambda>(i, ii). perf_event_name i ii) (filter (\<lambda>(i, ii). papi_available p ii)
      (List.product [0..<nat (min n (papi_max_cpus p))] [0..<PAPI_EVENTS_NUM]))"
    using add_perf_events [OF e] d lm by (simp_all add: metrics_start_def)
  show "length (events d) \<le> MAX_EVENTS_NUMBER"
    using add_perf_events_length [OF e] d by (simp add: metrics_start_def)
qed

lemma perf_cores_same:
  "perf_cores p duration sets is buf jj d = Some (rc, d') \<Longrightarrow> same_events d d'"
proof (induction "is" arbitrary: buf jj d)
  case (Cons i js)
  show ?case
  proof (cases "papi_read p (sets ! i)")
    case (Some xs)
    then obtain vs b j e where "put_values vs jj d = Some (j, e)" "perf_cores p duration sets js b j e = Some (rc, d')"
      using Cons.prems by (auto simp: Option.bind_eq_Some_conv split: if_split_asm)
    with Cons.IH put_values_spec same_events_trans show ?thesis by blast
  qed (use Cons.prems in \<open>auto split: if_split_asm\<close>)
qed simp

interpretation perf: connector "\<lambda>(p, n) x. map_option snd (mf_CPU_perf_sample p n x)"
  by unfold_locales (auto simp: mf_CPU_perf_sample_def Let_def Option.bind_eq_Some_conv dest: perf_cores_same)

lemma product_index:
  "i < n \<Longrightarrow> ii < 3 \<Longrightarrow> List.product [0..<n] [0..<PAPI_EVENTS_NUM] ! (3 * i + ii) = (i, ii)"
  by (subst product_nth) (simp_all add: PAPI_EVENTS_NUM_def)

text \<open>
  C29. With all three counters available and no more cores configured than the machine has,
  a sample after initialisation reports, for each core, the rate of each counter over the time
  since initialisation at the index of the event with that core's and metric's name.
\<close>

theorem CPU_perf_sample_correct:
  assumes "mf_CPU_perf_init p0 evs n (perf_start, metrics_start) = Some (1, st, d)"
    "\<not> papi_initialized p0" "n \<le> papi_max_cpus p0" "all_available p0"
    "papi_counts p st count" "all_available p" "i < nat n" "ii < 3"
  shows "\<exists>st' d'. mf_CPU_perf_sample p n (st, d) = Some (1, st', d') \<and> same_events d d' \<and>
    events d' ! (3 * i + ii) = perf_event_name i ii \<and>
    values d' ! (3 * i + ii) = Some (perf_rate (papi_nsec p - papi_nsec p0) (count i ii))"
proof -
  note f = init_facts [OF assms(1,2)]
  let ?xs = "List.product [0..<nat n] [0..<PAPI_EVENTS_NUM]"
  have n: "min n (papi_max_cpus p0) = n" using assms(3) by simp
  have ev: "events d = map (\<lambda>(i, ii). perf_event_name i ii) ?xs"
    using f(5) assms(4) by (auto simp: n all_available_def intro!: arg_cong [where f = "map _"] filter_True)
  then have room: "3 * nat n \<le> length (values d)" using f(4,6) by (simp add: PAPI_EVENTS_NUM_def)
  have "\<forall>i \<in> set [0..<nat n]. i < length (EventSet st) \<and>
      papi_read p (EventSet st ! i) = Some (map (count i) [0..<PAPI_EVENTS_NUM])"
    using assms(5) f(1) by (simp add: papi_counts_def n available_events [OF assms(6)])
  then obtain d' where d': "perf_cores p (papi_nsec p - papi_nsec p0) (EventSet st) [0..<nat n] (replicate PAPI_EVENTS_NUM None) 0 d = Some (1, d')"
    and v: "put_values (map (\<lambda>(i, ii). perf_rate (papi_nsec p - papi_nsec p0) (count i ii)) ?xs) 0 d = Some (3 * nat n, d')"
    using sample_cores [of "[0..<nat n]" "EventSet st" p count "replicate PAPI_EVENTS_NUM None" 0 d] room by auto
  have j: "3 * i + ii < length ?xs" "?xs ! (3 * i + ii) = (i, ii)"
    using assms(7,8) by (simp_all add: PAPI_EVENTS_NUM_def product_index [unfolded PAPI_EVENTS_NUM_def])
  have "same_events d d'" using put_values_spec [OF v] by simp
  moreover have "events d' ! (3 * i + ii) = perf_event_name i ii"
    using \<open>same_events d d'\<close> ev j by (simp add: same_events_def)
  moreover have "values d' ! (3 * i + ii) = Some (perf_rate (papi_nsec p - papi_nsec p0) (count i ii))"
    using values_of_events [OF v j(1)] j(2) by simp
  ultimately show ?thesis using d' f(2) by (auto simp: mf_CPU_perf_sample_def Let_def)
qed

text \<open>
  Otherwise sampling leaves the language although initialisation succeeded: if one of the
  three counters is not available, the array of counters is read past what the library has
  filled; if more cores are configured than exist, event sets that were never made are read.
\<close>

theorem CPU_perf_sample_undefined:
  assumes "mf_CPU_perf_init p0 evs n (perf_start, metrics_start) = Some (1, st, d)"
    "\<not> papi_initialized p0" "papi_counts p st count" "0 < n" "0 < papi_max_cpus p0"
    "\<not> all_available p \<or> papi_max_cpus p0 < n"
  shows "mf_CPU_perf_sample p n (st, d) = None"
proof -
  note f = init_facts(1) [OF assms(1,2)]
  have "perf_cores p t (EventSet st) [0..<nat n] (replicate PAPI_EVENTS_NUM None) 0 d = None" for t
  proof (cases "papi_max_cpus p0 < n")
    case True
    then have "length (EventSet st) \<in> set [0..<nat n]" using f assms(4,5) by simp
    then show ?thesis using assms(3) by (intro sample_stuck) (auto simp: papi_counts_def)
  next
    case False
    then have na: "\<not> all_available p" using assms(6) by blast
    let ?xs = "filter (papi_available p) [0..<PAPI_EVENTS_NUM]"
    have len: "length ?xs < PAPI_EVENTS_NUM"
      using na length_filter_less [of _ "[0..<PAPI_EVENTS_NUM]" "papi_available p"] by (auto simp: all_available_def)
    have "0 < length (EventSet st)" using f assms(4,5) by simp
    then have r: "papi_read p (EventSet st ! 0) = Some (map (count 0) ?xs)" using assms(3) by (simp add: papi_counts_def)
    have "fill_counters (map (count 0) ?xs) (replicate PAPI_EVENTS_NUM None) \<bind> those = None"
      using len by (simp add: fill_counters_def those_gap)
    moreover have "[0..<nat n] = 0 # [1..<nat n]" using assms(4) by (simp add: upt_conv_Cons)
    ultimately show ?thesis using r \<open>0 < length (EventSet st)\<close>
      by (auto split: Option.bind_split_asm Option.bind_split)
  qed
  then show ?thesis by (simp add: mf_CPU_perf_sample_def Let_def)
qed

subsection \<open>Concrete runs\<close>

definition sample_papi :: "s64 \<Rightarrow> papi" where
  "sample_papi t = \<lparr>papi_initialized = False, papi_init_ok = True, papi_max_cpus = 1, papi_setup = (\<lambda>_ _. True),
     papi_eventset = (\<lambda>i. int i + 7), papi_available = (\<lambda>_. True), papi_start = (\<lambda>_. True),
     papi_read = (\<lambda>h. Some [5, 6, 8]), papi_nsec = t\<rparr>"

lemma names_fit: "length (perf_event_name 0 0) < 32" "length (perf_event_name 0 (Suc 0)) < 32" "length (perf_event_name 0 2) < 32"
  by code_simp+

lemma sample_papi_adds:
  "\<exists>d. foldM (add_perf_event (sample_papi 0)) (List.product [0..<1] [0..<PAPI_EVENTS_NUM]) metrics_start = Some d"
  using names_fit by (simp add: upt_3 add_perf_event_def add_event_def sample_papi_def metrics_start_def
      MAX_EVENTS_NUMBER_def MAX_EVENTS_LEN_def)

lemma sample_papi_init:
  assumes "1 \<le> n"
  obtains st d where "mf_CPU_perf_init (sample_papi 0) [''MIPS''] n (perf_start, metrics_start) = Some (1, st, d)"
proof -
  have v: "\<not> events_are_all_not_valid CPU_perf_metrics [''MIPS'']" by code_simp
  have l: "load_papi_library (sample_papi 0) n = (1, 1)"
    using assms by (simp add: load_papi_library_def sample_papi_def)
  have s: "setup_cores (sample_papi 0) [0..<nat 1] [] = (True, [7])"
    by (simp add: setup_calls_def sample_papi_def list_all_def)
  obtain d1 where "foldM (add_perf_event (sample_papi 0)) (List.product [0..<nat 1] [0..<PAPI_EVENTS_NUM]) metrics_start = Some d1"
    using sample_papi_adds by auto
  then show ?thesis using that v l s
    by (simp add: mf_CPU_perf_init_def Let_def) (simp add: sample_papi_def list_all_def)
qed

lemma sample_papi_counts:
  "length (EventSet st) = 1 \<Longrightarrow> papi_counts (sample_papi t) st (\<lambda>i ii. [5, 6, 8] ! ii)"
  by (simp add: papi_counts_def sample_papi_def upt_3)

theorem CPU_perf_sample_correct_witness:
  "\<exists>st d st' d'. mf_CPU_perf_sample (sample_papi 9) 1 (st, d) = Some (1, st', d') \<and>
     events d' ! 2 = ''core00:MIPS'' \<and> values d' ! 2 = Some (perf_rate 9 8)"
proof -
  obtain st d where i: "mf_CPU_perf_init (sample_papi 0) [''MIPS''] 1 (perf_start, metrics_start) = Some (1, st, d)"
    using sample_papi_init [of 1] by auto
  have "length (EventSet st) = 1" using init_facts(1) [OF i] by (simp add: sample_papi_def)
  from sample_papi_counts [OF this] obtain st' d' where
    "mf_CPU_perf_sample (sample_papi 9) 1 (st, d) = Some (1, st', d')" "events d' ! 2 = perf_event_name 0 2"
    "values d' ! 2 = Some (perf_rate 9 8)"
    using CPU_perf_sample_correct [OF i, of "sample_papi 9" "\<lambda>i ii. [5, 6, 8] ! ii" 0 2]
    by (auto simp: all_available_def sample_papi_def numeral_2_eq_2)
  moreover have "perf_event_name 0 2 = ''core00:MIPS''" by code_simp
  ultimately show ?thesis by auto
qed

theorem CPU_perf_sample_undefined_witness:
  "\<exists>st d. mf_CPU_perf_init (sample_papi 0) [''MIPS''] 3 (perf_start, metrics_start) = Some (1, st, d) \<and>
     mf_CPU_perf_sample (sample_papi 9) 3 (st, d) = None"
proof -
  obtain st d where i: "mf_CPU_perf_init (sample_papi 0) [''MIPS''] 3 (perf_start, metrics_start) = Some (1, st, d)"
    using sample_papi_init [of 3] by auto
  have "length (EventSet st) = 1" using init_facts(1) [OF i] by (simp add: sample_papi_def)
  from CPU_perf_sample_undefined [OF i _ sample_papi_counts [OF this, of 9]] i show ?thesis
    by (auto simp: sample_papi_def)
qed

end
