(* ===== verification/Clock.thy ===== *)
theory Clock
  imports Plugin_Metrics
begin

text \<open>
  The clock, as the monitors and plugins read it with \<open>clock_gettime\<close>: the order of time stamps,
  and what is left of it in the floating-point times the program computes from them and prints.
\<close>

instantiation timestamp_ext :: (linorder) linorder
begin

definition less_eq_timestamp_ext :: "'a timestamp_scheme \<Rightarrow> 'a timestamp_scheme \<Rightarrow> bool" where
  "less_eq_timestamp_ext a b \<longleftrightarrow> sec a < sec b \<or>
     sec a = sec b \<and> (nsec a < nsec b \<or> nsec a = nsec b \<and> timestamp.more a \<le> timestamp.more b)"

definition less_timestamp_ext :: "'a timestamp_scheme \<Rightarrow> 'a timestamp_scheme \<Rightarrow> bool" where
  "less_timestamp_ext a b \<longleftrightarrow> a \<le> b \<and> \<not> b \<le> a"

instance
  by intro_classes (auto simp: less_eq_timestamp_ext_def less_timestamp_ext_def intro: timestamp.equality)

end

text \<open>A time between the epoch and 2038.\<close>

definition clock_sane :: "timestamp \<Rightarrow> bool" where
  "clock_sane t \<longleftrightarrow> 0 \<le> sec t \<and> sec t < 2 ^ 31 \<and> 0 \<le> nsec t \<and> nsec t < 10 ^ 9"

lemma clock_saneE:
  assumes "clock_sane t"
  obtains s n where "sec t = int s" "nsec t = int n" "s < 2 ^ 31" "n < 10 ^ 9"
  using assms that [of "nat (sec t)" "nat (nsec t)"] by (auto simp: clock_sane_def)

text \<open>The time in milliseconds is the exact number of seconds and the rounded rest, rounded.\<close>

definition ms_of :: "nat \<Rightarrow> nat \<Rightarrow> rat" where
  "ms_of s n = of_nat (s * 1000) + rnd binary64 (of_nat n / 10 ^ 6)"

lemma ms_rest:
  assumes "n < 10 ^ 9"
  shows "0 \<le> rnd binary64 (of_nat n / 10 ^ 6)" "rnd binary64 (of_nat n / 10 ^ 6) \<le> of_nat 1000" "below_max64 (of_nat n / 10 ^ 6)"
proof -
  have "(of_nat n :: rat) \<le> of_nat (10 ^ 9)" using assms by (simp only: of_nat_le_iff)
  then have q: "(of_nat n :: rat) / 10 ^ 6 \<le> of_nat 1000" by (simp add: field_simps)
  show "0 \<le> rnd binary64 (of_nat n / 10 ^ 6)" by (simp add: rnd_nonneg)
  show "rnd binary64 (of_nat n / 10 ^ 6) \<le> of_nat 1000" by (rule r64_below_nat [OF _ q]) simp_all
  show "below_max64 (of_nat n / 10 ^ 6)" by (rule below_max64I [of _ "of_nat 1000"]) (use q in simp_all)
qed

lemma ms_of_range:
  assumes "s < 2 ^ 31" "n < 10 ^ 9"
  shows "0 \<le> ms_of s n" "ms_of s n \<le> of_nat (2 ^ 31 * 1000 + 1000)"
proof -
  have "(of_nat (s * 1000) :: rat) \<le> of_nat (2 ^ 31 * 1000)" using assms(1) by (simp only: of_nat_le_iff)
  then show "0 \<le> ms_of s n" "ms_of s n \<le> of_nat (2 ^ 31 * 1000 + 1000)"
    using ms_rest [OF assms(2)] unfolding ms_of_def by simp_all
qed

lemma milliseconds_sane:
  assumes "sec t = int s" "nsec t = int n" "s < 2 ^ 31" "n < 10 ^ 9"
  shows "milliseconds t = Fin False (rnd binary64 (ms_of s n))"
proof -
  have m: "fp_mul binary64 (fp_of_int binary64 (sec t)) (Fin False 1000) = Fin False (of_nat (s * 1000))"
    using fp_round64_nat [of "s * 1000" False] assms(3) by (simp add: assms(1) fp_of_int_small)
  have "n < 2 ^ 31" using assms(4) by simp
  then have d: "fp_div binary64 (fp_of_int binary64 (nsec t)) (Fin False (10 ^ 6)) = Fin False (rnd binary64 (of_nat n / 10 ^ 6))"
    using fp_round64 [OF ms_rest(3) [OF assms(4)], of False] by (simp add: assms(2) fp_of_int_small)
  have "below_max64 (ms_of s n)" by (rule below_max64I [OF ms_of_range [OF assms(3,4)]]) simp
  then have "fp_add binary64 (Fin False (of_nat (s * 1000))) (Fin False (rnd binary64 (of_nat n / 10 ^ 6))) =
      Fin False (rnd binary64 (ms_of s n))"
    using ms_of_range(1) [OF assms(3,4)] fp_round64 [of "ms_of s n" False]
    by (auto simp: signed_def fp_of_rat_def Let_def ms_of_def)
  then show ?thesis unfolding milliseconds_def m d .
qed

text \<open>The time in seconds, as the connectors compute it, is a small number.\<close>

lemma seconds_sane:
  assumes "clock_sane t"
  shows "\<exists>a. seconds t = Fin False a \<and> 0 \<le> a \<and> a \<le> 10 ^ 12"
proof -
  obtain s n where t: "sec t = int s" "nsec t = int n" "s < 2 ^ 31" "n < 10 ^ 9" by (rule clock_saneE [OF assms])
  have "(of_nat n :: rat) \<le> of_nat (10 ^ 9)" using t(4) by (simp only: of_nat_le_iff)
  then have q: "(of_nat n :: rat) / 10 ^ 9 \<le> of_nat 1" by (simp add: field_simps)
  let ?q = "rnd binary64 (of_nat n / 10 ^ 9)"
  have r: "0 \<le> ?q" "?q \<le> of_nat 1" by (simp add: rnd_nonneg) (rule r64_below_nat [OF _ q], simp_all)
  have "(of_nat s :: rat) \<le> of_nat (2 ^ 31)" using t(3) by (simp only: of_nat_le_iff)
  then have b: "0 \<le> of_nat s + ?q" "of_nat s + ?q \<le> of_nat (2 ^ 31 + 1)" using r by simp_all
  have "below_max64 (of_nat n / 10 ^ 9)" by (rule below_max64I [of _ "of_nat 1"]) (use q in simp_all)
  moreover have "n < 2 ^ 31" using t(4) by simp
  ultimately have "fp_div binary64 (fp_of_int binary64 (nsec t)) (Fin False (10 ^ 9)) = Fin False ?q"
    using fp_round64 [of "of_nat n / 10 ^ 9" False] by (simp add: t(2) fp_of_int_small)
  moreover have "below_max64 (of_nat s + ?q)" by (rule below_max64I [OF b]) simp
  ultimately have "seconds t = Fin False (rnd binary64 (of_nat s + ?q))"
    using b(1) fp_round64 [of "of_nat s + ?q" False] fp_round64_nat [of s False] t(3)
    by (auto simp: seconds_def t(1) fp_of_int_small signed_def fp_of_rat_def Let_def)
  moreover have "rnd binary64 (of_nat s + ?q) \<le> of_nat (2 ^ 31 + 1)" by (rule r64_below_nat [OF b]) simp
  ultimately show ?thesis using rnd_nonneg [OF b(1)] by simp
qed

lemma length_sane_clock:
  assumes "clock_sane t"
  shows "length (show_fp 1 (milliseconds t)) \<le> 19"
proof -
  obtain s n where t: "sec t = int s" "nsec t = int n" "s < 2 ^ 31" "n < 10 ^ 9" by (rule clock_saneE [OF assms])
  note r = ms_of_range [OF t(3,4)]
  have b: "rnd binary64 (ms_of s n) \<le> of_nat (2 ^ 31 * 1000 + 1000)" by (rule r64_below_nat [OF r]) simp
  have "length (show_fp (Suc 0) (Fin False (rnd binary64 (ms_of s n)))) \<le> Suc 12 + Suc 0 + 2"
    by (rule length_show_fp [OF rnd_nonneg [OF r(1)]]) (use b in simp)
  then show ?thesis using milliseconds_sane [OF t] by simp
qed

text \<open>The printed times are in the order of the clock.\<close>

lemma milliseconds_mono:
  assumes "clock_sane t" "clock_sane t'" "t \<le> (t' :: timestamp)"
  shows "fp_le (milliseconds t) (milliseconds t')"
proof -
  obtain s n where t: "sec t = int s" "nsec t = int n" "s < 2 ^ 31" "n < 10 ^ 9" by (rule clock_saneE [OF assms(1)])
  obtain s' n' where t': "sec t' = int s'" "nsec t' = int n'" "s' < 2 ^ 31" "n' < 10 ^ 9" by (rule clock_saneE [OF assms(2)])
  have "ms_of s n \<le> ms_of s' n'"
  proof (cases "s = s'")
    case True
    then have "n \<le> n'" using assms(3) t t' by (auto simp: less_eq_timestamp_ext_def)
    then have "(of_nat n :: rat) / 10 ^ 6 \<le> of_nat n' / 10 ^ 6" by (simp add: divide_right_mono)
    then have "rnd binary64 (of_nat n / 10 ^ 6) \<le> rnd binary64 (of_nat n' / 10 ^ 6)" by (intro r64.mono) simp_all
    then show ?thesis by (simp add: ms_of_def True)
  next
    case False
    then have "s * 1000 + 1000 \<le> s' * 1000" using assms(3) t t' by (auto simp: less_eq_timestamp_ext_def)
    then have "(of_nat (s * 1000 + 1000) :: rat) \<le> of_nat (s' * 1000)" by (simp only: of_nat_le_iff)
    then show ?thesis using ms_rest(2) [OF t(4)] ms_rest(1) [OF t'(4)] unfolding ms_of_def by simp
  qed
  then have "rnd binary64 (ms_of s n) \<le> rnd binary64 (ms_of s' n')"
    using ms_of_range(1) [OF t(3,4)] by (intro r64.mono)
  then show ?thesis using rnd_nonneg [OF ms_of_range(1) [OF t(3,4)]]
    by (simp add: milliseconds_sane [OF t] milliseconds_sane [OF t'] signed_def)
qed

end
