(* ===== verification/Monitor_Common.thy ===== *)
theory Monitor_Common
  imports Plugin_Metrics Clock
begin

text \<open>
  What the monitors of the application API (\<^verbatim>\<open>api/src/*_monitor.c\<close>) share: the file a
  monitor appends its lines to, the texts it formats, and the reading of a process's run time
  from \<^verbatim>\<open>/proc/<pid>/stat\<close>. A \<open>machine\<close> is the \<^verbatim>\<open>/proc\<close> file system and the clock at one
  moment; a monitor is given one for each of its rounds.
\<close>

definition pid_file :: "int \<Rightarrow> cstr \<Rightarrow> cstr" where
  "pid_file pid name = ''/proc/'' @ show_int pid @ ''/'' @ name"

text \<open>
  The data file of a metric, opened for appending: its name, when the 256 characters suffice,
  and whether it can be opened (\<open>can_append\<close>, a fact about the file system).
\<close>

definition data_file :: "cstr \<Rightarrow> cstr \<Rightarrow> cstr option" where
  "data_file DataPath metric = c_store 256 (DataPath @ ''/'' @ metric)"

text \<open>The parts of a line: the time stamp and the values, as \<open>fprintf\<close> formats them.\<close>

definition quoted :: "cstr \<Rightarrow> cstr" where
  "quoted s = [DQ] @ s @ [DQ]"

definition stamp_text :: "cfp \<Rightarrow> cstr" where
  "stamp_text ms = quoted ''local_timestamp'' @ '':'' @ quoted (show_fp 1 ms)"

definition float_text :: "cstr \<Rightarrow> cfp \<Rightarrow> cstr" where
  "float_text name v = '', '' @ quoted name @ '':'' @ show_fp 3 v"

definition count_text :: "cstr \<Rightarrow> u64 \<Rightarrow> cstr" where
  "count_text name v = '', '' @ quoted name @ '':'' @ show_nat (unat v)"

subsection \<open>The run time of a process\<close>

text \<open>The conversions \<open>%s\<close> and \<open> %c\<close>, and \<open>n\<close> integer conversions in a row.\<close>

definition scan_word :: "cstr \<Rightarrow> (cstr \<times> cstr) option" where
  "scan_word s =
     (let t = dropWhile isspace s; w = takeWhile (\<lambda>c. \<not> isspace c) t in
      if w = [] then None else Some (w, dropWhile (\<lambda>c. \<not> isspace c) t))"

definition scan_char :: "cstr \<Rightarrow> (char \<times> cstr) option" where
  "scan_char s = (case dropWhile isspace s of [] \<Rightarrow> None | c # t \<Rightarrow> Some (c, t))"

fun skip_numbers :: "nat \<Rightarrow> cstr \<Rightarrow> cstr option" where
  "skip_numbers 0 s = Some s"
| "skip_numbers (Suc n) s = (case scan_number s of None \<Rightarrow> None | Some (_, _, r) \<Rightarrow> skip_numbers n r)"

text \<open>
  \<open>sscanf(line, "%d %s %c %d %d %d %d %d %u %lu %lu %lu %lu %lu %lu", ...)\<close>: the last two
  are the user and the system time, the word goes to \<open>char tmp_str[32]\<close>. When a conversion
  before them fails, the two variables stay indeterminate, and the code adds them all the same.
\<close>

definition proc_times :: "cstr \<Rightarrow> (u64 \<times> u64) option" where
  "proc_times line = do {
     s1 \<leftarrow> skip_numbers 1 line;
     (w, s2) \<leftarrow> scan_word s1;
     _ \<leftarrow> c_store 32 w;
     (_, s3) \<leftarrow> scan_char s2;
     s4 \<leftarrow> skip_numbers 10 s3;
     (u, s5) \<leftarrow> scan_u64 s4;
     (s, _) \<leftarrow> scan_u64 s5;
     Some (u, s)
   }"

definition first_line :: "nat \<Rightarrow> string \<Rightarrow> cstr option" where
  "first_line cap f = (case fgets_all cap f of [] \<Rightarrow> None | l # _ \<Rightarrow> Some (c_string l))"

definition process_time :: "string \<Rightarrow> u64 option" where
  "process_time f = do {
     line \<leftarrow> first_line 1024 f;
     (u, s) \<leftarrow> proc_times line;
     Some (u + s)
   }"

subsection \<open>Reading a well-formed line\<close>

text \<open>The text the kernel writes: \<open>ns\<close> are the ten numbers between the state and the times.\<close>

definition stat_text :: "nat \<Rightarrow> cstr \<Rightarrow> char \<Rightarrow> int list \<Rightarrow> nat \<Rightarrow> nat \<Rightarrow> cstr \<Rightarrow> cstr" where
  "stat_text pid comm state ns utime stime rest =
     show_nat pid @ '' ('' @ comm @ '') '' @ [state] @ concat (map (\<lambda>n. '' '' @ show_int n) ns) @
     '' '' @ show_nat utime @ '' '' @ show_nat stime @ rest"

lemma scan_number_space: "isspace c \<Longrightarrow> scan_number (c # s) = scan_number s"
  by (simp add: scan_number_def)

lemma scan_number_show_int:
  assumes "s = [] \<or> \<not> isdigit (hd s)"
  shows "\<exists>neg n. scan_number (show_int i @ s) = Some (neg, n, s)"
proof (cases "i < 0")
  case False
  then show ?thesis using scan_number_show_nat [OF assms] by (auto simp: show_int_def)
next
  case True
  obtain c t where ct: "show_nat (nat (- i)) = c # t" by (cases "show_nat (nat (- i))") auto
  have d: "\<forall>x \<in> set (show_nat (nat (- i))). isdigit x" using show_nat_digits by blast
  then have "takeWhile isdigit (show_nat (nat (- i)) @ s) = show_nat (nat (- i))"
    "dropWhile isdigit (show_nat (nat (- i)) @ s) = s"
    using assms by (cases s; simp)+
  then show ?thesis using True by (auto simp: show_int_def scan_number_def scan_sign_def isspace_def)
qed

lemma skip_numbers_ints:
  assumes "s \<noteq> []" "\<not> isdigit (hd s)"
  shows "skip_numbers (length ns) (concat (map (\<lambda>n. '' '' @ show_int n) ns) @ s) = Some s"
proof (induction ns)
  case (Cons n ns)
  let ?r = "concat (map (\<lambda>n. '' '' @ show_int n) ns) @ s"
  have "?r = [] \<or> \<not> isdigit (hd ?r)" using assms by (cases ns) (simp_all add: isdigit_def)
  then obtain neg k where "scan_number (show_int n @ ?r) = Some (neg, k, ?r)" using scan_number_show_int by blast
  then show ?case using Cons by (simp add: scan_number_space isspace_def)
qed simp

lemma scan_u64_show_nat:
  assumes "s = [] \<or> \<not> isdigit (hd s)" "n < 2 ^ 64"
  shows "scan_u64 (show_nat n @ s) = Some (of_nat n, s)"
  using scan_number_show_nat [OF assms(1), of n] assms(2) by (simp add: scan_u64_def)

lemma scan_u64_space: "isspace c \<Longrightarrow> scan_u64 (c # s) = scan_u64 s"
  by (simp add: scan_u64_def scan_number_space)

lemma scan_word_plain:
  assumes "w \<noteq> []" "\<forall>c \<in> set w. \<not> isspace c" "s = [] \<or> isspace (hd s)"
  shows "scan_word (w @ s) = Some (w, s)"
proof -
  have "dropWhile isspace (w @ s) = w @ s" using assms by (cases w) auto
  moreover have "takeWhile (\<lambda>c. \<not> isspace c) (w @ s) = w" "dropWhile (\<lambda>c. \<not> isspace c) (w @ s) = s"
    using assms(2,3) by (cases s; simp)+
  ultimately show ?thesis using assms(1) by (simp add: scan_word_def)
qed

lemma isspace_simps [simp]: "isspace CHR '' ''" "\<not> isspace CHR ''(''" "\<not> isspace CHR '')''" "isspace NL"
  by (simp_all add: isspace_def)

lemma proc_times_head:
  "proc_times (show_nat pid @ CHR '' '' # s) = do {
     (w, s2) \<leftarrow> scan_word s;
     _ \<leftarrow> c_store 32 w;
     (_, s3) \<leftarrow> scan_char s2;
     s4 \<leftarrow> skip_numbers 10 s3;
     (u, s5) \<leftarrow> scan_u64 s4;
     (s, _) \<leftarrow> scan_u64 s5;
     Some (u, s)
   }"
proof -
  have "scan_number (show_nat pid @ CHR '' '' # s) = Some (False, pid, CHR '' '' # s)"
    by (rule scan_number_show_nat) (simp add: isdigit_def)
  moreover have "scan_word (CHR '' '' # s) = scan_word s" by (simp add: scan_word_def)
  ultimately show ?thesis by (simp add: proc_times_def)
qed

lemma proc_times_correct:
  assumes "\<forall>c \<in> set comm. \<not> isspace c" "length comm < 30" "\<not> isspace state" "length ns = 10"
    "utime < 2 ^ 64" "stime < 2 ^ 64" "rest = [] \<or> \<not> isdigit (hd rest)"
  shows "proc_times (stat_text pid comm state ns utime stime rest) = Some (of_nat utime, of_nat stime)"
proof -
  let ?t = "'' '' @ show_nat utime @ '' '' @ show_nat stime @ rest"
  let ?n = "concat (map (\<lambda>n. '' '' @ show_int n) ns) @ ?t"
  have line: "stat_text pid comm state ns utime stime rest =
      show_nat pid @ CHR '' '' # (CHR ''('' # comm @ '')'') @ '' '' @ state # ?n" by (simp add: stat_text_def)
  have w: "scan_word ((CHR ''('' # comm @ '')'') @ '' '' @ state # ?n) = Some (CHR ''('' # comm @ '')'', '' '' @ state # ?n)"
    using assms(1) by (intro scan_word_plain) auto
  have c: "scan_char ('' '' @ state # ?n) = Some (state, ?n)" using assms(3) by (simp add: scan_char_def)
  have n: "skip_numbers 10 ?n = Some ?t"
    using skip_numbers_ints [of ?t ns] assms(4) by (simp add: isdigit_def)
  have u: "scan_u64 ?t = Some (of_nat utime, '' '' @ show_nat stime @ rest)"
    using scan_u64_show_nat [of "'' '' @ show_nat stime @ rest" utime] assms(5) by (simp add: scan_u64_space isdigit_def)
  have s: "scan_u64 ('' '' @ show_nat stime @ rest) = Some (of_nat stime, rest)"
    using scan_u64_show_nat [OF assms(7,6)] by (simp add: scan_u64_space)
  show ?thesis unfolding line proc_times_head w using assms(2) c n u s by simp
qed

text \<open>
  A name with a space: the word ends at the space, \<open>%c\<close> takes the next letter, and the first
  integer conversion fails on the one after it.
\<close>

lemma proc_times_space:
  assumes "\<forall>x \<in> set a. \<not> isspace x" "\<not> isspace b" "\<not> isspace c" "\<not> isdigit c" "c \<noteq> CHR ''+''" "c \<noteq> CHR ''-''"
  shows "proc_times (stat_text pid (a @ '' '' @ [b, c] @ name) state ns utime stime rest) = None"
proof -
  let ?r = "c # name @ '') '' @ [state] @ concat (map (\<lambda>n. '' '' @ show_int n) ns) @ '' '' @ show_nat utime @ '' '' @ show_nat stime @ rest"
  have line: "stat_text pid (a @ '' '' @ [b, c] @ name) state ns utime stime rest =
      show_nat pid @ CHR '' '' # (CHR ''('' # a) @ '' '' @ b # ?r" by (simp add: stat_text_def)
  have w: "scan_word ((CHR ''('' # a) @ '' '' @ b # ?r) = Some (CHR ''('' # a, '' '' @ b # ?r)"
    using assms(1) by (intro scan_word_plain) auto
  have ch: "scan_char ('' '' @ b # ?r) = Some (b, ?r)" using assms(2) by (simp add: scan_char_def)
  have "scan_sign ?r = (False, ?r)" using assms(5,6)
    by (auto simp: scan_sign_def split: char.splits bool.splits)
  then have "scan_number ?r = None" using assms(3,4) by (simp add: scan_number_def)
  moreover have "10 = Suc 9" by simp
  ultimately have "skip_numbers 10 ?r = None" by (simp only: skip_numbers.simps option.case)
  then show ?thesis unfolding line proc_times_head w using ch
    by (cases "length a < 31") (simp_all add: c_store_def)
qed

subsection \<open>The length of a rate\<close>

lemma rnd_pow:
  "rnd binary64 (2 ^ 71) = 2 ^ 71" "rnd binary32 (2 ^ 71) = 2 ^ 71"
proof -
  have "(2 ^ 71 :: rat) = of_nat 1 * pow2 71" by (simp add: pow2_def)
  then have "fp_repr binary64 (2 ^ 71)" "fp_repr binary32 (2 ^ 71)"
    unfolding fp_repr_def by (intro exI [of _ 1] exI [of _ 71]; simp add: binary64_def binary32_def)+
  then show "rnd binary64 (2 ^ 71) = 2 ^ 71" "rnd binary32 (2 ^ 71) = 2 ^ 71"
    by (simp_all only: r64.exact_id r32.exact_id)
qed

lemma rnd_below_pow:
  assumes "0 \<le> q" "q \<le> 2 ^ 71"
  shows "rnd binary64 q \<le> 2 ^ 71" "rnd binary32 q \<le> 2 ^ 71"
  using r64.absorbed [OF assms rnd_pow(1)] r32.absorbed [OF assms rnd_pow(2)] .

text \<open>Whatever the two counters are, the rate is shown in at most 27 characters.\<close>

lemma percent_of_bounded:
  "case percent_of (fp_of_u64 binary64 a) (fp_of_u64 binary64 b) of Fin s q \<Rightarrow> 0 \<le> q \<and> q \<le> 2 ^ 71 | _ \<Rightarrow> True"
proof -
  let ?A = "rnd binary64 (of_nat (unat a))" and ?B = "rnd binary64 (of_nat (unat b))"
  have A: "0 \<le> ?A" by (rule rnd_nonneg [OF of_nat_0_le_iff])
  have "?A \<le> 2 ^ 64" by (rule r64.absorbed [OF of_nat_0_le_iff of_nat_unat_bound rnd64_2_64])
  then have A100: "0 \<le> ?A * 100" "?A * 100 \<le> 2 ^ 71" using A by simp_all
  let ?M = "rnd binary64 (?A * 100)"
  have M: "0 \<le> ?M" "?M \<le> 2 ^ 71" by (rule rnd_nonneg [OF A100(1)], rule rnd_below_pow(1) [OF A100])
  have "below_max64 (?A * 100)" by (rule below_max64I [OF A100]) simp
  then have m: "fp_mul binary64 (Fin False ?A) (Fin False 100) = Fin False ?M" by (simp add: fp_round64)
  show ?thesis
  proof (cases "?B = 0")
    case True
    then show ?thesis unfolding percent_of_def fp_of_u64_64 m by simp
  next
    case False
    then have "1 \<le> unat b" by (cases "unat b") (auto simp: rnd_def)
    then have "of_nat 1 \<le> (of_nat (unat b) :: rat)" by (rule of_nat_mono)
    then have "of_nat 1 \<le> ?B" by (rule r64_above_nat [OF of_nat_0_le_iff]) simp
    then have "1 \<le> ?B" by (simp only: of_nat_1)
    then have q: "0 \<le> ?M / ?B" "?M / ?B \<le> 2 ^ 71"
      using M divide_left_mono [of 1 ?B ?M] by auto
    have "below_max64 (?M / ?B)" by (rule below_max64I [OF q]) simp
    then have d: "fp_div binary64 (Fin False ?M) (Fin False ?B) = Fin False (rnd binary64 (?M / ?B))"
      using False by (simp add: fp_round64)
    note r = rnd_nonneg [OF q(1), of binary64] rnd_below_pow(1) [OF q]
    have "rnd binary64 (?M / ?B) \<le> 2 ^ 100" by (rule order_trans [OF r(2)]) simp
    then have "fp_conv binary32 (Fin False (rnd binary64 (?M / ?B))) = Fin False (rnd binary32 (rnd binary64 (?M / ?B)))"
      using fp_round32 [OF r(1)] by simp
    then show ?thesis unfolding percent_of_def fp_of_u64_64 m d
      using rnd_nonneg [OF r(1)] rnd_below_pow(2) [OF r] by simp
  qed
qed

lemma length_show_percent: "length (show_fp 3 (percent_of (fp_of_u64 binary64 a) (fp_of_u64 binary64 b))) \<le> 27"
proof -
  define v where "v = percent_of (fp_of_u64 binary64 a) (fp_of_u64 binary64 b)"
  have b: "case v of Fin s q \<Rightarrow> 0 \<le> q \<and> q \<le> 2 ^ 71 | _ \<Rightarrow> True" unfolding v_def by (rule percent_of_bounded)
  have "length (show_fp 3 v) \<le> 27"
  proof (cases v)
    case (Fin s q)
    then have q: "0 \<le> q" "q \<le> 2 ^ 71" using b by simp_all
    then have "q * 10 ^ Suc 2 + 1 \<le> 10 ^ (Suc 21 + Suc 2)" by simp
    then have "length (show_fp (Suc 2) (Fin s q)) \<le> Suc 21 + Suc 2 + 2" by (rule length_show_fp [OF q(1)])
    then show ?thesis by (simp add: Fin numeral_3_eq_3)
  qed simp_all
  then show ?thesis by (simp add: v_def)
qed

end
