(* ===== verification/Resources_Monitor.thy ===== *)
theory Resources_Monitor
  imports Monitor_Common
begin

text \<open>
  The resources monitor of the application API, \<^verbatim>\<open>api/src/resources_monitor.c\<close>: the CPU, RAM
  and swap usage of one process, as a line per round in the data file. The state between rounds
  is the pair of CPU times of the round before.
\<close>

definition METRIC_NAME_1 :: cstr where "METRIC_NAME_1 = ''resources_usage''"

record resources_cpu =
  process_CPU_time :: u64
  global_CPU_time :: u64

record resources_stats =
  CPU_usage_rate :: cfp
  RAM_usage_rate :: cfp
  swap_usage_rate :: cfp

subsection \<open>Reading\<close>

definition resources_stat_cpu :: "machine \<Rightarrow> int \<Rightarrow> resources_cpu call option" where
  "resources_stat_cpu m pid =
     (case proc_file m (pid_file pid ''stat'') of None \<Rightarrow> Some (Exit 0)
      | Some f \<Rightarrow> do {
          t \<leftarrow> process_time f;
          case proc_file m ''/proc/stat'' of None \<Rightarrow> Some (Exit 0)
          | Some g \<Rightarrow> do {
              line \<leftarrow> first_line 1024 g;
              s \<leftarrow> skip 5 line;
              case scan_u64s 3 s of
                [cpu_user, _, cpu_sys] \<Rightarrow> Some (Return \<lparr>process_CPU_time = t, global_CPU_time = cpu_user + cpu_sys\<rparr>)
              | _ \<Rightarrow> None
            }
        })"

text \<open>
  A variable that \<open>sscanf\<close> fills from the lines that start with a keyword: the last such line
  that holds a number decides, and without one the variable stays indeterminate.
\<close>

definition keyword_line :: "cstr \<Rightarrow> string \<Rightarrow> u64 option \<Rightarrow> u64 option" where
  "keyword_line key buf v =
     (let line = c_string buf in
      if \<not> strncmp_eq line key (length key) then v
      else case scan_u64 (drop (length key) line) of None \<Rightarrow> v | Some (w, _) \<Rightarrow> Some w)"

definition keyword_value :: "cstr \<Rightarrow> string \<Rightarrow> u64 option" where
  "keyword_value key f = fold (keyword_line key) (fgets_all 1024 f) None"

text \<open>\<open>pid_VmRSS\<close>, \<open>pid_VmSwap\<close>, \<open>MemTotal\<close> and \<open>SwapTotal\<close>.\<close>

definition read_memory :: "machine \<Rightarrow> int \<Rightarrow> (u64 option \<times> u64 option \<times> u64 option \<times> u64 option) call" where
  "read_memory m pid =
     (case proc_file m (pid_file pid ''status'') of None \<Rightarrow> Exit 0
      | Some f \<Rightarrow>
          (case proc_file m ''/proc/meminfo'' of None \<Rightarrow> Exit 0
           | Some g \<Rightarrow> Return (keyword_value ''VmRSS:'' f, keyword_value ''VmSwap:'' f,
               keyword_value ''MemTotal:'' g, keyword_value ''SwapTotal:'' g)))"

definition cpu_rate :: "resources_cpu \<Rightarrow> resources_cpu \<Rightarrow> cfp" where
  "cpu_rate b a =
     (if process_CPU_time a \<le> process_CPU_time b \<or> global_CPU_time a \<le> global_CPU_time b then fp_zero
      else percent_of (fp_of_u64 binary64 (process_CPU_time a - process_CPU_time b))
             (fp_of_u64 binary64 (global_CPU_time a - global_CPU_time b)))"

definition resources_stat_all_and_calculate ::
  "machine \<Rightarrow> int \<Rightarrow> resources_cpu \<Rightarrow> resources_cpu \<Rightarrow> (resources_stats \<times> resources_cpu) call option" where
  "resources_stat_all_and_calculate m pid b a =
     (case read_memory m pid of Exit e \<Rightarrow> Some (Exit e)
      | Return (rss, swap, mem, swap_total) \<Rightarrow> do {
          pid_VmRSS \<leftarrow> rss;
          MemTotal \<leftarrow> mem;
          pid_VmSwap \<leftarrow> swap;
          SwapTotal \<leftarrow> swap_total;
          Some (Return (\<lparr>CPU_usage_rate = cpu_rate b a,
              RAM_usage_rate = percent_of (fp_of_u64 binary64 pid_VmRSS) (fp_of_u64 binary64 MemTotal),
              swap_usage_rate = percent_of (fp_of_u64 binary64 pid_VmSwap) (fp_of_u64 binary64 SwapTotal)\<rparr>, a))
        })"

subsection \<open>The loop\<close>

definition resources_line :: "timestamp \<Rightarrow> resources_stats \<Rightarrow> cstr" where
  "resources_line t s = stamp_text (milliseconds t) @ float_text ''CPU_usage_rate'' (CPU_usage_rate s) @
     float_text ''RAM_usage_rate'' (RAM_usage_rate s) @ float_text ''swap_usage_rate'' (swap_usage_rate s) @ [NL]"

text \<open>
  The rounds of the loop \<open>while(running)\<close>, one machine for each: the lines written, and how
  the call ends. \<open>exit\<close> flushes the stream, so the lines before it stay.
\<close>

fun resources_rounds :: "int \<Rightarrow> machine list \<Rightarrow> resources_cpu \<Rightarrow> (cstr list \<times> int call) option" where
  "resources_rounds pid [] b = Some ([], Return 1)"
| "resources_rounds pid (m # ms) b =
     (case resources_stat_cpu m pid of None \<Rightarrow> None
      | Some (Exit e) \<Rightarrow> Some ([], Exit e)
      | Some (Return a) \<Rightarrow>
          (case resources_stat_all_and_calculate m pid b a of None \<Rightarrow> None
           | Some (Exit e) \<Rightarrow> Some ([], Exit e)
           | Some (Return (s, b')) \<Rightarrow> do {
               (ls, r) \<leftarrow> resources_rounds pid ms b';
               Some (resources_line (realtime m) s # ls, r)
             }))"

definition resources_monitor ::
  "(cstr \<Rightarrow> bool) \<Rightarrow> int \<Rightarrow> cstr \<Rightarrow> machine \<Rightarrow> machine list \<Rightarrow> (cstr list \<times> int call) option" where
  "resources_monitor can_append pid DataPath m0 ms = do {
     FileName \<leftarrow> data_file DataPath METRIC_NAME_1;
     if \<not> can_append FileName then Some ([], Exit 0)
     else case resources_stat_cpu m0 pid of None \<Rightarrow> None
       | Some (Exit e) \<Rightarrow> Some ([], Exit e)
       | Some (Return b) \<Rightarrow> resources_rounds pid ms b
   }"

subsection \<open>The lines of a run\<close>

lemma pid_file_neq: "pid_file pid name \<noteq> ''/proc/stat''" "pid_file pid name \<noteq> ''/proc/meminfo''"
proof -
  have "show_int pid \<noteq> [] \<and> (hd (show_int pid) = CHR ''-'' \<or> isdigit (hd (show_int pid)))"
    using show_nat_digits [of "hd (show_nat (nat pid))" "nat pid"] by (auto simp: show_int_def)
  then show "pid_file pid name \<noteq> ''/proc/stat''" "pid_file pid name \<noteq> ''/proc/meminfo''"
    by (cases "show_int pid"; auto simp: pid_file_def isdigit_def)+
qed

text \<open>A rate that can be shown: a finite number between 0 and 100.\<close>

definition percentage :: "cfp \<Rightarrow> bool" where
  "percentage v \<longleftrightarrow> (\<exists>p. v = Fin False p \<and> 0 \<le> p \<and> p \<le> 100)"

lemma percentage_zero [simp]: "percentage fp_zero"
  by (simp add: percentage_def)

lemma percentage_of_u64:
  "unat a \<le> unat b \<Longrightarrow> 0 < unat b \<Longrightarrow> percentage (percent_of (fp_of_u64 binary64 a) (fp_of_u64 binary64 b))"
  unfolding percentage_def by (rule percent_of_u64)

lemma percent_of_nats:
  assumes "100 * A < (2 ^ 53 :: nat)" "0 < B"
  shows "percent_of (Fin False (of_nat A)) (Fin False (of_nat B)) = Fin False (rnd binary32 (rnd binary64 (100 * of_nat A / of_nat B)))"
proof -
  let ?q = "of_nat (A * 100) / of_nat B :: rat"
  have b: "(0 :: rat) < of_nat B" "(1 :: rat) \<le> of_nat B" using assms(2) by (simp_all add: Suc_le_eq)
  have "of_nat (A * 100) \<le> (of_nat (2 ^ 53) :: rat)" using assms(1) by (simp only: of_nat_le_iff)
  then have n: "of_nat (A * 100) \<le> (2 ^ 53 :: rat)" by simp
  have "?q \<le> of_nat (A * 100) / 1" by (rule divide_left_mono) (use b in simp_all)
  with n have q: "0 \<le> ?q" "?q \<le> 2 ^ 53" using b by (simp, linarith)
  have "rnd binary64 ?q \<le> rnd binary64 (2 ^ 64)" by (rule r64.mono) (use q in simp_all)
  then have r: "0 \<le> rnd binary64 ?q" "rnd binary64 ?q \<le> 2 ^ 100"
    unfolding rnd64_2_64 using rnd_nonneg [OF q(1), of binary64] by simp_all
  have m: "fp_mul binary64 (Fin False (of_nat A)) (Fin False 100) = Fin False (of_nat (A * 100))"
    using fp_round64_nat [of "A * 100" False] assms(1) by simp
  have d: "fp_div binary64 (Fin False (of_nat (A * 100))) (Fin False (of_nat B)) = Fin False (rnd binary64 ?q)"
    using fp_round64 [OF below_max64I [OF q], of False] b by simp
  show ?thesis unfolding percent_of_def m d using r by (simp add: fp_round32 mult.commute)
qed

lemma percent_of_nearest:
  assumes "100 * unat (a :: u64) < 2 ^ 53" "0 < unat b" "unat b < 2 ^ 53"
  shows "percent_of (fp_of_u64 binary64 a) (fp_of_u64 binary64 b) =
    Fin False (rnd binary32 (rnd binary64 (100 * of_nat (unat a) / of_nat (unat b))))"
proof -
  have w: "fp_of_u64 binary64 w = Fin False (of_nat (unat w))" if "unat w < 2 ^ 53" for w
    unfolding fp_of_u64_64 by (simp only: r64.exact_id fp_repr_nat64 that)
  have "unat a < 2 ^ 53" using assms(1) by linarith
  then show ?thesis by (simp only: w assms(3) percent_of_nats [OF assms(1,2)])
qed

text \<open>
  What a rate shows: the nearest float to the nearest double to \<open>100 a / b\<close>, for numbers up to
  about \<open>2 ^ 46\<close>, and a percentage for all 64-bit numbers when the part is no more than the whole.
\<close>

definition shows_percent :: "cfp \<Rightarrow> nat \<Rightarrow> nat \<Rightarrow> bool" where
  "shows_percent v a b \<longleftrightarrow>
     (100 * a < 2 ^ 53 \<and> 0 < b \<and> b < 2 ^ 53 \<longrightarrow> v = Fin False (rnd binary32 (rnd binary64 (100 * of_nat a / of_nat b)))) \<and>
     (a \<le> b \<and> 0 < b \<longrightarrow> percentage v)"

lemma shows_percent_of: "shows_percent (percent_of (fp_of_u64 binary64 a) (fp_of_u64 binary64 b)) (unat a) (unat b)"
  by (simp add: shows_percent_def percent_of_nearest percentage_of_u64 del: One_nat_def)

text \<open>The CPU usage of a round, from the times \<open>(process, machine)\<close> before and after it.\<close>

definition shows_cpu :: "cfp \<Rightarrow> resources_cpu \<Rightarrow> resources_cpu \<Rightarrow> bool" where
  "shows_cpu v b a \<longleftrightarrow>
     (if process_CPU_time b < process_CPU_time a \<and> global_CPU_time b < global_CPU_time a
      then shows_percent v (unat (process_CPU_time a) - unat (process_CPU_time b)) (unat (global_CPU_time a) - unat (global_CPU_time b))
      else v = Fin False 0)"

lemma shows_cpu_rate: "shows_cpu (cpu_rate b a) b a"
  using shows_percent_of [of "process_CPU_time a - process_CPU_time b" "global_CPU_time a - global_CPU_time b"]
  by (auto simp: shows_cpu_def cpu_rate_def unat_sub not_less)

text \<open>What is read in a round: the CPU times, the memory and swap of the process and of the machine.\<close>

type_synonym reading = "resources_cpu \<times> u64 \<times> u64 \<times> u64 \<times> u64"

definition round_reads :: "int \<Rightarrow> machine \<Rightarrow> reading \<Rightarrow> bool" where
  "round_reads pid m = (\<lambda>(a, rss, swap, mem, swap_total).
     resources_stat_cpu m pid = Some (Return a) \<and> read_memory m pid = Return (Some rss, Some swap, Some mem, Some swap_total))"

definition shows_reading :: "resources_stats \<Rightarrow> resources_cpu \<Rightarrow> reading \<Rightarrow> bool" where
  "shows_reading s b = (\<lambda>(a, rss, swap, mem, swap_total).
     shows_cpu (CPU_usage_rate s) b a \<and> shows_percent (RAM_usage_rate s) (unat rss) (unat mem) \<and>
     shows_percent (swap_usage_rate s) (unat swap) (unat swap_total))"

lemma resources_round_ok:
  assumes "round_reads pid m r"
  shows "\<exists>s. resources_stat_cpu m pid = Some (Return (fst r)) \<and>
    resources_stat_all_and_calculate m pid b (fst r) = Some (Return (s, fst r)) \<and> shows_reading s b r"
  using assms
  by (auto simp: round_reads_def resources_stat_all_and_calculate_def shows_reading_def shows_percent_of shows_cpu_rate)

lemma resources_rounds_ok:
  assumes "list_all2 (round_reads pid) ms rs"
  shows "\<exists>ss. resources_rounds pid ms b = Some (map (\<lambda>(m, s). resources_line (realtime m) s) (zip ms ss), Return 1) \<and>
    length ss = length ms \<and> (\<forall>i < length ms. shows_reading (ss ! i) ((b # map fst rs) ! i) (rs ! i))"
  using assms
proof (induction ms rs arbitrary: b rule: list_all2_induct)
  case (Cons m ms r rs)
  obtain ss where ss: "resources_rounds pid ms (fst r) = Some (map (\<lambda>(m, s). resources_line (realtime m) s) (zip ms ss), Return 1)"
    "length ss = length ms" "\<forall>i < length ms. shows_reading (ss ! i) ((fst r # map fst rs) ! i) (rs ! i)"
    using Cons.IH by blast
  obtain s where "resources_stat_cpu m pid = Some (Return (fst r))"
    "resources_stat_all_and_calculate m pid b (fst r) = Some (Return (s, fst r))" "shows_reading s b r"
    using resources_round_ok [OF Cons.hyps(1)] by blast
  then show ?case using ss by (intro exI [of _ "s # ss"]) (auto simp: nth_Cons split: nat.split)
qed simp

text \<open>
  C18. While the process and its files can be read, the monitor returns 1 and has written exactly
  one line for each round, with the time of the round. The CPU usage in it is 0 when the process
  or the machine has used no CPU time since the round before, and otherwise the percentage of the
  machine's user and system time that the process has used; the RAM and swap usage are the
  percentages of the resident and swapped memory in the totals, all rounded to \<open>double\<close> and then
  to \<open>float\<close>. A rate is a finite number from 0 to 100 whenever its part is no more than its
  whole and the whole is not 0: the resident memory no more than \<open>MemTotal\<close>, the swap no more
  than a \<open>SwapTotal\<close> above 0, and the process's CPU time no more than the user and system time.
  Nothing in the kernel guarantees the last (see \<open>niced_process_exceeds\<close>).
\<close>

theorem resources_monitor_lines:
  assumes "length DataPath < 240" "can_append (DataPath @ ''/resources_usage'')"
    "resources_stat_cpu m0 pid = Some (Return b)" "list_all2 (round_reads pid) ms rs"
  shows "\<exists>ss. resources_monitor can_append pid DataPath m0 ms =
      Some (map (\<lambda>(m, s). resources_line (realtime m) s) (zip ms ss), Return 1) \<and> length ss = length ms \<and>
    (\<forall>i < length ms. shows_reading (ss ! i) ((b # map fst rs) ! i) (rs ! i))"
  using resources_rounds_ok [OF assms(4)] assms(1-3)
  by (simp add: resources_monitor_def data_file_def METRIC_NAME_1_def)

subsection \<open>The texts of the kernel\<close>

definition cpu_line :: "nat \<Rightarrow> nat \<Rightarrow> nat \<Rightarrow> cstr \<Rightarrow> cstr" where
  "cpu_line user nice sys rest = ''cpu  '' @ show_nat user @ '' '' @ show_nat nice @ '' '' @ show_nat sys @ rest"

definition file_line :: "nat \<Rightarrow> cstr \<Rightarrow> string \<Rightarrow> string" where
  "file_line cap l f = (if NL \<notin> set l \<and> NUL \<notin> set l \<and> length l + 2 \<le> cap then l @ NL # f else [])"

lemma first_line_text:
  "file_line cap l f \<noteq> [] \<Longrightarrow> first_line cap (file_line cap l f) = Some (l @ [NL])"
  by (auto simp: file_line_def first_line_def fgets_all_line c_string_id split: if_split_asm)

lemma cpu_line_scan:
  assumes "user < 2 ^ 64" "nice < 2 ^ 64" "sys < 2 ^ 64" "rest \<noteq> []" "\<not> isdigit (hd rest)"
  shows "skip 5 (cpu_line user nice sys rest) = Some (drop 5 (cpu_line user nice sys rest)) \<and>
    scan_u64s 3 (drop 5 (cpu_line user nice sys rest)) = [of_nat user, of_nat nice, of_nat sys]"
proof -
  have three: "3 = Suc (Suc (Suc 0))" by simp
  have d: "\<not> isdigit CHR '' ''" by (simp add: isdigit_def)
  have "scan_u64 (show_nat user @ '' '' @ show_nat nice @ '' '' @ show_nat sys @ rest) =
      Some (of_nat user, '' '' @ show_nat nice @ '' '' @ show_nat sys @ rest)"
    using assms(1) d by (intro scan_u64_show_nat) simp_all
  moreover have "scan_u64 (show_nat nice @ '' '' @ show_nat sys @ rest) = Some (of_nat nice, '' '' @ show_nat sys @ rest)"
    using assms(2) d by (intro scan_u64_show_nat) simp_all
  moreover have "scan_u64 (show_nat sys @ rest) = Some (of_nat sys, rest)"
    using assms(3-5) by (intro scan_u64_show_nat) simp_all
  ultimately show ?thesis
    by (simp add: three cpu_line_def skip_def scan_u64_space)
qed

text \<open>The files of a machine on which process \<open>pid\<close> runs under the name \<open>comm\<close>.\<close>

definition kernel_texts ::
  "machine \<Rightarrow> nat \<Rightarrow> cstr \<Rightarrow> char \<Rightarrow> int list \<Rightarrow> nat \<Rightarrow> nat \<Rightarrow> nat \<Rightarrow> nat \<Rightarrow> nat \<Rightarrow> bool" where
  "kernel_texts m pid comm state ns utime stime user nice sys \<longleftrightarrow>
     length ns = 10 \<and> \<not> isspace state \<and> (\<forall>n \<in> {utime, stime, user, nice, sys}. n < 2 ^ 64) \<and>
     (\<exists>rest f. proc_file m (pid_file (int pid) ''stat'') = Some (file_line 1024 (stat_text pid comm state ns utime stime ('' '' @ rest)) f) \<and>
        file_line 1024 (stat_text pid comm state ns utime stime ('' '' @ rest)) f \<noteq> []) \<and>
     (\<exists>rest f. proc_file m ''/proc/stat'' = Some (file_line 1024 (cpu_line user nice sys ('' '' @ rest)) f) \<and>
        file_line 1024 (cpu_line user nice sys ('' '' @ rest)) f \<noteq> [])"

lemma stat_text_append: "stat_text pid comm state ns u s rest @ t = stat_text pid comm state ns u s (rest @ t)"
  by (simp add: stat_text_def)

lemma cpu_line_append: "cpu_line user nice sys rest @ t = cpu_line user nice sys (rest @ t)"
  by (simp add: cpu_line_def)

lemma stat_cpu_reads:
  assumes "kernel_texts m pid comm state ns utime stime user nice sys"
    "\<forall>c \<in> set comm. \<not> isspace c" "length comm < 30"
  shows "resources_stat_cpu m (int pid) =
    Some (Return \<lparr>process_CPU_time = of_nat utime + of_nat stime, global_CPU_time = of_nat user + of_nat sys\<rparr>)"
proof -
  from assms(1) obtain r1 f1 r2 f2 where
    1: "proc_file m (pid_file (int pid) ''stat'') = Some (file_line 1024 (stat_text pid comm state ns utime stime ('' '' @ r1)) f1)"
      "file_line 1024 (stat_text pid comm state ns utime stime ('' '' @ r1)) f1 \<noteq> []"
    and 2: "proc_file m ''/proc/stat'' = Some (file_line 1024 (cpu_line user nice sys ('' '' @ r2)) f2)"
      "file_line 1024 (cpu_line user nice sys ('' '' @ r2)) f2 \<noteq> []"
    and k: "length ns = 10" "\<not> isspace state" "utime < 2 ^ 64" "stime < 2 ^ 64" "user < 2 ^ 64" "nice < 2 ^ 64" "sys < 2 ^ 64"
    unfolding kernel_texts_def by auto
  have "process_time (file_line 1024 (stat_text pid comm state ns utime stime ('' '' @ r1)) f1) = Some (of_nat utime + of_nat stime)"
    unfolding process_time_def first_line_text [OF 1(2)] stat_text_append
    using proc_times_correct [OF assms(2,3) k(2,1,3,4), of "('' '' @ r1) @ [NL]" pid] by (simp add: isdigit_def)
  moreover have "first_line 1024 (file_line 1024 (cpu_line user nice sys ('' '' @ r2)) f2) =
      Some (cpu_line user nice sys (('' '' @ r2) @ [NL]))"
    unfolding first_line_text [OF 2(2)] cpu_line_append ..
  ultimately show ?thesis
    using 1(1) 2(1) cpu_line_scan [OF k(5-7), of "('' '' @ r2) @ [NL]"]
    by (simp add: resources_stat_cpu_def isdigit_def)
qed

text \<open>
  From the texts the kernel writes the reading takes the user plus system time of the process
  and of the machine, whatever the numbers between them, when the name of the process has no
  white space and at most 29 characters.
\<close>

theorem resources_stat_cpu_reads:
  assumes "kernel_texts m pid comm state ns utime stime user nice sys"
    "\<forall>c \<in> set comm. \<not> isspace c" "length comm < 30"
  shows "resources_stat_cpu m (int pid) =
    Some (Return \<lparr>process_CPU_time = of_nat utime + of_nat stime, global_CPU_time = of_nat user + of_nat sys\<rparr>)"
  using assms by (rule stat_cpu_reads)

text \<open>
  A process whose name has a space cannot be monitored: the conversions after the name fail,
  and the times, which nothing has written, are added all the same, so the monitor leaves the
  language before its first line.
\<close>

theorem spaced_name_undefined:
  assumes "kernel_texts m pid (a @ '' '' @ [b, c] @ name) state ns utime stime user nice sys"
    "\<forall>x \<in> set a. \<not> isspace x" "\<not> isspace b" "\<not> isspace c" "\<not> isdigit c" "c \<noteq> CHR ''+''" "c \<noteq> CHR ''-''"
    "length DataPath < 240" "can_append (DataPath @ ''/resources_usage'')"
  shows "resources_monitor can_append (int pid) DataPath m ms = None"
proof -
  let ?comm = "a @ '' '' @ [b, c] @ name"
  from assms(1) obtain r1 f1 where
    1: "proc_file m (pid_file (int pid) ''stat'') = Some (file_line 1024 (stat_text pid ?comm state ns utime stime ('' '' @ r1)) f1)"
      "file_line 1024 (stat_text pid ?comm state ns utime stime ('' '' @ r1)) f1 \<noteq> []"
    unfolding kernel_texts_def by auto
  have "process_time (file_line 1024 (stat_text pid ?comm state ns utime stime ('' '' @ r1)) f1) = None"
    unfolding process_time_def first_line_text [OF 1(2)] stat_text_append
    using proc_times_space [OF assms(2-7), of pid name] by simp
  then have "resources_stat_cpu m (int pid) = None" using 1(1) by (simp add: resources_stat_cpu_def)
  then show ?thesis using assms(8,9) by (simp add: resources_monitor_def data_file_def METRIC_NAME_1_def)
qed

text \<open>
  On a machine without swap the swap usage is 0/0: every line ends with \<open>-nan\<close>, which is no
  JSON number, so the server cannot parse the batch the line is part of.
\<close>

theorem no_swap_prints_nan:
  assumes "length DataPath < 240" "can_append (DataPath @ ''/resources_usage'')"
    "resources_stat_cpu m0 pid = Some (Return b)" "resources_stat_cpu m pid = Some (Return a)"
    "read_memory m pid = Return (Some rss, Some 0, Some mem, Some 0)"
  shows "\<exists>l. resources_monitor can_append pid DataPath m0 [m] = Some ([l], Return 1) \<and>
    suffix (quoted ''swap_usage_rate'' @ '':-nan'' @ [NL]) l"
proof -
  have z: "fp_of_u64 binary64 0 = Fin False 0" using lit64_Fin [of 0] by (simp add: fp_of_u64_def)
  have n: "percent_of (Fin False 0) (Fin False 0) = NaN" by (simp add: percent_of_def)
  show ?thesis using assms
    by (simp add: resources_monitor_def data_file_def METRIC_NAME_1_def resources_stat_all_and_calculate_def
        resources_line_def float_text_def z n suffix_def)
qed

text \<open>
  C35. The CPU usage can exceed 100: the time of the machine counts only user and system time,
  while the user time of a process includes what it ran niced. When the process has used \<open>k\<close>
  times as much time as the machine spent in user and system mode, the rate is \<open>100 k\<close>.
\<close>

theorem niced_process_exceeds:
  assumes "kernel_texts m0 pid comm state ns u0 s0 user0 nice0 sys0" "kernel_texts m pid comm state ns u s user nice sys"
    "\<forall>c \<in> set comm. \<not> isspace c" "length comm < 30" "length DataPath < 240" "can_append (DataPath @ ''/resources_usage'')"
    "read_memory m (int pid) = Return (Some rss, Some swap, Some mem, Some swap_total)"
    "u + s = u0 + s0 + k * g" "user + sys = user0 + sys0 + g" "0 < g" "0 < k" "u + s < 2 ^ 64" "user + sys < 2 ^ 64"
    "k * g < 2 ^ 46" "100 * k < 2 ^ 24"
  shows "\<exists>st. resources_monitor can_append (int pid) DataPath m0 [m] = Some ([resources_line (realtime m) st], Return 1) \<and>
    CPU_usage_rate st = Fin False (100 * of_nat k)"
proof -
  let ?b = "\<lparr>process_CPU_time = of_nat u0 + of_nat s0, global_CPU_time = of_nat user0 + of_nat sys0\<rparr>"
  let ?a = "\<lparr>process_CPU_time = of_nat u + of_nat s, global_CPU_time = of_nat user + of_nat sys\<rparr>"
  have b: "resources_stat_cpu m0 (int pid) = Some (Return ?b)" by (rule stat_cpu_reads [OF assms(1,3,4)])
  have a: "resources_stat_cpu m (int pid) = Some (Return ?a)" by (rule stat_cpu_reads [OF assms(2,3,4)])
  have "list_all2 (round_reads (int pid)) [m] [(?a, rss, swap, mem, swap_total)]" using a assms(7) by (simp add: round_reads_def)
  from resources_rounds_ok [OF this, of ?b] obtain ss where ss: "resources_rounds (int pid) [m] ?b =
      Some (map (\<lambda>(m, s). resources_line (realtime m) s) (zip [m] ss), Return 1)" "length ss = 1"
    "shows_cpu (CPU_usage_rate (ss ! 0)) ?b ?a" by (auto simp: shows_reading_def)
  have w: "unat (of_nat x + of_nat y :: u64) = x + y" if "x + y < 2 ^ 64" for x y
    using that by (simp add: unat_of_nat flip: of_nat_add)
  have p: "0 < k * g" using assms(10,11) by simp
  have t: "unat (of_nat u0 + of_nat s0 :: u64) = u0 + s0" "unat (of_nat u + of_nat s :: u64) = u0 + s0 + k * g"
    "unat (of_nat user0 + of_nat sys0 :: u64) = user0 + sys0" "unat (of_nat user + of_nat sys :: u64) = user0 + sys0 + g"
    using w [of u0 s0] w [of u s] w [of user0 sys0] w [of user sys] assms(8,9,12,13) by linarith+
  have "g \<le> k * g" using assms(11) by simp
  moreover have "100 * 2 ^ 46 < (2 ^ 53 :: nat)" by simp
  ultimately have "100 * (k * g) < 2 ^ 53" "g < 2 ^ 53" using assms(14) by linarith+
  then have "CPU_usage_rate (ss ! 0) = Fin False (rnd binary32 (rnd binary64 (100 * of_nat (k * g) / of_nat g)))"
    using ss(3) p assms(10) unfolding shows_cpu_def word_less_nat_alt resources_cpu.select_convs t shows_percent_def by simp
  also have "100 * of_nat (k * g) / of_nat g = (of_nat (100 * k) :: rat)" using assms(10) by simp
  also have "rnd binary32 (rnd binary64 (of_nat (100 * k))) = of_nat (100 * k)"
  proof -
    have "100 * k < 2 ^ 53" using assms(15) by simp
    then show ?thesis by (simp only: r64.exact_id [OF fp_repr_nat64] r32.exact_id [OF fp_repr_nat32 [OF assms(15)]])
  qed
  finally have "CPU_usage_rate (ss ! 0) = Fin False (100 * of_nat k)" by simp
  moreover obtain st where "ss = [st]" using ss(2) by (cases ss) auto
  ultimately show ?thesis using ss(1) b assms(5,6)
    by (auto simp: resources_monitor_def data_file_def METRIC_NAME_1_def simp del: resources_rounds.simps)
qed


subsection \<open>Concrete runs\<close>

definition status_text :: string where
  "status_text = ''VmRSS: 5'' @ NL # ''VmSwap: 0'' @ NL # []"

definition process_machine :: "cstr \<Rightarrow> nat \<Rightarrow> nat \<Rightarrow> string \<Rightarrow> machine" where
  "process_machine comm u g swap = \<lparr>proc_file = (\<lambda>p.
     if p = pid_file 7 ''stat'' then Some (file_line 1024 (stat_text 7 comm CHR ''R'' (replicate 10 0) u 1 ''  0'') [])
     else if p = ''/proc/stat'' then Some (file_line 1024 (cpu_line g 0 0 ''  0'') [])
     else if p = pid_file 7 ''status'' then Some status_text
     else if p = ''/proc/meminfo'' then Some (''MemTotal: 10'' @ NL # ''SwapTotal: '' @ swap @ NL # []) else None),
     proc_dir = None, realtime = \<lparr>sec = 7, nsec = 0\<rparr>\<rparr>"

lemma process_machine_texts:
  assumes "u \<in> {2, 3}" "g \<in> {20, 60}" "comm \<in> {''app'', ''my app''}"
  shows "kernel_texts (process_machine comm u g swap) 7 comm CHR ''R'' (replicate 10 0) u 1 g 0 0"
proof -
  have 1: "file_line 1024 (stat_text 7 comm CHR ''R'' (replicate 10 0) u 1 ('' '' @ '' 0'')) [] \<noteq> []"
    using assms(1,3) by (elim insertE emptyE; hypsubst; code_simp)
  have 2: "file_line 1024 (cpu_line g 0 0 ('' '' @ '' 0'')) [] \<noteq> []"
    using assms(2) by (elim insertE emptyE; hypsubst; code_simp)
  have "pid_file 7 ''stat'' \<noteq> ''/proc/stat''" by code_simp
  with 1 2 show ?thesis using assms(1,2) unfolding kernel_texts_def
    by (intro conjI exI [of _ "'' 0''"] exI [of _ "[]"]) (auto simp: process_machine_def isspace_def)
qed

lemma process_machine_memory:
  "read_memory (process_machine comm u g ''0'') 7 = Return (Some 5, Some 0, Some 10, Some 0)"
  "read_memory (process_machine comm u g ''4'') 7 = Return (Some 5, Some 0, Some 10, Some 4)"
proof -
  have n: "pid_file 7 ''status'' \<noteq> pid_file 7 ''stat''" "pid_file 7 ''status'' \<noteq> ''/proc/stat''"
    "''/proc/meminfo'' \<noteq> pid_file 7 ''stat''" "''/proc/meminfo'' \<noteq> pid_file 7 ''status''" by code_simp+
  have l: "fgets_all 1024 status_text = [''VmRSS: 5'' @ [NL], ''VmSwap: 0'' @ [NL]]"
    unfolding status_text_def by (subst fgets_all_line, simp, simp, subst fgets_all_line, simp, simp) simp
  have 1: "keyword_value ''VmRSS:'' status_text = Some 5" "keyword_value ''VmSwap:'' status_text = Some 0"
    unfolding keyword_value_def l by (simp_all add: keyword_line_def strncmp_eq_def c_string_def scan_simps)
  have 2: "keyword_value ''MemTotal:'' (''MemTotal: 10'' @ NL # ''SwapTotal: '' @ s @ NL # []) = Some 10"
    "keyword_value ''SwapTotal:'' (''MemTotal: 10'' @ NL # ''SwapTotal: '' @ s @ NL # []) = Some (if s = ''0'' then 0 else 4)"
    if s: "s \<in> {''0'', ''4''}" for s
  proof -
    have t: "''MemTotal: 10'' @ NL # ''SwapTotal: '' @ s @ NL # [] = ''MemTotal: 10'' @ NL # (''SwapTotal: '' @ s) @ NL # []" by simp
    have "fgets_all 1024 (''MemTotal: 10'' @ NL # ''SwapTotal: '' @ s @ NL # []) = [''MemTotal: 10'' @ [NL], ''SwapTotal: '' @ s @ [NL]]"
      using s unfolding t by (subst fgets_all_line, simp, simp, subst fgets_all_line, force, force) simp
    then show "keyword_value ''MemTotal:'' (''MemTotal: 10'' @ NL # ''SwapTotal: '' @ s @ NL # []) = Some 10"
      "keyword_value ''SwapTotal:'' (''MemTotal: 10'' @ NL # ''SwapTotal: '' @ s @ NL # []) = Some (if s = ''0'' then 0 else 4)"
      using s unfolding keyword_value_def by (auto simp: keyword_line_def strncmp_eq_def c_string_def scan_simps)
  qed
  show "read_memory (process_machine comm u g ''0'') 7 = Return (Some 5, Some 0, Some 10, Some 0)"
    "read_memory (process_machine comm u g ''4'') 7 = Return (Some 5, Some 0, Some 10, Some 4)"
    using n 1 2 [of "''0''"] 2 [of "''4''"] by (simp_all add: read_memory_def process_machine_def)
qed

theorem resources_stat_cpu_reads_witness:
  "resources_stat_cpu (process_machine ''app'' 2 20 ''4'') 7 = Some (Return \<lparr>process_CPU_time = 3, global_CPU_time = 20\<rparr>)"
  using resources_stat_cpu_reads [OF process_machine_texts [of 2 20 "''app''" "''4''"]] by (simp add: isspace_def)

theorem spaced_name_undefined_witness:
  "resources_monitor (\<lambda>_. True) 7 ''/d'' (process_machine ''my app'' 2 20 ''4'') [] = None"
  using spaced_name_undefined [of "process_machine ''my app'' 2 20 ''4''" 7 "''my''" "CHR ''a''" "CHR ''p''" "''p''"
      "CHR ''R''" "replicate 10 0" 2 1 20 0 0 "''/d''" "\<lambda>_. True" "[]"] process_machine_texts [of 2 20 "''my app''" "''4''"]
  by (simp add: isspace_def isdigit_def)

lemma app_reads:
  "resources_stat_cpu (process_machine ''app'' 2 20 s) 7 = Some (Return \<lparr>process_CPU_time = 3, global_CPU_time = 20\<rparr>)"
  "resources_stat_cpu (process_machine ''app'' 3 60 s) 7 = Some (Return \<lparr>process_CPU_time = 4, global_CPU_time = 60\<rparr>)"
  using stat_cpu_reads [OF process_machine_texts [of 2 20 "''app''" s]] stat_cpu_reads [OF process_machine_texts [of 3 60 "''app''" s]]
  by (simp_all add: isspace_def)

theorem no_swap_prints_nan_witness:
  "\<exists>l. resources_monitor (\<lambda>_. True) 7 ''/d'' (process_machine ''app'' 2 20 ''0'') [process_machine ''app'' 3 60 ''0''] = Some ([l], Return 1) \<and>
     suffix (quoted ''swap_usage_rate'' @ '':-nan'' @ [NL]) l"
  by (rule no_swap_prints_nan [OF _ _ app_reads process_machine_memory(1)]) simp_all

theorem resources_monitor_lines_witness:
  "\<exists>s. resources_monitor (\<lambda>_. True) 7 ''/d'' (process_machine ''app'' 2 20 ''4'') [process_machine ''app'' 3 60 ''4''] =
     Some ([resources_line \<lparr>sec = 7, nsec = 0\<rparr> s], Return 1) \<and>
     shows_percent (CPU_usage_rate s) 1 40 \<and> shows_percent (RAM_usage_rate s) 5 10 \<and> shows_percent (swap_usage_rate s) 0 4"
proof -
  have "list_all2 (round_reads 7) [process_machine ''app'' 3 60 ''4''] [(\<lparr>process_CPU_time = 4, global_CPU_time = 60\<rparr>, 5, 0, 10, 4)]"
    using app_reads(2) process_machine_memory(2) by (simp add: round_reads_def)
  from resources_monitor_lines [OF _ _ app_reads(1) [of "''4''"] this, of "''/d''" "\<lambda>_. True"]
  obtain ss where "resources_monitor (\<lambda>_. True) 7 ''/d'' (process_machine ''app'' 2 20 ''4'') [process_machine ''app'' 3 60 ''4''] =
      Some (map (\<lambda>(m, s). resources_line (realtime m) s) (zip [process_machine ''app'' 3 60 ''4''] ss), Return 1)"
    "length ss = 1" "shows_reading (ss ! 0) \<lparr>process_CPU_time = 3, global_CPU_time = 20\<rparr>
      (\<lparr>process_CPU_time = 4, global_CPU_time = 60\<rparr>, 5, 0, 10, 4)" by auto
  moreover have "realtime (process_machine ''app'' 3 60 ''4'') = \<lparr>sec = 7, nsec = 0\<rparr>" by (simp add: process_machine_def)
  ultimately show ?thesis by (cases ss) (auto simp: shows_reading_def shows_cpu_def)
qed

text \<open>The process has run 120 niced ticks, the machine 40 in user mode beside them.\<close>

definition niced_machine :: machine where
  "niced_machine = \<lparr>proc_file = (\<lambda>p.
     if p = pid_file 7 ''stat'' then Some (file_line 1024 (stat_text 7 ''app'' CHR ''R'' (replicate 10 0) 122 1 ''  0'') [])
     else if p = ''/proc/stat'' then Some (file_line 1024 (cpu_line 60 120 0 ''  0'') [])
     else proc_file (process_machine ''app'' 2 20 ''4'') p),
     proc_dir = None, realtime = \<lparr>sec = 8, nsec = 0\<rparr>\<rparr>"

theorem niced_process_exceeds_witness:
  "\<exists>st. resources_monitor (\<lambda>_. True) 7 ''/d'' (process_machine ''app'' 2 20 ''4'') [niced_machine] =
     Some ([resources_line \<lparr>sec = 8, nsec = 0\<rparr> st], Return 1) \<and> CPU_usage_rate st = Fin False 300"
proof -
  have 1: "file_line 1024 (stat_text 7 ''app'' CHR ''R'' (replicate 10 0) 122 1 ('' '' @ '' 0'')) [] \<noteq> []" by code_simp
  have 2: "file_line 1024 (cpu_line 60 120 0 ('' '' @ '' 0'')) [] \<noteq> []" by code_simp
  have n: "pid_file 7 ''stat'' \<noteq> ''/proc/stat''" "pid_file 7 ''status'' \<noteq> pid_file 7 ''stat''" "pid_file 7 ''status'' \<noteq> ''/proc/stat''"
    "''/proc/meminfo'' \<noteq> pid_file 7 ''stat''" by code_simp+
  have k: "kernel_texts niced_machine 7 ''app'' CHR ''R'' (replicate 10 0) 122 1 60 120 0"
    using 1 2 n(1) unfolding kernel_texts_def
    by (intro conjI exI [of _ "'' 0''"] exI [of _ "[]"]) (auto simp: niced_machine_def isspace_def)
  have "proc_file niced_machine p = proc_file (process_machine ''app'' 2 20 ''4'') p"
    if "p = pid_file 7 ''status'' \<or> p = ''/proc/meminfo''" for p
    using that n by (auto simp: niced_machine_def)
  then have f: "proc_file niced_machine (pid_file 7 ''status'') = proc_file (process_machine ''app'' 2 20 ''4'') (pid_file 7 ''status'')"
    "proc_file niced_machine ''/proc/meminfo'' = proc_file (process_machine ''app'' 2 20 ''4'') ''/proc/meminfo''" by blast+
  have "read_memory niced_machine 7 = read_memory (process_machine ''app'' 2 20 ''4'') 7"
    unfolding read_memory_def f ..
  then have m: "read_memory niced_machine (int 7) = Return (Some 5, Some 0, Some 10, Some 4)"
    using process_machine_memory(2) by simp
  have "realtime niced_machine = \<lparr>sec = 8, nsec = 0\<rparr>" by (simp add: niced_machine_def)
  then show ?thesis
    using niced_process_exceeds [OF process_machine_texts [of 2 20 "''app''" "''4''"] k _ _ _ _ m, where DataPath = "''/d''" and can_append = "\<lambda>_. True" and k = 3 and g = 40]
    by (simp add: isspace_def)
qed

end
