(* ===== verification/Disk_Monitor.thy ===== *)
theory Disk_Monitor
  imports Monitor_Common
begin

text \<open>
  The disk monitor of the application API, \<^verbatim>\<open>api/src/disk_monitor.c\<close>: the bytes a process
  read from and wrote to disk in each interval, from the counters of \<^verbatim>\<open>/proc/<pid>/io\<close>.
\<close>

definition METRIC_NAME_2 :: cstr where "METRIC_NAME_2 = ''disk_io''"

record disk_stats =
  read_bytes_before :: u64
  read_bytes_after :: u64
  write_bytes_before :: u64
  write_bytes_after :: u64

text \<open>The loop over the lines; \<open>line + 12\<close> of a line that ends before it leaves the string.\<close>

definition io_line :: "string \<Rightarrow> u64 \<times> u64 \<Rightarrow> (u64 \<times> u64) option" where
  "io_line buf = (\<lambda>(r, w). let line = c_string buf in do {
     r' \<leftarrow> (if strncmp_eq line ''read_bytes:'' 11 then scan_at 12 line r else Some r);
     w' \<leftarrow> (if strncmp_eq line ''write_bytes:'' 12 then scan_at 13 line w else Some w);
     Some (r', w')
   })"

definition disk_stats_read :: "machine \<Rightarrow> int \<Rightarrow> disk_stats \<Rightarrow> (int \<times> disk_stats) option" where
  "disk_stats_read m pid info =
     (let st = info\<lparr>read_bytes_before := read_bytes_after info, write_bytes_before := write_bytes_after info\<rparr> in
      case proc_file m (pid_file pid ''io'') of None \<Rightarrow> Some (0, st)
      | Some f \<Rightarrow> do {
          (r, w) \<leftarrow> foldM io_line (fgets_all 256 f) (read_bytes_after st, write_bytes_after st);
          Some (1, st\<lparr>read_bytes_after := r, write_bytes_after := w\<rparr>)
        })"

definition disk_throughput :: "int \<Rightarrow> u64 \<Rightarrow> u64 \<Rightarrow> cfp" where
  "disk_throughput sampling_interval rd wr = fp_conv binary32
     (fp_div binary64 (fp_mul binary64 (fp_of_u64 binary64 (rd + wr)) (Fin False 1000)) (fp_of_int binary64 sampling_interval))"

definition disk_line :: "int \<Rightarrow> timestamp \<Rightarrow> u64 \<times> u64 \<Rightarrow> cstr" where
  "disk_line sampling_interval t = (\<lambda>(rd, wr). stamp_text (milliseconds t) @ count_text ''disk_read'' rd @ count_text ''disk_write'' wr @
     float_text ''disk_throughput'' (disk_throughput sampling_interval rd wr) @ [NL])"

definition disk_delta :: "disk_stats \<Rightarrow> u64 \<times> u64" where
  "disk_delta st = (read_bytes_after st - read_bytes_before st, write_bytes_after st - write_bytes_before st)"

text \<open>The rounds of the loop, one machine for each, with the code of each reading ignored.\<close>

fun disk_rounds :: "int \<Rightarrow> int \<Rightarrow> machine list \<Rightarrow> disk_stats \<Rightarrow> cstr list option" where
  "disk_rounds pid sampling_interval [] st = Some []"
| "disk_rounds pid sampling_interval (m # ms) st = do {
     (_, st') \<leftarrow> disk_stats_read m pid st;
     ls \<leftarrow> disk_rounds pid sampling_interval ms st';
     Some (disk_line sampling_interval (realtime m) (disk_delta st') # ls)
   }"

text \<open>The two \<open>before\<close> fields are written by the first reading before anything reads them.\<close>

definition disk_monitor ::
  "(cstr \<Rightarrow> bool) \<Rightarrow> int \<Rightarrow> cstr \<Rightarrow> int \<Rightarrow> machine \<Rightarrow> machine list \<Rightarrow> (cstr list \<times> int) option" where
  "disk_monitor can_append pid DataPath sampling_interval m0 ms = do {
     FileName \<leftarrow> data_file DataPath METRIC_NAME_2;
     if \<not> can_append FileName then Some ([], 0)
     else do {
       (_, st) \<leftarrow> disk_stats_read m0 pid
         \<lparr>read_bytes_before = 0, read_bytes_after = 0, write_bytes_before = 0, write_bytes_after = 0\<rparr>;
       ls \<leftarrow> disk_rounds pid sampling_interval ms st;
       Some (ls, 1)
     }
   }"

subsection \<open>Nothing is lost between the lines\<close>

text \<open>The counters a machine shows; a file that cannot be opened shows nothing.\<close>

definition io_shows :: "machine \<Rightarrow> int \<Rightarrow> (u64 \<times> u64) option \<Rightarrow> bool" where
  "io_shows m pid v \<longleftrightarrow> (case v of
       None \<Rightarrow> proc_file m (pid_file pid ''io'') = None
     | Some rw \<Rightarrow> (\<exists>f. proc_file m (pid_file pid ''io'') = Some f \<and> (\<forall>old. foldM io_line (fgets_all 256 f) old = Some rw)))"

definition latest :: "(u64 \<times> u64) option \<Rightarrow> u64 \<times> u64 \<Rightarrow> u64 \<times> u64" where
  "latest v old = (case v of None \<Rightarrow> old | Some rw \<Rightarrow> rw)"

definition counters :: "disk_stats \<Rightarrow> u64 \<times> u64" where
  "counters st = (read_bytes_after st, write_bytes_after st)"

lemma disk_read_shows:
  assumes "io_shows m pid v"
  shows "\<exists>rc st'. disk_stats_read m pid st = Some (rc, st') \<and> counters st' = latest v (counters st) \<and>
    disk_delta st' = (fst (latest v (counters st)) - read_bytes_after st, snd (latest v (counters st)) - write_bytes_after st)"
proof (cases v)
  case None
  then show ?thesis using assms by (simp add: io_shows_def disk_stats_read_def counters_def latest_def disk_delta_def)
next
  case (Some rw)
  then show ?thesis using assms
    by (cases rw) (auto simp: io_shows_def disk_stats_read_def counters_def latest_def disk_delta_def Let_def)
qed

lemma disk_rounds_sum:
  assumes "list_all2 (\<lambda>m v. io_shows m pid v) ms vs"
  shows "\<exists>ds. disk_rounds pid si ms st = Some (map (\<lambda>(m, d). disk_line si (realtime m) d) (zip ms ds)) \<and>
    length ds = length ms \<and> sum_list (map fst ds) = fst (fold latest vs (counters st)) - read_bytes_after st \<and>
    sum_list (map snd ds) = snd (fold latest vs (counters st)) - write_bytes_after st"
  using assms
proof (induction ms vs arbitrary: st rule: list_all2_induct)
  case Nil
  then show ?case by (simp add: counters_def)
next
  case (Cons m ms v vs)
  obtain rc st' where s: "disk_stats_read m pid st = Some (rc, st')" "counters st' = latest v (counters st)"
    "disk_delta st' = (fst (latest v (counters st)) - read_bytes_after st, snd (latest v (counters st)) - write_bytes_after st)"
    using disk_read_shows [OF Cons.hyps(1)] by blast
  obtain ds where ds: "disk_rounds pid si ms st' = Some (map (\<lambda>(m, d). disk_line si (realtime m) d) (zip ms ds))"
    "length ds = length ms" "sum_list (map fst ds) = fst (fold latest vs (counters st')) - read_bytes_after st'"
    "sum_list (map snd ds) = snd (fold latest vs (counters st')) - write_bytes_after st'"
    using Cons.IH by blast
  have c: "read_bytes_after st' = fst (counters st')" "write_bytes_after st' = snd (counters st')" by (simp_all add: counters_def)
  show ?case using s ds c by (intro exI [of _ "disk_delta st' # ds"]) simp
qed

lemma disk_monitor_sum:
  assumes "length DataPath < 240" "can_append (DataPath @ ''/disk_io'')"
    "io_shows m0 pid (Some (r0, w0))" "list_all2 (\<lambda>m v. io_shows m pid v) ms vs"
  shows "\<exists>ds. disk_monitor can_append pid DataPath si m0 ms =
      Some (map (\<lambda>(m, d). disk_line si (realtime m) d) (zip ms ds), 1) \<and> length ds = length ms \<and>
    sum_list (map fst ds) = fst (fold latest vs (r0, w0)) - r0 \<and>
    sum_list (map snd ds) = snd (fold latest vs (r0, w0)) - w0"
proof -
  obtain rc st where s: "disk_stats_read m0 pid
      \<lparr>read_bytes_before = 0, read_bytes_after = 0, write_bytes_before = 0, write_bytes_after = 0\<rparr> = Some (rc, st)"
    "counters st = (r0, w0)"
    using disk_read_shows [OF assms(3)] unfolding latest_def option.case by blast
  then show ?thesis using disk_rounds_sum [OF assms(4), of si st] assms(1,2)
    by (auto simp: disk_monitor_def data_file_def METRIC_NAME_2_def counters_def)
qed

text \<open>
  C16. The byte counts of all lines together are exactly the growth of the counters (modulo
  2^64) from the first reading to the last one that succeeded: a reading that fails in between
  shows as zero and its bytes are counted by the next one that succeeds.
\<close>

theorem disk_monitor_accounts:
  assumes "length DataPath < 240" "can_append (DataPath @ ''/disk_io'')"
    "io_shows m0 pid (Some (r0, w0))" "list_all2 (\<lambda>m v. io_shows m pid v) ms vs"
  shows "\<exists>ds. disk_monitor can_append pid DataPath si m0 ms =
      Some (map (\<lambda>(m, d). disk_line si (realtime m) d) (zip ms ds), 1) \<and> length ds = length ms \<and>
    sum_list (map fst ds) = fst (fold latest vs (r0, w0)) - r0 \<and>
    sum_list (map snd ds) = snd (fold latest vs (r0, w0)) - w0"
  using assms by (rule disk_monitor_sum)

definition io_machine :: "string option \<Rightarrow> machine" where
  "io_machine r = \<lparr>proc_file = (\<lambda>p. if p = pid_file 7 ''io'' then
     map_option (\<lambda>s. ''read_bytes: '' @ s @ NL # ''write_bytes: 4'' @ NL # []) r else None), proc_dir = None,
     realtime = \<lparr>sec = 7, nsec = 0\<rparr>\<rparr>"

lemma io_machine_shows:
  "io_shows (io_machine None) 7 None" "io_shows (io_machine (Some ''3'')) 7 (Some (3, 4))" "io_shows (io_machine (Some ''9'')) 7 (Some (9, 4))"
proof -
  have l: "fgets_all 256 (''read_bytes: '' @ [d] @ NL # ''write_bytes: 4'' @ NL # []) = [''read_bytes: '' @ [d] @ [NL], ''write_bytes: 4'' @ [NL]]"
    if "d \<noteq> NL" for d
    using that fgets_all_line [of "''read_bytes: '' @ [d]" 256 "''write_bytes: 4'' @ NL # []"] fgets_all_line [of "''write_bytes: 4''" 256 "[]"] by simp
  show "io_shows (io_machine None) 7 None" by (simp add: io_shows_def io_machine_def)
  show "io_shows (io_machine (Some ''3'')) 7 (Some (3, 4))" "io_shows (io_machine (Some ''9'')) 7 (Some (9, 4))"
    using l [of "CHR ''3''"] l [of "CHR ''9''"]
    by (simp_all add: io_shows_def io_machine_def io_line_def strncmp_eq_def c_string_def scan_at_def skip_def scan_simps)
qed

theorem disk_monitor_accounts_witness:
  "\<exists>d1 d2. disk_monitor (\<lambda>_. True) 7 ''/d'' 100 (io_machine (Some ''3'')) [io_machine None, io_machine (Some ''9'')] =
     Some ([disk_line 100 \<lparr>sec = 7, nsec = 0\<rparr> d1, disk_line 100 \<lparr>sec = 7, nsec = 0\<rparr> d2], 1) \<and> fst d1 + fst d2 = 6"
proof -
  have "list_all2 (\<lambda>m v. io_shows m 7 v) [io_machine None, io_machine (Some ''9'')] [None, Some (9, 4)]"
    using io_machine_shows by simp
  from disk_monitor_accounts [OF _ _ io_machine_shows(2) this, of "''/d''" "\<lambda>_. True" 100]
  obtain ds where ds: "disk_monitor (\<lambda>_. True) 7 ''/d'' 100 (io_machine (Some ''3'')) [io_machine None, io_machine (Some ''9'')] =
      Some (map (\<lambda>(m, d). disk_line 100 (realtime m) d) (zip [io_machine None, io_machine (Some ''9'')] ds), 1)"
    "length ds = 2" "sum_list (map fst ds) = 6" by (auto simp: latest_def)
  obtain d1 d2 where "ds = [d1, d2]" using ds(2) by (auto simp: numeral_2_eq_2 length_Suc_conv)
  moreover have "realtime (io_machine r) = \<lparr>sec = 7, nsec = 0\<rparr>" for r by (simp add: io_machine_def)
  ultimately show ?thesis using ds by (intro exI [of _ d1] exI [of _ d2]) simp
qed

end
