(* ===== verification/Linux_Sys_Power.thy ===== *)
theory Linux_Sys_Power
  imports Linux_Resources
begin

text \<open>
  The Linux_sys_power connector,
  \<^verbatim>\<open>plugins/Linux_sys_power/src/mf_Linux_sys_power_connector.c\<close>: the power of CPU, memory,
  network and disk, estimated from frequency statistics, cache misses and traffic. The machine
  of theory \<open>Plugin_Metrics\<close> is extended by what this connector reads besides: the directory of
  CPUs, the number of CPUs online, \<open>perf_event_open\<close> and \<open>read\<close> on its descriptors, and the
  contents of the stack slot of a local variable that the code does not initialise: an arbitrary
  number instead of \<open>None\<close>, so that the claims about samples hold for every value it may have.
\<close>

record power_machine =
  base :: machine
  cpu_dir :: "cstr list option"
  online_cpus :: nat
  perf_open :: "nat \<Rightarrow> int"
  perf_read :: "int \<Rightarrow> u64 option"
  stack_slot :: u64

record power_state =
  pflag :: "32 word"
  before :: cfp
  after :: cfp
  nr_cpus :: nat
  perf_fd :: "int list"
  CPU_energy_before :: cfp
  CPU_energy_after :: cfp
  memaccess_before :: u64
  memaccess_after :: u64
  net_before :: net_stats
  net_after :: net_stats
  io_before :: io_stats
  io_after :: io_stats
  open_files :: nat

definition power_start :: power_state where
  "power_start = \<lparr>pflag = 0, before = fp_zero, after = fp_zero, nr_cpus = 0, perf_fd = [],
     CPU_energy_before = fp_zero, CPU_energy_after = fp_zero, memaccess_before = 0, memaccess_after = 0,
     net_before = \<lparr>rcv_bytes = 0, send_bytes = 0\<rparr>, net_after = \<lparr>rcv_bytes = 0, send_bytes = 0\<rparr>,
     io_before = \<lparr>read_bytes = 0, write_bytes = 0\<rparr>, io_after = \<lparr>read_bytes = 0, write_bytes = 0\<rparr>, open_files = 0\<rparr>"

definition Linux_sys_power_metrics :: "cstr list" where
  "Linux_sys_power_metrics =
     [''estimated_CPU_power'', ''estimated_wifi_power'', ''estimated_memory_power'',
      ''estimated_disk_power'', ''estimated_total_power'']"

definition flag_init_power :: "cstr list \<Rightarrow> 32 word \<Rightarrow> int \<times> 32 word" where
  "flag_init_power evs w =
     (let w' = mark_events Linux_sys_power_metrics evs w in (if w' = 0 then 0 else 1, w'))"

subsection \<open>The constants, in \<open>double\<close>\<close>

definition MAX_CPU_POWER :: cfp where "MAX_CPU_POWER = lit64 (823 / 100)"
definition MIN_CPU_POWER :: cfp where "MIN_CPU_POWER = lit64 (75 / 100)"
definition MEMORY_POWER :: cfp where "MEMORY_POWER = lit64 (32 / 10)"
definition L2CACHE_MISS_LATENCY :: cfp where "L2CACHE_MISS_LATENCY = lit64 (209 / 100)"
definition E_DISK_R_PER_KB :: cfp where
  "E_DISK_R_PER_KB = fp_mul binary64 (lit64 (2 / 100)) (lit64 (278 / 100))"
definition E_DISK_W_PER_KB :: cfp where
  "E_DISK_W_PER_KB = fp_mul binary64 (lit64 (2 / 100)) (lit64 (219 / 100))"
definition E_NET_SND_PER_KB :: cfp where
  "E_NET_SND_PER_KB = fp_div binary64 (lit64 1800) (fp_mul binary64 (lit64 1024) (lit64 (12330 / 1000)))"
definition E_NET_RCV_PER_KB :: cfp where
  "E_NET_RCV_PER_KB = fp_div binary64 (lit64 1400) (fp_mul binary64 (lit64 1024) (lit64 (5665 / 1000)))"

subsection \<open>Reading the counters\<close>

text \<open>\<open>NET_stat_read\<close> of this file looks at the wireless interfaces only.\<close>

definition wifi_stat_read :: "machine \<Rightarrow> net_stats \<Rightarrow> (int \<times> net_stats) option" where
  "wifi_stat_read m info =
     (case proc_file m ''/proc/net/dev'' of None \<Rightarrow> Some (0, info)
      | Some f \<Rightarrow> do {
          (_, info') \<leftarrow> foldM (\<lambda>line. net_device ''wlan'' 6 (c_string line)) (fgets_all 1024 f)
            ((None, None), \<lparr>rcv_bytes = 0, send_bytes = 0\<rparr>);
          Some (1, info')
        })"

text \<open>
  The two functions that read the I/O statistics are, line by line, those of the
  Linux_resources connector.
\<close>

definition power_IO_stat_read :: "machine \<Rightarrow> io_stats \<Rightarrow> (int \<times> io_stats) option" where
  "power_IO_stat_read m info = sys_IO_stat_read m info"

definition sys_net_energy :: "net_stats \<Rightarrow> net_stats \<Rightarrow> cfp" where
  "sys_net_energy b a =
     fp_conv binary32 (fp_div binary64
       (fp_add binary64
         (fp_mul binary64 (fp_of_u64 binary64 (rcv_bytes a - rcv_bytes b)) E_NET_RCV_PER_KB)
         (fp_mul binary64 (fp_of_u64 binary64 (send_bytes a - send_bytes b)) E_NET_SND_PER_KB))
       (lit64 1024))"

definition sys_disk_energy :: "io_stats \<Rightarrow> io_stats \<Rightarrow> cfp" where
  "sys_disk_energy b a =
     fp_conv binary32 (fp_div binary64
       (fp_add binary64
         (fp_mul binary64 (fp_of_u64 binary64 (read_bytes a - read_bytes b)) E_DISK_R_PER_KB)
         (fp_mul binary64 (fp_of_u64 binary64 (write_bytes a - write_bytes b)) E_DISK_W_PER_KB))
       (lit64 1024))"

text \<open>
  \<open>CPU_energy_read\<close>. A CPU's file has one line per frequency, of which the loop reads up to
  16 into \<open>freqs\<close>; a line without a second number leaves its entry as the previous CPU left
  it. The energy of entry \<open>i\<close> of \<open>n\<close> is computed in \<open>float\<close> up to the division by
  \<open>max_i\<close>, then in \<open>double\<close>.
\<close>

definition read_freqs :: "string list \<Rightarrow> u64 option list \<Rightarrow> u64 option list" where
  "read_freqs lines freqs =
     map (\<lambda>(line, old). case scan_u64s 2 (c_string line) of [_, t] \<Rightarrow> Some t | _ \<Rightarrow> old) (zip lines freqs)
       @ drop (length lines) freqs"

definition power_range :: cfp where
  "power_range = fp_conv binary32 (fp_sub binary64 MAX_CPU_POWER MIN_CPU_POWER)"

definition energy_each :: "nat \<Rightarrow> nat \<Rightarrow> u64 \<Rightarrow> cfp" where
  "energy_each i max_i t =
     (let slope = fp_div binary32 (fp_mul binary32 power_range (fp_of_int binary32 (int i))) (fp_of_int binary32 (int max_i)) in
      fp_conv binary32 (fp_mul binary64
        (fp_mul binary64 (fp_sub binary64 MAX_CPU_POWER slope) (fp_of_u64 binary64 t)) (lit64 10)))"

definition add_energy :: "u64 option list \<Rightarrow> nat \<Rightarrow> nat \<Rightarrow> cfp \<Rightarrow> cfp option" where
  "add_energy freqs max_i i tot = do {
     t \<leftarrow> freqs ! i;
     Some (fp_add binary32 tot (energy_each i max_i t))
   }"

definition cpu_entry :: "machine \<Rightarrow> cstr \<Rightarrow> u64 option list \<times> cfp \<Rightarrow> (u64 option list \<times> cfp) option" where
  "cpu_entry m d_name = (\<lambda>(freqs, tot).
     if \<not> strncmp_eq d_name ''cpu'' 3 then Some (freqs, tot)
     else do {
       path \<leftarrow> c_store 128 (''/sys/devices/system/cpu/'' @ d_name @ ''/cpufreq/stats/time_in_state'');
       (case proc_file m path of None \<Rightarrow> Some (freqs, tot)
        | Some f \<Rightarrow>
            (let lines = take 16 (fgets_all 32 f); freqs' = read_freqs lines freqs in do {
               tot' \<leftarrow> foldM (add_energy freqs' (length lines - 1)) [0..<length lines] tot;
               Some (freqs', tot')
             }))
     })"

text \<open>The result and the number of streams it leaves open: the one of the first check.\<close>

definition CPU_energy_read :: "power_machine \<Rightarrow> (cfp \<times> nat) option" where
  "CPU_energy_read m =
     (if proc_file (base m) ''/sys/devices/system/cpu/cpu0/cpufreq/stats/time_in_state'' = None then Some (fp_zero, 0)
      else case cpu_dir m of None \<Rightarrow> Some (fp_zero, 1)
      | Some names \<Rightarrow> do {
          (_, tot) \<leftarrow> foldM (cpu_entry (base m)) names (replicate 16 None, fp_zero);
          Some (tot, 1)
        })"

text \<open>The array \<open>fd\<close> has 20 entries.\<close>

definition create_perf_stat_counter :: "power_machine \<Rightarrow> power_state \<Rightarrow> power_state option" where
  "create_perf_stat_counter m st =
     (if 20 < online_cpus m then None
      else Some (st\<lparr>nr_cpus := online_cpus m, perf_fd := map (perf_open m) [0..<online_cpus m]\<rparr>))"

definition read_counter :: "power_machine \<Rightarrow> int \<Rightarrow> u64" where
  "read_counter m fd =
     (if fd \<le> 0 then 0 else case perf_read m fd of None \<Rightarrow> 0 | Some v \<Rightarrow> v)"

text \<open>The sum starts from whatever the stack holds.\<close>

definition memory_counter_read :: "power_machine \<Rightarrow> power_state \<Rightarrow> u64" where
  "memory_counter_read m st =
     fold (\<lambda>i result. result + read_counter m (perf_fd st ! i)) [0..<nr_cpus st] (stack_slot m)"

subsection \<open>Initialisation\<close>

definition has_memory_or_disk :: "power_state \<Rightarrow> bool" where
  "has_memory_or_disk st \<longleftrightarrow> has_stat (pflag st) 2 \<or> has_stat (pflag st) 3"

text \<open>First readings; each is the pair of a state and the metrics, as the stages of sampling.\<close>

definition start_cpu :: "power_machine \<Rightarrow> power_state \<Rightarrow> power_state option" where
  "start_cpu m st = do {
     (e, k) \<leftarrow> CPU_energy_read m;
     Some (st\<lparr>CPU_energy_before := e, open_files := open_files st + k\<rparr>)
   }"

definition start_memory :: "power_machine \<Rightarrow> power_state \<Rightarrow> power_state option" where
  "start_memory m st = do {
     st' \<leftarrow> create_perf_stat_counter m st;
     Some (st'\<lparr>memaccess_before := memory_counter_read m st'\<rparr>)
   }"

definition start_net :: "power_machine \<Rightarrow> power_state \<Rightarrow> power_state option" where
  "start_net m st = do { (_, n) \<leftarrow> wifi_stat_read (base m) (net_before st); Some (st\<lparr>net_before := n\<rparr>) }"

definition start_io :: "power_machine \<Rightarrow> power_state \<Rightarrow> power_state option" where
  "start_io m st = do { (_, io) \<leftarrow> power_IO_stat_read (base m) (io_before st); Some (st\<lparr>io_before := io\<rparr>) }"

text \<open>The names of the part metrics, in the order in which both branches add them.\<close>

definition part_events :: "power_state \<Rightarrow> cstr list" where
  "part_events st =
     (if has_stat (pflag st) 0 then [''estimated_CPU_power''] else []) @
     (if has_stat (pflag st) 1 then [''estimated_wifi_power''] else []) @
     (if has_memory_or_disk st then [''estimated_memory_power'', ''estimated_disk_power''] else [])"

definition power_init_total ::
  "power_machine \<Rightarrow> power_state \<times> Plugin_metrics \<Rightarrow> (power_state \<times> Plugin_metrics) option" where
  "power_init_total m = (\<lambda>(st, d). do {
     d1 \<leftarrow> add_event ''estimated_total_power'' d;
     st1 \<leftarrow> start_cpu m st;
     st2 \<leftarrow> start_memory m st1;
     st3 \<leftarrow> start_net m st2;
     st4 \<leftarrow> start_io m st3;
     d2 \<leftarrow> foldM add_event (part_events st) d1;
     Some (st4, d2)
   })"

definition power_init_parts ::
  "power_machine \<Rightarrow> power_state \<times> Plugin_metrics \<Rightarrow> (power_state \<times> Plugin_metrics) option" where
  "power_init_parts m = (\<lambda>(st, d). do {
     d' \<leftarrow> foldM add_event (part_events st) d;
     st1 \<leftarrow> (if has_stat (pflag st) 0 then start_cpu m st else Some st);
     st2 \<leftarrow> (if has_stat (pflag st) 1 then start_net m st1 else Some st1);
     st3 \<leftarrow> (if has_memory_or_disk st then start_memory m st2 else Some st2);
     st4 \<leftarrow> (if has_memory_or_disk st then start_io m st3 else Some st3);
     Some (st4, d')
   })"

definition mf_Linux_sys_power_init ::
  "power_machine \<Rightarrow> cstr list \<Rightarrow> power_state \<times> Plugin_metrics \<Rightarrow> (int \<times> power_state \<times> Plugin_metrics) option" where
  "mf_Linux_sys_power_init m evs = (\<lambda>(st, d).
     case flag_init_power evs (pflag st) of (ok, w) \<Rightarrow>
       if ok = 0 then Some (0, st\<lparr>pflag := w\<rparr>, d)
       else do {
         (st', d') \<leftarrow> (if has_stat w 4 then power_init_total m (st\<lparr>pflag := w\<rparr>, d)
                      else power_init_parts m (st\<lparr>pflag := w\<rparr>, d));
         Some (1, st'\<lparr>before := seconds (realtime (base m))\<rparr>, d'\<lparr>num_events := length (events d')\<rparr>)
       })"

subsection \<open>Sampling\<close>

text \<open>Each reading gives the energy of the interval, a \<open>float\<close> in mJ, and moves \<open>before\<close> up.\<close>

definition cpu_energy :: "power_machine \<Rightarrow> power_state \<Rightarrow> (cfp \<times> power_state) option" where
  "cpu_energy m st = do {
     (e, k) \<leftarrow> CPU_energy_read m;
     Some (fp_sub binary32 e (CPU_energy_before st),
       st\<lparr>CPU_energy_after := e, CPU_energy_before := e, open_files := open_files st + k\<rparr>)
   }"

definition net_energy :: "power_machine \<Rightarrow> power_state \<Rightarrow> (cfp \<times> power_state) option" where
  "net_energy m st = do {
     (_, n) \<leftarrow> wifi_stat_read (base m) (net_after st);
     Some (sys_net_energy (net_before st) n, st\<lparr>net_after := n, net_before := n\<rparr>)
   }"

definition memory_energy :: "io_stats \<Rightarrow> io_stats \<Rightarrow> u64 \<Rightarrow> u64 \<Rightarrow> cfp" where
  "memory_energy b a mem_b mem_a =
     fp_conv binary32 (fp_mul binary64 (fp_mul binary64 (fp_mul binary64
       (fp_of_u64 binary64
         ((read_bytes a + write_bytes a - read_bytes b - write_bytes b) div 256 + (mem_a - mem_b)))
       L2CACHE_MISS_LATENCY) MEMORY_POWER) (lit64 (1 / 10 ^ 6)))"

text \<open>The result is the energy of memory and of disk.\<close>

definition memory_disk_energy :: "power_machine \<Rightarrow> power_state \<Rightarrow> (cfp \<times> cfp \<times> power_state) option" where
  "memory_disk_energy m st = do {
     (_, io) \<leftarrow> power_IO_stat_read (base m) (io_after st);
     (let mem = memory_counter_read m st in
      Some (memory_energy (io_before st) io (memaccess_before st) mem, sys_disk_energy (io_before st) io,
        st\<lparr>memaccess_after := mem, memaccess_before := mem, io_after := io, io_before := io\<rparr>))
   }"

definition power_sample_total ::
  "power_machine \<Rightarrow> cfp \<Rightarrow> power_state \<times> Plugin_metrics \<Rightarrow> (power_state \<times> Plugin_metrics) option" where
  "power_sample_total m interval = (\<lambda>(st, d). do {
     (ecpu, st1) \<leftarrow> cpu_energy m st;
     (enet, st2) \<leftarrow> net_energy m st1;
     (emem, edisk, st3) \<leftarrow> memory_disk_energy m st2;
     (_, d') \<leftarrow> put_values
       (power_over (fp_add binary32 (fp_add binary32 (fp_add binary32 ecpu emem) enet) edisk) interval #
        (if has_stat (pflag st) 0 then [power_over ecpu interval] else []) @
        (if has_stat (pflag st) 1 then [power_over enet interval] else []) @
        (if has_memory_or_disk st then [power_over emem interval, power_over edisk interval] else [])) 0 d;
     Some (st3, d')
   })"

definition power_sample_parts ::
  "power_machine \<Rightarrow> cfp \<Rightarrow> power_state \<times> Plugin_metrics \<Rightarrow> (power_state \<times> Plugin_metrics) option" where
  "power_sample_parts m interval = (\<lambda>(st, d). do {
     (vs1, st1) \<leftarrow> (if has_stat (pflag st) 0
       then do { (e, s) \<leftarrow> cpu_energy m st; Some ([power_over e interval], s) } else Some ([], st));
     (vs2, st2) \<leftarrow> (if has_stat (pflag st) 1
       then do { (e, s) \<leftarrow> net_energy m st1; Some ([power_over e interval], s) } else Some ([], st1));
     (vs3, st3) \<leftarrow> (if has_memory_or_disk st
       then do { (e1, e2, s) \<leftarrow> memory_disk_energy m st2; Some ([power_over e1 interval, power_over e2 interval], s) }
       else Some ([], st2));
     (_, d') \<leftarrow> put_values (vs1 @ vs2 @ vs3) 0 d;
     Some (st3, d')
   })"

definition mf_Linux_sys_power_sample ::
  "power_machine \<Rightarrow> power_state \<times> Plugin_metrics \<Rightarrow> (power_state \<times> Plugin_metrics) option" where
  "mf_Linux_sys_power_sample m = (\<lambda>(st, d).
     (let now = seconds (realtime (base m)); interval = fp_sub binary64 now (before st) in do {
        (st', d') \<leftarrow> (if has_stat (pflag st) 4 then power_sample_total m interval (st\<lparr>after := now\<rparr>, d)
                     else power_sample_parts m interval (st\<lparr>after := now\<rparr>, d));
        Some (st'\<lparr>before := now\<rparr>, d')
      }))"

text \<open>
  Memory and disk are always computed together, so the JSON text leaves out the one that was
  not asked for.
\<close>

definition power_json_event :: "power_state \<Rightarrow> Plugin_metrics \<Rightarrow> nat \<Rightarrow> cstr \<Rightarrow> cstr option" where
  "power_json_event st d i json =
     (if length (events d) \<le> i then None
      else if events d ! i = ''estimated_memory_power'' \<and> \<not> has_stat (pflag st) 2 then Some json
      else if events d ! i = ''estimated_disk_power'' \<and> \<not> has_stat (pflag st) 3 then Some json
      else json_nonnegative d i json)"

definition mf_Linux_sys_power_to_json :: "power_state \<Rightarrow> Plugin_metrics \<Rightarrow> cstr option" where
  "mf_Linux_sys_power_to_json st d = do {
     json \<leftarrow> json_begin ''Linux_sys_power'' (fp_mul binary64 (after st) (Fin False 1000));
     foldM (power_json_event st d) [0..<num_events d] json
   }"


subsection \<open>Values and events\<close>

text \<open>What each event should report: the energy of the interval behind it.\<close>

definition total_energy :: "power_machine \<Rightarrow> power_state \<Rightarrow> cfp" where
  "total_energy m st = fp_add binary32 (fp_add binary32 (fp_add binary32 (fst (the (cpu_energy m st)))
     (fst (the (memory_disk_energy m st)))) (fst (the (net_energy m st)))) (fst (snd (the (memory_disk_energy m st))))"

definition event_energy :: "power_machine \<Rightarrow> power_state \<Rightarrow> cstr \<Rightarrow> cfp" where
  "event_energy m st e =
     (if e = ''estimated_CPU_power'' then fst (the (cpu_energy m st))
      else if e = ''estimated_wifi_power'' then fst (the (net_energy m st))
      else if e = ''estimated_memory_power'' then fst (the (memory_disk_energy m st))
      else if e = ''estimated_disk_power'' then fst (snd (the (memory_disk_energy m st)))
      else total_energy m st)"

definition power_events :: "power_state \<Rightarrow> cstr list" where
  "power_events st = (if has_stat (pflag st) 4 then [''estimated_total_power''] else []) @ part_events st"

definition power_ready :: "power_state \<Rightarrow> Plugin_metrics \<Rightarrow> bool" where
  "power_ready st d \<longleftrightarrow> events d = power_events st \<and> num_events d = length (events d) \<and> length (values d) = 32"

text \<open>A reading leaves the counters of the others alone.\<close>

lemma cpu_frame:
  assumes "cpu_energy m st = Some (e, st')"
  shows "pflag st' = pflag st" "net_before st' = net_before st" "net_after st' = net_after st"
    "io_before st' = io_before st" "io_after st' = io_after st" "memaccess_before st' = memaccess_before st"
    "perf_fd st' = perf_fd st" "nr_cpus st' = nr_cpus st"
  using assms by (auto simp: cpu_energy_def Option.bind_eq_Some_conv)

lemma net_frame:
  assumes "net_energy m st = Some (e, st')"
  shows "pflag st' = pflag st" "io_before st' = io_before st" "io_after st' = io_after st"
    "memaccess_before st' = memaccess_before st" "perf_fd st' = perf_fd st" "nr_cpus st' = nr_cpus st"
    "open_files st' = open_files st"
  using assms by (auto simp: net_energy_def Option.bind_eq_Some_conv)

lemma net_energy_cong:
  "net_before s = net_before t \<Longrightarrow> net_after s = net_after t \<Longrightarrow>
   map_option fst (net_energy m s) = map_option fst (net_energy m t)"
  by (simp add: net_energy_def split: Option.bind_split)

lemma memory_disk_cong:
  "io_before s = io_before t \<Longrightarrow> io_after s = io_after t \<Longrightarrow> memaccess_before s = memaccess_before t \<Longrightarrow>
   perf_fd s = perf_fd t \<Longrightarrow> nr_cpus s = nr_cpus t \<Longrightarrow>
   map_option (\<lambda>(a, b, c). (a, b)) (memory_disk_energy m s) = map_option (\<lambda>(a, b, c). (a, b)) (memory_disk_energy m t)"
  by (simp add: memory_disk_energy_def memory_counter_read_def Let_def split: Option.bind_split)

lemma memory_disk_frame:
  "memory_disk_energy m st = Some (e1, e2, st') \<Longrightarrow> pflag st' = pflag st \<and> open_files st' = open_files st"
  by (auto simp: memory_disk_energy_def Let_def Option.bind_eq_Some_conv)

lemma sample_total_values:
  assumes "power_sample_total m t (st, d) = Some (st', d')" "has_stat (pflag st) 4"
  shows "\<exists>n. put_values (map (\<lambda>e. power_over (event_energy m st e) t) (power_events st)) 0 d = Some (n, d')
    \<and> pflag st' = pflag st"
proof -
  obtain ecpu s1 enet s2 emem edisk s3 n where
    1: "cpu_energy m st = Some (ecpu, s1)" and 2: "net_energy m s1 = Some (enet, s2)"
    and 3: "memory_disk_energy m s2 = Some (emem, edisk, s3)" and st': "st' = s3"
    and v: "put_values
       (power_over (fp_add binary32 (fp_add binary32 (fp_add binary32 ecpu emem) enet) edisk) t #
        (if has_stat (pflag st) 0 then [power_over ecpu t] else []) @
        (if has_stat (pflag st) 1 then [power_over enet t] else []) @
        (if has_memory_or_disk st then [power_over emem t, power_over edisk t] else [])) 0 d = Some (n, d')"
    using assms(1) by (auto simp: power_sample_total_def Option.bind_eq_Some_conv)
  have n: "fst (the (net_energy m st)) = enet"
    using net_energy_cong [of s1 st m] cpu_frame [OF 1] 2 by (auto simp: map_option_case split: option.splits)
  have md: "fst (the (memory_disk_energy m st)) = emem" "fst (snd (the (memory_disk_energy m st))) = edisk"
    using memory_disk_cong [of s2 st m] cpu_frame [OF 1] net_frame [OF 2] 3
    by (auto simp: map_option_case split: option.splits)
  have "pflag st' = pflag st" using memory_disk_frame [OF 3] net_frame(1) [OF 2] cpu_frame(1) [OF 1] st' by simp
  moreover have "map (\<lambda>e. power_over (event_energy m st e) t) (power_events st) =
       power_over (fp_add binary32 (fp_add binary32 (fp_add binary32 ecpu emem) enet) edisk) t #
        (if has_stat (pflag st) 0 then [power_over ecpu t] else []) @
        (if has_stat (pflag st) 1 then [power_over enet t] else []) @
        (if has_memory_or_disk st then [power_over emem t, power_over edisk t] else [])"
    using assms(2) 1 n md by (simp add: power_events_def part_events_def event_energy_def total_energy_def)
  ultimately show ?thesis using v by (metis (no_types))
qed

lemma sample_parts_values:
  assumes "power_sample_parts m t (st, d) = Some (st', d')" "\<not> has_stat (pflag st) 4"
  shows "\<exists>n. put_values (map (\<lambda>e. power_over (event_energy m st e) t) (power_events st)) 0 d = Some (n, d')
    \<and> pflag st' = pflag st"
proof -
  obtain vs1 s1 vs2 s2 vs3 s3 n where
    1: "(if has_stat (pflag st) 0 then do { (e, s) \<leftarrow> cpu_energy m st; Some ([power_over e t], s) } else Some ([], st)) = Some (vs1, s1)"
    and 2: "(if has_stat (pflag st) 1 then do { (e, s) \<leftarrow> net_energy m s1; Some ([power_over e t], s) } else Some ([], s1)) = Some (vs2, s2)"
    and 3: "(if has_memory_or_disk st
       then do { (e1, e2, s) \<leftarrow> memory_disk_energy m s2; Some ([power_over e1 t, power_over e2 t], s) }
       else Some ([], s2)) = Some (vs3, s3)" and st': "st' = s3"
    and v: "put_values (vs1 @ vs2 @ vs3) 0 d = Some (n, d')"
    using assms(1) by (auto simp: power_sample_parts_def Option.bind_eq_Some_conv)
  have f1: "pflag s1 = pflag st" "net_before s1 = net_before st" "net_after s1 = net_after st"
    "io_before s1 = io_before st" "io_after s1 = io_after st" "memaccess_before s1 = memaccess_before st"
    "perf_fd s1 = perf_fd st" "nr_cpus s1 = nr_cpus st"
    using 1 by (auto simp: Option.bind_eq_Some_conv cpu_frame split: if_splits)
  have f2: "pflag s2 = pflag st" "io_before s2 = io_before st" "io_after s2 = io_after st"
    "memaccess_before s2 = memaccess_before st" "perf_fd s2 = perf_fd st" "nr_cpus s2 = nr_cpus st"
    using 2 f1 by (auto simp: Option.bind_eq_Some_conv net_frame split: if_splits)
  have v1: "vs1 = (if has_stat (pflag st) 0 then [power_over (fst (the (cpu_energy m st))) t] else [])"
    using 1 by (auto simp: Option.bind_eq_Some_conv split: if_splits)
  have v2: "vs2 = (if has_stat (pflag st) 1 then [power_over (fst (the (net_energy m st))) t] else [])"
    using 2 net_energy_cong [of s1 st m] f1
    by (auto simp: Option.bind_eq_Some_conv map_option_case split: if_splits option.splits)
  have v3: "vs3 = (if has_memory_or_disk st then [power_over (fst (the (memory_disk_energy m st))) t,
      power_over (fst (snd (the (memory_disk_energy m st)))) t] else [])"
    using 3 memory_disk_cong [of s2 st m] f2
    by (auto simp: Option.bind_eq_Some_conv map_option_case split: if_splits option.splits)
  have "pflag st' = pflag st" using 3 f2 st'
    by (auto simp: Option.bind_eq_Some_conv memory_disk_frame split: if_splits)
  moreover have "map (\<lambda>e. power_over (event_energy m st e) t) (power_events st) = vs1 @ vs2 @ vs3"
    using assms(2) by (simp add: v1 v2 v3 power_events_def part_events_def event_energy_def)
  ultimately show ?thesis using v by (metis (no_types))
qed

lemma power_events_cong: "pflag s = pflag t \<Longrightarrow> power_events s = power_events t"
  by (simp add: power_events_def part_events_def has_memory_or_disk_def)

definition stamped :: "power_machine \<Rightarrow> power_state \<Rightarrow> power_state" where
  "stamped m st = st\<lparr>after := seconds (realtime (base m))\<rparr>"

definition power_interval :: "power_machine \<Rightarrow> power_state \<Rightarrow> cfp" where
  "power_interval m st = fp_sub binary64 (seconds (realtime (base m))) (before st)"

lemma power_sample_values:
  assumes "mf_Linux_sys_power_sample m (st, d) = Some (st', d')"
  shows "(\<exists>n. put_values (map (\<lambda>e. power_over (event_energy m (stamped m st) e) (power_interval m st)) (power_events st)) 0 d =
      Some (n, d')) \<and> pflag st' = pflag st"
proof -
  have e: "power_events (stamped m st) = power_events st" by (rule power_events_cong) (simp add: stamped_def)
  have f: "pflag (stamped m st) = pflag st" by (simp add: stamped_def)
  obtain s where s: "st' = s\<lparr>before := seconds (realtime (base m))\<rparr>"
    and r: "(if has_stat (pflag st) 4 then power_sample_total m (power_interval m st) (stamped m st, d)
      else power_sample_parts m (power_interval m st) (stamped m st, d)) = Some (s, d')"
    using assms unfolding stamped_def power_interval_def
    by (auto simp: mf_Linux_sys_power_sample_def Let_def Option.bind_eq_Some_conv)
  show ?thesis
  proof (cases "has_stat (pflag st) 4")
    case True
    with r have "power_sample_total m (power_interval m st) (stamped m st, d) = Some (s, d')" by simp
    from sample_total_values [OF this] True show ?thesis by (simp add: e f s)
  next
    case False
    with r have "power_sample_parts m (power_interval m st) (stamped m st, d) = Some (s, d')" by simp
    from sample_parts_values [OF this] False show ?thesis by (simp add: e f s)
  qed
qed

lemma power_sample_same: "mf_Linux_sys_power_sample m (st, d) = Some (st', d') \<Longrightarrow> same_events d d'"
  using power_sample_values put_values_spec by blast

lemma power_ready_step:
  "power_ready st d \<Longrightarrow> mf_Linux_sys_power_sample m (st, d) = Some (st', d') \<Longrightarrow> power_ready st' d'"
  using power_sample_same [of m st d st' d'] power_sample_values [of m st d st' d'] power_events_cong [of st' st]
  by (simp add: power_ready_def same_events_def)

interpretation power: connector mf_Linux_sys_power_sample
  by unfold_locales (rule power_sample_same)

text \<open>
  C19. Power values stay with their names: after a sample, the value at the index of each event
  is the energy of that event's source over the interval, divided by its length; the total is
  the sum of the four sources; the events are unchanged, so this holds again for the next sample.
\<close>

theorem Linux_sys_power_sample_aligned:
  assumes "power_ready st d" "mf_Linux_sys_power_sample m (st, d) = Some (st', d')" "j < num_events d"
  shows "power_ready st' d' \<and>
    values d' ! j = Some (power_over (event_energy m (stamped m st) (events d ! j)) (power_interval m st))"
proof -
  obtain n where v: "put_values (map (\<lambda>e. power_over (event_energy m (stamped m st) e) (power_interval m st)) (power_events st)) 0 d =
      Some (n, d')" and f: "pflag st' = pflag st"
    using power_sample_values [OF assms(2)] by blast
  have "power_ready st' d'" using power_ready_step assms(1,2) .
  moreover have "j < length (power_events st)" using assms(1,3) by (simp add: power_ready_def)
  ultimately show ?thesis using values_of_events [OF v] assms(1) by (simp add: power_ready_def)
qed


subsection \<open>Initialisation prepares sampling\<close>

lemma start_flags:
  "start_cpu m st = Some st' \<Longrightarrow> pflag st' = pflag st" "start_memory m st = Some st' \<Longrightarrow> pflag st' = pflag st"
  "start_net m st = Some st' \<Longrightarrow> pflag st' = pflag st" "start_io m st = Some st' \<Longrightarrow> pflag st' = pflag st"
  by (auto simp: start_cpu_def start_memory_def start_net_def start_io_def create_perf_stat_counter_def
      Option.bind_eq_Some_conv split: if_splits)

lemma init_total_events:
  assumes "power_init_total m (st, d) = Some (st', d')" "has_stat (pflag st) 4"
  shows "pflag st' = pflag st \<and> events d' = events d @ power_events st \<and> values d' = values d"
proof -
  obtain d1 s1 s2 s3 d2 where "add_event ''estimated_total_power'' d = Some d1" "start_cpu m st = Some s1"
    "start_memory m s1 = Some s2" "start_net m s2 = Some s3" "start_io m s3 = Some st'"
    "foldM add_event (part_events st) d1 = Some d'"
    using assms(1) by (auto simp: power_init_total_def Option.bind_eq_Some_conv)
  then show ?thesis using assms(2) add_events_Some add_event_Some by (simp add: start_flags power_events_def)
qed

lemma init_parts_events:
  assumes "power_init_parts m (st, d) = Some (st', d')" "\<not> has_stat (pflag st) 4"
  shows "pflag st' = pflag st \<and> events d' = events d @ power_events st \<and> values d' = values d"
proof -
  obtain s1 s2 s3 where e: "foldM add_event (part_events st) d = Some d'"
    and s: "(if has_stat (pflag st) 0 then start_cpu m st else Some st) = Some s1"
      "(if has_stat (pflag st) 1 then start_net m s1 else Some s1) = Some s2"
      "(if has_memory_or_disk st then start_memory m s2 else Some s2) = Some s3"
      "(if has_memory_or_disk st then start_io m s3 else Some s3) = Some st'"
    using assms(1) by (auto simp: power_init_parts_def Option.bind_eq_Some_conv)
  have "pflag s1 = pflag st" "pflag s2 = pflag s1" "pflag s3 = pflag s2" "pflag st' = pflag s3"
    using s by (auto simp: start_flags split: if_split_asm)
  then show ?thesis using add_events_Some [OF e] assms(2) by (simp add: power_events_def)
qed

lemma flag_init_power_bit:
  "has_stat (snd (flag_init_power evs 0)) ii \<longleftrightarrow> ii < 5 \<and> Linux_sys_power_metrics ! ii \<in> set evs"
proof -
  have "length Linux_sys_power_metrics = 5" by (simp add: Linux_sys_power_metrics_def)
  then show ?thesis using bit_mark_events [of Linux_sys_power_metrics evs 0 ii]
    by (simp add: flag_init_power_def Let_def has_stat_def)
qed

lemma power_init_ready:
  assumes "mf_Linux_sys_power_init m evs (power_start, metrics_start) = Some (rc, st, d)"
  shows "(rc = 0 \<longleftrightarrow> (\<forall>e \<in> set evs. e \<notin> set Linux_sys_power_metrics)) \<and>
    (rc \<noteq> 0 \<longrightarrow> power_ready st d \<and> (\<forall>ii < 5. has_stat (pflag st) ii \<longleftrightarrow> Linux_sys_power_metrics ! ii \<in> set evs))"
proof -
  obtain k w where fi: "flag_init_power evs 0 = (k, w)" by (cases "flag_init_power evs 0")
  have code: "k = (if w = 0 then 0 else 1)" using fi by (auto simp: flag_init_power_def Let_def split: if_split_asm)
  have p0: "pflag power_start = 0" by (simp add: power_start_def)
  note bits = flag_init_power_bit [of evs, unfolded fi snd_conv]
  have "w = 0 \<longleftrightarrow> (\<forall>ii < 5. \<not> has_stat w ii)"
    using bits by (auto simp: has_stat_def bit_eq_iff)
  also have "\<dots> \<longleftrightarrow> (\<forall>ii < length Linux_sys_power_metrics. Linux_sys_power_metrics ! ii \<notin> set evs)"
    by (auto simp: bits) (auto simp: Linux_sys_power_metrics_def)
  also have "\<dots> \<longleftrightarrow> (\<forall>e \<in> set evs. e \<notin> set Linux_sys_power_metrics)"
    by (metis in_set_conv_nth)
  finally have zero: "w = 0 \<longleftrightarrow> (\<forall>e \<in> set evs. e \<notin> set Linux_sys_power_metrics)" .
  show ?thesis
  proof (cases "w = 0")
    case True
    then show ?thesis using assms code zero
      by (simp add: mf_Linux_sys_power_init_def p0 fi)
  next
    case False
    obtain s d1 where r: "(if has_stat w 4 then power_init_total m (power_start\<lparr>pflag := w\<rparr>, metrics_start)
        else power_init_parts m (power_start\<lparr>pflag := w\<rparr>, metrics_start)) = Some (s, d1)"
      and rc: "rc = 1" "st = s\<lparr>before := seconds (realtime (base m))\<rparr>" "d = d1\<lparr>num_events := length (events d1)\<rparr>"
      using assms False code unfolding mf_Linux_sys_power_init_def prod.case p0 fi
      by (auto simp: Option.bind_eq_Some_conv)
    have *: "pflag s = w \<and> events d1 = power_events (power_start\<lparr>pflag := w\<rparr>) \<and> values d1 = values metrics_start"
      using init_total_events [of m "power_start\<lparr>pflag := w\<rparr>" metrics_start s d1]
        init_parts_events [of m "power_start\<lparr>pflag := w\<rparr>" metrics_start s d1] r
      by (auto simp: metrics_start_def split: if_splits)
    have "power_events st = power_events (power_start\<lparr>pflag := w\<rparr>)"
      using * rc(2) by (intro power_events_cong) simp
    then have "power_ready st d" using * rc by (simp add: power_ready_def metrics_start_def MAX_EVENTS_NUMBER_def)
    then show ?thesis using * rc zero False by (simp add: bits)
  qed
qed

text \<open>
  Initialisation of the power connector fails if and only if no known metric is asked for;
  otherwise exactly the bits of the requested metrics are set and the events are the ones a
  sample fills, in its order.
\<close>

theorem Linux_sys_power_init_events:
  assumes "mf_Linux_sys_power_init m evs (power_start, metrics_start) = Some (rc, st, d)"
  shows "(rc = 0 \<longleftrightarrow> (\<forall>e \<in> set evs. e \<notin> set Linux_sys_power_metrics)) \<and>
    (rc \<noteq> 0 \<longrightarrow> power_ready st d \<and> (\<forall>ii < 5. has_stat (pflag st) ii \<longleftrightarrow> Linux_sys_power_metrics ! ii \<in> set evs))"
  using assms by (rule power_init_ready)

subsection \<open>The energy of the CPUs\<close>

lemma power_range_finite: "\<exists>q. power_range = Fin False q"
proof -
  let ?a = "rnd binary64 (823 / 100)" and ?b = "rnd binary64 (75 / 100)"
  have a: "?a \<le> 9" "8 \<le> ?a"
    using r64_below_nat [of "823 / 100" 9] r64_above_nat [of 8 "823 / 100"] by simp_all
  have b: "?b \<le> 1" "0 \<le> ?b"
    using r64_below_nat [of "75 / 100" 1] rnd_nonneg [of "75 / 100" binary64] by simp_all
  have d: "0 < ?a - ?b" "?a - ?b \<le> 9" using a b by simp_all
  then have "fp_of_rat binary64 (?a - ?b) = Fin False (rnd binary64 (?a - ?b))"
    by (intro fp_of_rat64 below_max64I [where c = 9]) simp_all
  then have s: "fp_sub binary64 MAX_CPU_POWER MIN_CPU_POWER = Fin False (rnd binary64 (?a - ?b))"
    using d by (simp add: fp_sub_def MAX_CPU_POWER_def MIN_CPU_POWER_def lit64_Fin signed_def Let_def)
  have "rnd binary64 (?a - ?b) \<le> 9" using d r64_below_nat [of "?a - ?b" 9] by simp
  moreover have "0 \<le> rnd binary64 (?a - ?b)" using d by (simp add: rnd_nonneg)
  ultimately show ?thesis by (simp add: power_range_def s fp_round32)
qed

text \<open>With one frequency, \<open>max_i\<close> is 0 and the slope is 0 / 0.\<close>

lemma energy_each_single: "energy_each 0 0 t = NaN"
proof -
  obtain q where q: "power_range = Fin False q" using power_range_finite by blast
  have "fp_mul binary32 power_range (fp_of_int binary32 (int 0)) = fp_zero" unfolding q by simp
  then show ?thesis unfolding energy_each_def Let_def by simp
qed

lemma add_energies_NaN: "foldM (add_energy freqs n) js NaN = Some e \<Longrightarrow> e = NaN"
  by (induction js) (auto simp: add_energy_def Option.bind_eq_Some_conv)

lemma cpu_entry_NaN: "cpu_entry m d (freqs, NaN) = Some (freqs', e) \<Longrightarrow> e = NaN"
  by (auto simp: cpu_entry_def Let_def Option.bind_eq_Some_conv dest: add_energies_NaN
      split: if_split_asm option.split_asm)

lemma cpu_entries_NaN: "foldM (cpu_entry m) ds (freqs, NaN) = Some (freqs', e) \<Longrightarrow> e = NaN"
proof (induction ds arbitrary: freqs)
  case (Cons d ds)
  then obtain f t where "cpu_entry m d (freqs, NaN) = Some (f, t)" "foldM (cpu_entry m) ds (f, t) = Some (freqs', e)"
    by (auto simp: Option.bind_eq_Some_conv)
  with Cons.IH cpu_entry_NaN show ?case by blast
qed simp

definition one_frequency :: "machine \<Rightarrow> cstr \<Rightarrow> bool" where
  "one_frequency m d \<longleftrightarrow> strncmp_eq d ''cpu'' 3 \<and>
     (case proc_file m (''/sys/devices/system/cpu/'' @ d @ ''/cpufreq/stats/time_in_state'') of
        None \<Rightarrow> False | Some f \<Rightarrow> length (fgets_all 32 f) = 1)"

lemma c_store_eq: "c_store n s = Some s' \<Longrightarrow> s' = s"
  by (auto simp: c_store_def split: if_split_asm)

lemma one_frequency_NaN:
  assumes "one_frequency m d" "cpu_entry m d (freqs, tot) = Some (freqs', e)"
  shows "e = NaN"
proof -
  obtain f where f: "proc_file m (''/sys/devices/system/cpu/'' @ d @ ''/cpufreq/stats/time_in_state'') = Some f"
    and l: "length (fgets_all 32 f) = 1" and c: "strncmp_eq d ''cpu'' 3"
    using assms(1) by (auto simp: one_frequency_def split: option.split_asm)
  obtain line where "fgets_all 32 f = [line]" using l by (cases "fgets_all 32 f") auto
  then have "take 16 (fgets_all 32 f) = [line]" by simp
  then show ?thesis using assms(2) f c unfolding cpu_entry_def prod.case Let_def
    by (auto simp: add_energy_def energy_each_single Option.bind_eq_Some_conv dest!: c_store_eq)
qed

lemma one_frequency_total:
  assumes "d \<in> set ds" "one_frequency m d" "foldM (cpu_entry m) ds (freqs, tot) = Some (freqs', e)"
  shows "e = NaN"
  using assms(1,3)
proof (induction ds arbitrary: freqs tot)
  case (Cons x xs)
  from Cons.prems(2) obtain f t where c: "cpu_entry m x (freqs, tot) = Some (f, t)"
    and r: "foldM (cpu_entry m) xs (f, t) = Some (freqs', e)"
    by (auto simp: Option.bind_eq_Some_conv)
  show ?case
  proof (cases "x = d")
    case True
    with c have "t = NaN" using one_frequency_NaN [OF assms(2)] by blast
    with r show ?thesis using cpu_entries_NaN by blast
  next
    case False
    with Cons r show ?thesis by auto
  qed
qed simp

text \<open>
  A single CPU with one line of frequency statistics makes the estimated CPU power
  unreportable: the slope of its only frequency is 0 / 0, the NaN spreads to the sum over all
  CPUs, to the difference with any earlier reading and to the power, and the JSON text leaves
  the event out at every sample.
\<close>

theorem one_frequency_CPU_unreported:
  assumes "cpu_energy m st = Some (e, st')"
    "proc_file (base m) ''/sys/devices/system/cpu/cpu0/cpufreq/stats/time_in_state'' \<noteq> None"
    "cpu_dir m = Some names" "d \<in> set names" "one_frequency (base m) d"
    "i < length (events dat)" "i < length (values dat)" "values dat ! i = Some (power_over e t)"
  shows "power_over e t = NaN \<and> json_nonnegative dat i json = Some json"
proof -
  obtain r k where r: "CPU_energy_read m = Some (r, k)" "e = fp_sub binary32 r (CPU_energy_before st)"
    using assms(1) by (auto simp: cpu_energy_def Option.bind_eq_Some_conv)
  have "r = NaN" using r(1) assms(2-5) one_frequency_total [OF assms(4,5)]
    by (auto simp: CPU_energy_read_def Option.bind_eq_Some_conv split: if_split_asm)
  then have "power_over e t = NaN" using r(2) by (simp add: power_over_def)
  then show ?thesis using assms(6-8) by (simp add: json_nonnegative_def event_value_def)
qed

subsection \<open>Streams left open\<close>

lemma CPU_energy_read_leak:
  "CPU_energy_read m = Some (e, k) \<Longrightarrow>
   k = (if proc_file (base m) ''/sys/devices/system/cpu/cpu0/cpufreq/stats/time_in_state'' = None then 0 else 1)"
  by (auto simp: CPU_energy_read_def Option.bind_eq_Some_conv split: if_split_asm option.split_asm)

lemma cpu_energy_leak:
  "cpu_energy m st = Some (e, st') \<Longrightarrow> open_files st' = open_files st +
     (if proc_file (base m) ''/sys/devices/system/cpu/cpu0/cpufreq/stats/time_in_state'' = None then 0 else 1)"
  by (auto simp: cpu_energy_def Option.bind_eq_Some_conv dest: CPU_energy_read_leak)

lemma sample_total_leak:
  assumes "power_sample_total m t (st, d) = Some (st', d')"
  shows "\<exists>e s. cpu_energy m st = Some (e, s) \<and> open_files st' = open_files s"
  using assms by (auto simp: power_sample_total_def Option.bind_eq_Some_conv net_frame memory_disk_frame)

lemma sample_parts_leak:
  assumes "power_sample_parts m t (st, d) = Some (st', d')"
  shows "if has_stat (pflag st) 0 then \<exists>e s. cpu_energy m st = Some (e, s) \<and> open_files st' = open_files s
    else open_files st' = open_files st"
  using assms unfolding power_sample_parts_def prod.case
  by (auto simp: Option.bind_eq_Some_conv net_frame memory_disk_frame split: if_split_asm)

text \<open>
  Every sample that reads the CPU statistics leaves one more stream open, so a process that
  samples CPU or total power runs out of file descriptors; the other metrics leave none.
\<close>

theorem CPU_statistics_stream_leak:
  assumes "mf_Linux_sys_power_sample m (st, d) = Some (st', d')"
    "proc_file (base m) ''/sys/devices/system/cpu/cpu0/cpufreq/stats/time_in_state'' = Some f"
  shows "open_files st' = open_files st + (if has_stat (pflag st) 0 \<or> has_stat (pflag st) 4 then 1 else 0)"
proof -
  have eq: "open_files (stamped m st) = open_files st" "pflag (stamped m st) = pflag st"
    by (simp_all add: stamped_def)
  obtain s where s: "st' = s\<lparr>before := seconds (realtime (base m))\<rparr>"
    and r: "(if has_stat (pflag st) 4 then power_sample_total m (power_interval m st) (stamped m st, d)
      else power_sample_parts m (power_interval m st) (stamped m st, d)) = Some (s, d')"
    using assms(1) unfolding stamped_def power_interval_def
    by (auto simp: mf_Linux_sys_power_sample_def Let_def Option.bind_eq_Some_conv)
  have o: "open_files st' = open_files s" by (simp add: s)
  have k: "cpu_energy m u = Some (e, u') \<Longrightarrow> open_files u' = open_files u + 1" for u e u'
    using cpu_energy_leak assms(2) by fastforce
  show ?thesis
  proof (cases "has_stat (pflag st) 4")
    case True
    then show ?thesis using r sample_total_leak k eq o by fastforce
  next
    case False
    then have "power_sample_parts m (power_interval m st) (stamped m st, d) = Some (s, d')" using r by simp
    from sample_parts_leak [OF this] show ?thesis using False k eq o
      by (auto split: if_split_asm)
  qed
qed

subsection \<open>Concrete runs\<close>

text \<open>A machine with two CPUs, one frequency each, on which nothing moves.\<close>

definition quiet_machine :: power_machine where
  "quiet_machine = \<lparr>base = \<lparr>proc_file = (\<lambda>p. if p = ''/sys/devices/system/cpu/cpu0/cpufreq/stats/time_in_state''
       then Some ''80 5'' else None), proc_dir = None, realtime = \<lparr>sec = 7, nsec = 0\<rparr>\<rparr>,
     cpu_dir = Some [''cpu0''], online_cpus = 2, perf_open = (\<lambda>_. -1), perf_read = (\<lambda>_. None), stack_slot = 3\<rparr>"

definition wanted_power :: "cstr list" where
  "wanted_power = [''estimated_total_power'', ''estimated_CPU_power'']"

definition power_sampling :: power_state where
  "power_sampling = power_start\<lparr>pflag := snd (flag_init_power wanted_power 0)\<rparr>"

definition power_data :: Plugin_metrics where
  "power_data = \<lparr>events = [''estimated_total_power'', ''estimated_CPU_power''], values = replicate 32 None, num_events = 2\<rparr>"

lemma wanted_power_flag:
  "has_stat (snd (flag_init_power wanted_power 0)) ii \<longleftrightarrow> ii = 0 \<or> ii = 4"
  by (auto simp: flag_init_power_bit wanted_power_def Linux_sys_power_metrics_def less_Suc_eq numeral_eq_Suc)

lemma power_sampling_ready: "power_ready power_sampling power_data"
  by (simp add: power_ready_def power_events_def part_events_def has_memory_or_disk_def power_sampling_def
      power_data_def wanted_power_flag)

lemma quiet_line: "fgets_all 32 ''80 5'' = [''80 5'']" by code_simp

lemma quiet_scan: "scan_u64s 2 ''80 5'' = [80, 5]"
  unfolding numeral_2_eq_2 scan_u64s.simps by (simp add: scan_simps)

lemma quiet_freqs: "read_freqs [''80 5''] (replicate 16 None) ! 0 = Some 5"
  by (cases "replicate 16 (None :: u64 option)") (simp_all add: read_freqs_def c_string_def quiet_scan)

lemma cpu0_name: "strncmp_eq ''cpu0'' ''cpu'' 3" by code_simp

lemma quiet_file: "proc_file (base quiet_machine) ''/sys/devices/system/cpu/cpu0/cpufreq/stats/time_in_state'' = Some ''80 5''"
  by (simp add: quiet_machine_def)

lemma quiet_CPU_energy: "CPU_energy_read quiet_machine = Some (NaN, 1)"
proof -
  have one: "one_frequency (base quiet_machine) ''cpu0''"
    using quiet_file by (simp add: one_frequency_def cpu0_name quiet_line)
  have "take 16 (fgets_all 32 ''80 5'') = [''80 5'']" by (simp add: quiet_line)
  moreover have "c_store 128 (''/sys/devices/system/cpu/'' @ ''cpu0'' @ ''/cpufreq/stats/time_in_state'') =
      Some ''/sys/devices/system/cpu/cpu0/cpufreq/stats/time_in_state''"
    by (simp add: c_store_def)
  moreover have "add_energy (read_freqs [''80 5''] (replicate 16 None)) 0 0 fp_zero = Some (fp_add binary32 fp_zero (energy_each 0 0 5))"
    by (simp only: add_energy_def quiet_freqs Option.bind.simps)
  ultimately have "cpu_entry (base quiet_machine) ''cpu0'' (replicate 16 None, fp_zero) =
      Some (read_freqs [''80 5''] (replicate 16 None), fp_add binary32 fp_zero (energy_each 0 0 5))"
    unfolding cpu_entry_def prod.case Let_def by (simp only: cpu0_name quiet_file Option.bind.simps option.case
        not_True_eq_False if_False) simp
  then obtain f e where e: "foldM (cpu_entry (base quiet_machine)) [''cpu0''] (replicate 16 None, fp_zero) = Some (f, e)"
    by (simp only: foldM.simps Option.bind.simps)
  have "e = NaN" by (rule one_frequency_total [OF _ one e]) simp
  moreover have "cpu_dir quiet_machine = Some [''cpu0'']" by (simp add: quiet_machine_def)
  ultimately show ?thesis using e quiet_file by (simp only: CPU_energy_read_def option.case Option.bind.simps prod.case
      option.distinct if_False)
qed

lemma quiet_sample:
  obtains st' d' where "mf_Linux_sys_power_sample quiet_machine (power_sampling, power_data) = Some (st', d')"
proof -
  have f: "has_stat (pflag power_sampling) ii \<longleftrightarrow> ii = 0 \<or> ii = 4" for ii
    using wanted_power_flag by (simp add: power_sampling_def)
  have "\<exists>st' d'. mf_Linux_sys_power_sample quiet_machine (power_sampling, power_data) = Some (st', d')"
    by (simp add: mf_Linux_sys_power_sample_def power_sample_total_def cpu_energy_def net_energy_def
        memory_disk_energy_def quiet_CPU_energy f has_memory_or_disk_def Let_def)
      (simp add: quiet_machine_def wifi_stat_read_def power_IO_stat_read_def sys_IO_stat_read_def power_data_def)
  with that show ?thesis by blast
qed

theorem Linux_sys_power_sample_aligned_witness:
  "\<exists>st' d'. mf_Linux_sys_power_sample quiet_machine (power_sampling, power_data) = Some (st', d') \<and>
     values d' ! 0 = Some (power_over (total_energy quiet_machine (stamped quiet_machine power_sampling))
       (power_interval quiet_machine power_sampling))"
proof -
  obtain st' d' where s: "mf_Linux_sys_power_sample quiet_machine (power_sampling, power_data) = Some (st', d')"
    using quiet_sample .
  from Linux_sys_power_sample_aligned [OF power_sampling_ready s, of 0] s show ?thesis
    by (simp add: power_data_def event_energy_def)
qed

theorem CPU_statistics_stream_leak_witness:
  "\<exists>st' d'. mf_Linux_sys_power_sample quiet_machine (power_sampling, power_data) = Some (st', d') \<and> open_files st' = 1"
proof -
  obtain st' d' where s: "mf_Linux_sys_power_sample quiet_machine (power_sampling, power_data) = Some (st', d')"
    using quiet_sample .
  have "proc_file (base quiet_machine) ''/sys/devices/system/cpu/cpu0/cpufreq/stats/time_in_state'' = Some ''80 5''"
    by (simp add: quiet_machine_def)
  from CPU_statistics_stream_leak [OF s this] s show ?thesis
    by (simp add: power_sampling_def wanted_power_flag power_start_def)
qed

theorem one_frequency_CPU_unreported_witness:
  "\<exists>e st'. cpu_energy quiet_machine power_sampling = Some (e, st') \<and> power_over e (Fin False 1) = NaN \<and>
     json_nonnegative (power_data\<lparr>values := None # Some (power_over e (Fin False 1)) # []\<rparr>) 1 ''x'' = Some ''x''"
proof -
  obtain e st' where e: "cpu_energy quiet_machine power_sampling = Some (e, st')"
    by (simp add: cpu_energy_def quiet_CPU_energy)
  have "one_frequency (base quiet_machine) ''cpu0''"
    using quiet_file by (simp add: one_frequency_def cpu0_name quiet_line)
  have "cpu_dir quiet_machine = Some [''cpu0'']" by (simp add: quiet_machine_def)
  moreover have "proc_file (base quiet_machine) ''/sys/devices/system/cpu/cpu0/cpufreq/stats/time_in_state'' \<noteq> None"
    using quiet_file by simp
  moreover have "1 < length (events power_data)" by (simp add: power_data_def)
  ultimately have "power_over e (Fin False 1) = NaN \<and>
     json_nonnegative (power_data\<lparr>values := None # Some (power_over e (Fin False 1)) # []\<rparr>) 1 ''x'' = Some ''x''"
    using \<open>one_frequency _ _\<close> by (intro one_frequency_CPU_unreported [OF e, of "[''cpu0'']" "''cpu0''"]) simp_all
  with e show ?thesis by blast
qed

theorem Linux_sys_power_init_events_witness:
  "\<exists>rc st d. mf_Linux_sys_power_init quiet_machine wanted_power (power_start, metrics_start) = Some (rc, st, d) \<and>
     rc \<noteq> 0 \<and> events d = [''estimated_total_power'', ''estimated_CPU_power'']"
proof -
  have p0: "pflag power_start = 0" by (simp add: power_start_def)
  obtain k w where kw: "flag_init_power wanted_power 0 = (k, w)" by (cases "flag_init_power wanted_power 0")
  then have "has_stat w 0" using wanted_power_flag [of 0] by simp
  then have "w \<noteq> 0" by (auto simp: has_stat_def)
  with kw have w: "flag_init_power wanted_power 0 = (1, w)" by (auto simp: flag_init_power_def Let_def)
  have f: "has_stat w ii \<longleftrightarrow> ii = 0 \<or> ii = 4" for ii using wanted_power_flag [of ii] w by simp
  have "\<exists>st d. mf_Linux_sys_power_init quiet_machine wanted_power (power_start, metrics_start) = Some (1, st, d)"
    by (simp add: mf_Linux_sys_power_init_def p0 w f power_init_total_def start_cpu_def start_memory_def
        start_net_def start_io_def quiet_CPU_energy create_perf_stat_counter_def part_events_def
        has_memory_or_disk_def add_event_def MAX_EVENTS_NUMBER_def MAX_EVENTS_LEN_def metrics_start_def)
      (simp add: quiet_machine_def wifi_stat_read_def power_IO_stat_read_def sys_IO_stat_read_def)
  then obtain rc st d where r: "mf_Linux_sys_power_init quiet_machine wanted_power (power_start, metrics_start) = Some (rc, st, d)"
    and "rc \<noteq> 0" by auto
  with Linux_sys_power_init_events [OF r] show ?thesis
    by (auto simp: power_ready_def power_events_def part_events_def has_memory_or_disk_def
        Linux_sys_power_metrics_def wanted_power_def)
qed


subsection \<open>The text of the power plugin\<close>

lemma energies_ok:
  "cpu_energy m st = Some (e, s) \<Longrightarrow> fp_ok e" "net_energy m st = Some (e, s) \<Longrightarrow> fp_ok e"
  "memory_disk_energy m st = Some (e1, e2, s) \<Longrightarrow> fp_ok e1 \<and> fp_ok e2"
  by (auto simp: cpu_energy_def net_energy_def memory_disk_energy_def sys_net_energy_def memory_energy_def sys_disk_energy_def
      L2CACHE_MISS_LATENCY_def MEMORY_POWER_def E_NET_RCV_PER_KB_def E_NET_SND_PER_KB_def Let_def Option.bind_eq_Some_conv)

lemma net_energy_defined:
  "net_energy m s \<noteq> None \<Longrightarrow> net_before s = net_before t \<Longrightarrow> net_after s = net_after t \<Longrightarrow> net_energy m t \<noteq> None"
  using net_energy_cong [of s t m] by (metis None_eq_map_option_iff)

lemma memory_disk_defined:
  "memory_disk_energy m s \<noteq> None \<Longrightarrow> io_before s = io_before t \<Longrightarrow> io_after s = io_after t \<Longrightarrow>
   memaccess_before s = memaccess_before t \<Longrightarrow> perf_fd s = perf_fd t \<Longrightarrow> nr_cpus s = nr_cpus t \<Longrightarrow>
   memory_disk_energy m t \<noteq> None"
  using memory_disk_cong [of s t m] by (metis None_eq_map_option_iff)

text \<open>A sample that stays in the language has made the readings behind its events.\<close>

definition readings_defined :: "power_machine \<Rightarrow> power_state \<Rightarrow> bool" where
  "readings_defined m st \<longleftrightarrow>
     (has_stat (pflag st) 0 \<or> has_stat (pflag st) 4 \<longrightarrow> cpu_energy m st \<noteq> None) \<and>
     (has_stat (pflag st) 1 \<or> has_stat (pflag st) 4 \<longrightarrow> net_energy m st \<noteq> None) \<and>
     (has_memory_or_disk st \<or> has_stat (pflag st) 4 \<longrightarrow> memory_disk_energy m st \<noteq> None)"

lemma sample_total_defined:
  assumes "power_sample_total m t (st, d) = Some r"
  shows "readings_defined m st"
proof -
  obtain ecpu s1 enet s2 x where
    1: "cpu_energy m st = Some (ecpu, s1)" and 2: "net_energy m s1 = Some (enet, s2)" and 3: "memory_disk_energy m s2 = Some x"
    using assms by (cases r) (auto simp: power_sample_total_def Option.bind_eq_Some_conv)
  have "net_energy m st \<noteq> None" using net_energy_defined [of m s1 st] 2 cpu_frame [OF 1] by simp
  moreover have "memory_disk_energy m st \<noteq> None"
    using memory_disk_defined [of m s2 st] 3 cpu_frame [OF 1] net_frame [OF 2] by simp
  ultimately show ?thesis using 1 by (simp add: readings_defined_def)
qed

lemma sample_parts_defined:
  assumes "power_sample_parts m t (st, d) = Some r" "\<not> has_stat (pflag st) 4"
  shows "readings_defined m st"
proof -
  obtain vs1 s1 vs2 s2 vs3 s3 where
    1: "(if has_stat (pflag st) 0 then do { (e, s) \<leftarrow> cpu_energy m st; Some ([power_over e t], s) } else Some ([], st)) = Some (vs1, s1)"
    and 2: "(if has_stat (pflag st) 1 then do { (e, s) \<leftarrow> net_energy m s1; Some ([power_over e t], s) } else Some ([], s1)) = Some (vs2, s2)"
    and 3: "(if has_memory_or_disk st
       then do { (e1, e2, s) \<leftarrow> memory_disk_energy m s2; Some ([power_over e1 t, power_over e2 t], s) }
       else Some ([], s2)) = Some (vs3, s3)"
    using assms(1) by (cases r) (auto simp: power_sample_parts_def Option.bind_eq_Some_conv)
  have f1: "net_before s1 = net_before st" "net_after s1 = net_after st" "io_before s1 = io_before st" "io_after s1 = io_after st"
    "memaccess_before s1 = memaccess_before st" "perf_fd s1 = perf_fd st" "nr_cpus s1 = nr_cpus st"
    using 1 by (auto simp: Option.bind_eq_Some_conv cpu_frame split: if_splits)
  have f2: "io_before s2 = io_before st" "io_after s2 = io_after st"
    "memaccess_before s2 = memaccess_before st" "perf_fd s2 = perf_fd st" "nr_cpus s2 = nr_cpus st"
    using 2 f1 by (auto simp: Option.bind_eq_Some_conv net_frame split: if_splits)
  have "has_stat (pflag st) 0 \<longrightarrow> cpu_energy m st \<noteq> None" using 1 by (auto simp: Option.bind_eq_Some_conv)
  moreover have "has_stat (pflag st) 1 \<longrightarrow> net_energy m s1 \<noteq> None" using 2 by (auto simp: Option.bind_eq_Some_conv)
  moreover have "has_memory_or_disk st \<longrightarrow> memory_disk_energy m s2 \<noteq> None" using 3 by (auto simp: Option.bind_eq_Some_conv)
  ultimately show ?thesis using assms(2) net_energy_defined [of m s1 st] memory_disk_defined [of m s2 st] f1 f2
    by (simp add: readings_defined_def)
qed

lemma in_power_events:
  "''estimated_CPU_power'' \<in> set (power_events st) \<longleftrightarrow> has_stat (pflag st) 0"
  "''estimated_wifi_power'' \<in> set (power_events st) \<longleftrightarrow> has_stat (pflag st) 1"
  "''estimated_memory_power'' \<in> set (power_events st) \<longleftrightarrow> has_memory_or_disk st"
  "''estimated_disk_power'' \<in> set (power_events st) \<longleftrightarrow> has_memory_or_disk st"
  by (simp_all add: power_events_def part_events_def)

lemma event_energy_ok:
  assumes "readings_defined m st" "e \<in> set (power_events st)"
  shows "fp_ok (event_energy m st e)"
proof -
  have "cpu_energy m st \<noteq> None \<Longrightarrow> fp_ok (fst (the (cpu_energy m st)))"
    "net_energy m st \<noteq> None \<Longrightarrow> fp_ok (fst (the (net_energy m st)))"
    "memory_disk_energy m st \<noteq> None \<Longrightarrow> fp_ok (fst (the (memory_disk_energy m st)))"
    "memory_disk_energy m st \<noteq> None \<Longrightarrow> fp_ok (fst (snd (the (memory_disk_energy m st))))"
    using energies_ok [of m st] by auto
  moreover have "fp_ok (total_energy m st)" by (simp add: total_energy_def)
  moreover define a b c e' where "a = ''estimated_CPU_power''" "b = ''estimated_wifi_power''"
    "c = ''estimated_memory_power''" "e' = ''estimated_disk_power''"
  ultimately show ?thesis
    using assms in_power_events [of st, folded a_b_c_e'_def] unfolding event_energy_def readings_defined_def a_b_c_e'_def [symmetric]
    by (cases "e = a"; cases "e = b"; cases "e = c"; cases "e = e'"; simp only: if_True if_False; blast)
qed

lemma power_sample_printable:
  assumes "power_ready st d" "mf_Linux_sys_power_sample m (st, d) = Some (st', d')"
  shows "printable d'"
proof -
  have t: "fp_ok (power_interval m st)" by (simp add: power_interval_def)
  have p: "pflag (stamped m st) = pflag st" by (simp add: stamped_def)
  note p = p power_events_cong [OF p]
  obtain s where "st' = s\<lparr>before := seconds (realtime (base m))\<rparr>"
    and r: "(if has_stat (pflag st) 4 then power_sample_total m (power_interval m st) (stamped m st, d)
      else power_sample_parts m (power_interval m st) (stamped m st, d)) = Some (s, d')"
    using assms(2) unfolding stamped_def power_interval_def
    by (auto simp: mf_Linux_sys_power_sample_def Let_def Option.bind_eq_Some_conv)
  have "readings_defined m (stamped m st)"
  proof (cases "has_stat (pflag st) 4")
    case True
    with r show ?thesis by (intro sample_total_defined) simp
  next
    case False
    with r p(1) show ?thesis by (intro sample_parts_defined) simp_all
  qed
  then have f: "is_float (power_over (event_energy m (stamped m st) e) (power_interval m st))" if "e \<in> set (power_events st)" for e
    using event_energy_ok that p(2) t power_over_float by simp
  obtain n where v: "put_values (map (\<lambda>e. power_over (event_energy m (stamped m st) e) (power_interval m st)) (power_events st)) 0 d = Some (n, d')"
    using power_sample_values [OF assms(2)] by blast
  have s: "same_events d d'" "length (power_events st) \<le> length (values d)" using put_values_spec [OF v] by auto
  have e: "length e < 32" if "e \<in> set (power_events st)" for e
    using that by (auto simp: power_events_def part_events_def split: if_split_asm)
  show ?thesis unfolding printable_def
  proof (intro allI impI exI conjI)
    fix i assume "i < num_events d'"
    then have i: "i < length (power_events st)" "events d' ! i = power_events st ! i" "i < length (events d')" "i < length (values d')"
      using s assms(1) by (simp_all add: power_ready_def same_events_def)
    show "event_value d' i = Some (power_events st ! i, power_over (event_energy m (stamped m st) (power_events st ! i)) (power_interval m st))"
      using values_of_events [OF v i(1)] i by (simp add: event_value_def)
    show "length (power_events st ! i) < 32" "is_float (power_over (event_energy m (stamped m st) (power_events st ! i)) (power_interval m st))"
      using e f i(1) by simp_all
  qed
qed

text \<open>The fields of the text: those of the shared loop, but for a partner that was not requested.\<close>

definition power_field :: "power_state \<Rightarrow> Plugin_metrics \<Rightarrow> nat \<Rightarrow> cstr" where
  "power_field st d i =
     (if events d ! i = ''estimated_memory_power'' \<and> \<not> has_stat (pflag st) 2 then []
      else if events d ! i = ''estimated_disk_power'' \<and> \<not> has_stat (pflag st) 3 then [] else json_field d i)"

lemma power_fields_fit:
  assumes "printable d" "\<forall>i \<in> set is. i < num_events d" "length json + 79 * length is < JSON_MAX_LEN"
  shows "foldM (power_json_event st d) is json = Some (json @ concat (map (power_field st d) is))"
  using assms(2,3)
proof (induction "is" arbitrary: json)
  case (Cons i js)
  obtain e v where ev: "event_value d i = Some (e, v)" "length e < 32" "is_float v"
    using assms(1) Cons.prems(1) by (auto simp: printable_def)
  have l: "i < length (events d)" using ev(1) by (auto simp: event_value_def split: if_split_asm)
  have "length (json_metric e v) \<le> 79" using length_json_metric ev by blast
  then have "json_nonnegative d i json = Some (json @ json_field d i)" "length (json_field d i) \<le> 79"
    using ev(1) Cons.prems(2) by (simp_all add: json_nonnegative_def json_field_def json_add_def)
  then have "power_json_event st d i json = Some (json @ power_field st d i)" "length (power_field st d i) \<le> 79"
    using l by (simp_all add: power_json_event_def power_field_def)
  then show ?case using Cons.IH [of "json @ power_field st d i"] Cons.prems by simp
qed simp

definition power_text :: "power_state \<Rightarrow> Plugin_metrics \<Rightarrow> cstr" where
  "power_text st d = json_type ''Linux_sys_power'' @ json_time (fp_mul binary64 (after st) (Fin False 1000)) @
     concat (map (power_field st d) [0..<num_events d])"

lemma power_json_fits:
  assumes "power_ready st d" "printable d" "after st = Fin False a" "0 \<le> a" "a \<le> 10 ^ 12"
  shows "mf_Linux_sys_power_to_json st d = Some (power_text st d)"
proof -
  let ?b = "json_type ''Linux_sys_power'' @ json_time (fp_mul binary64 (after st) (Fin False 1000))"
  have b: "json_begin ''Linux_sys_power'' (fp_mul binary64 (after st) (Fin False 1000)) = Some ?b" "length ?b \<le> 80"
    using json_begin_fits [of "''Linux_sys_power''"] length_show_ms [OF assms(4,5)] unfolding assms(3)
    by (simp_all add: json_type_def)
  have "length (power_events st) \<le> 5" by (simp add: power_events_def part_events_def)
  then have n: "num_events d \<le> 5" using assms(1) by (simp add: power_ready_def)
  have "foldM (power_json_event st d) [0..<num_events d] ?b = Some (?b @ concat (map (power_field st d) [0..<num_events d]))"
    using n b(2) by (intro power_fields_fit [OF assms(2)]) (simp_all add: JSON_MAX_LEN_def)
  then show ?thesis using b(1) by (simp add: mf_Linux_sys_power_to_json_def power_text_def)
qed


lemma after_frame:
  "cpu_energy m st = Some (e, st') \<Longrightarrow> after st' = after st"
  "net_energy m st = Some (e, st') \<Longrightarrow> after st' = after st"
  "memory_disk_energy m st = Some (e1, e2, st') \<Longrightarrow> after st' = after st"
  by (auto simp: cpu_energy_def net_energy_def memory_disk_energy_def Let_def Option.bind_eq_Some_conv)

lemma sample_after:
  "power_sample_total m t (st, d) = Some (st', d') \<Longrightarrow> after st' = after st"
  "power_sample_parts m t (st, d) = Some (st', d') \<Longrightarrow> after st' = after st"
  unfolding power_sample_total_def power_sample_parts_def prod.case
  by (auto simp: Option.bind_eq_Some_conv after_frame split: if_split_asm)

lemma power_sample_after:
  assumes "mf_Linux_sys_power_sample m (st, d) = Some (st', d')"
  shows "after st' = seconds (realtime (base m))"
proof -
  obtain s where "st' = s\<lparr>before := seconds (realtime (base m))\<rparr>"
    and r: "(if has_stat (pflag st) 4 then power_sample_total m (power_interval m st) (stamped m st, d)
      else power_sample_parts m (power_interval m st) (stamped m st, d)) = Some (s, d')"
    using assms unfolding stamped_def power_interval_def
    by (auto simp: mf_Linux_sys_power_sample_def Let_def Option.bind_eq_Some_conv)
  moreover have "after s = after (stamped m st)"
    using r sample_after by (cases "has_stat (pflag st) 4") auto
  ultimately show ?thesis by (simp add: stamped_def)
qed

end
