(* ===== verification/Power_Monitor.thy ===== *)
theory Power_Monitor
  imports Monitor_Common Linux_Sys_Power
begin

text \<open>
  The power monitor of the application API, \<^verbatim>\<open>api/src/power_monitor.c\<close>: the power of the
  CPUs and the parts of it, of the memory and of the disk that a process accounts for, from
  counters read at the start and the end of each round. The energy parameters are the array
  \<open>parameters_value\<close> of \<^verbatim>\<open>api/src/mf_api.c\<close>, here the argument \<open>pv\<close>. The array \<open>freqs\<close> of
  a CPU is read as in the Linux_sys_power connector (\<open>read_freqs\<close>).
\<close>

definition METRIC_NAME_3 :: cstr where "METRIC_NAME_3 = ''power''"

text \<open>
  What a round sees besides \<^verbatim>\<open>/proc\<close>: the entries of \<^verbatim>\<open>/sys/devices/system/cpu\<close> and the first
  word that reading the performance counter gives (\<open>None\<close> for a short read).
\<close>

record monitored =
  procfs :: machine
  cpus :: "cstr list option"
  cache_misses :: "u64 option"

text \<open>
  \<open>before\<close> and \<open>after\<close> are uninitialised variables. The three disk counters are written only
  when their lines appear; the other fields are written by every reading that succeeds.
\<close>

record pid_stats_info =
  sys_itv :: u64
  sys_runtime :: u64
  pid_runtime :: u64
  pid_read_bytes :: "u64 option"
  pid_write_bytes :: "u64 option"
  pid_cancelled_writes :: "u64 option"
  pid_l2_cache_misses :: u64
  sys_cpu_energy :: cfp

definition info_start :: pid_stats_info where
  "info_start = \<lparr>sys_itv = 0, sys_runtime = 0, pid_runtime = 0, pid_read_bytes = None, pid_write_bytes = None,
     pid_cancelled_writes = None, pid_l2_cache_misses = 0, sys_cpu_energy = fp_zero\<rparr>"

subsection \<open>The readers\<close>

text \<open>A reader gives the structure it fills, or \<open>None\<close> inside \<open>Some\<close> for its code 0.\<close>

definition read_pid_time :: "machine \<Rightarrow> int \<Rightarrow> pid_stats_info \<Rightarrow> pid_stats_info option option" where
  "read_pid_time m pid info =
     (case proc_file m (pid_file pid ''stat'') of None \<Rightarrow> Some None
      | Some f \<Rightarrow> do { t \<leftarrow> process_time f; Some (Some (info\<lparr>pid_runtime := t\<rparr>)) })"

definition scan_into_at :: "nat \<Rightarrow> cstr \<Rightarrow> u64 option \<Rightarrow> u64 option option" where
  "scan_into_at n line v = do {
     s \<leftarrow> skip n line;
     Some (case scan_u64 s of None \<Rightarrow> v | Some (w, _) \<Rightarrow> Some w)
   }"

definition pid_io_line :: "string \<Rightarrow> pid_stats_info \<Rightarrow> pid_stats_info option" where
  "pid_io_line buf info =
     (let line = c_string buf in
      if strncmp_eq line ''read_bytes:'' 11
      then do { v \<leftarrow> scan_into_at 12 line (pid_read_bytes info); Some (info\<lparr>pid_read_bytes := v\<rparr>) }
      else if strncmp_eq line ''write_bytes:'' 12
      then do { v \<leftarrow> scan_into_at 13 line (pid_write_bytes info); Some (info\<lparr>pid_write_bytes := v\<rparr>) }
      else if strncmp_eq line ''cancelled_write_bytes:'' 22
      then do { v \<leftarrow> scan_into_at 23 line (pid_cancelled_writes info); Some (info\<lparr>pid_cancelled_writes := v\<rparr>) }
      else Some info)"

definition read_pid_io :: "machine \<Rightarrow> int \<Rightarrow> pid_stats_info \<Rightarrow> pid_stats_info option option" where
  "read_pid_io m pid info =
     (case proc_file m (pid_file pid ''io'') of None \<Rightarrow> Some None
      | Some f \<Rightarrow> do { info' \<leftarrow> foldM pid_io_line (fgets_all 128 f) info; Some (Some info') })"

text \<open>\<open>fgets\<close> is told that \<open>char line[128]\<close> has 1024 characters.\<close>

definition read_sys_time :: "machine \<Rightarrow> pid_stats_info \<Rightarrow> pid_stats_info option option" where
  "read_sys_time m info =
     (case proc_file m ''/proc/stat'' of None \<Rightarrow> Some None
      | Some f \<Rightarrow>
          (case fgets_all 1024 f of [] \<Rightarrow> None
           | buf # _ \<Rightarrow> do {
               _ \<leftarrow> c_store 128 buf;
               s \<leftarrow> skip 5 (c_string buf);
               case scan_u64s 8 s of
                 [user, nice, sys, idle, iowait, hardirq, softirq, steal] \<Rightarrow>
                   Some (Some (info\<lparr>sys_itv := user + nice + sys + idle + iowait + hardirq + softirq + steal,
                     sys_runtime := user + sys\<rparr>))
               | _ \<Rightarrow> None
             }))"

definition freq_energy :: "(nat \<Rightarrow> cfp) \<Rightarrow> nat \<Rightarrow> nat \<Rightarrow> u64 \<Rightarrow> cfp" where
  "freq_energy pv i max_i t =
     (let power_range = fp_sub binary32 (pv 0) (pv 1);
          slope = fp_div binary32 (fp_mul binary32 power_range (fp_of_int binary32 (int i))) (fp_of_int binary32 (int max_i)) in
      fp_conv binary32 (fp_mul binary64
        (fp_mul binary32 (fp_sub binary32 (pv 0) slope) (fp_of_u64 binary32 t)) (lit64 10)))"

definition add_freq_energy :: "(nat \<Rightarrow> cfp) \<Rightarrow> u64 option list \<Rightarrow> nat \<Rightarrow> nat \<Rightarrow> cfp \<Rightarrow> cfp option" where
  "add_freq_energy pv freqs max_i i energy_total = do {
     t \<leftarrow> freqs ! i;
     Some (fp_add binary32 energy_total (freq_energy pv i max_i t))
   }"

definition freq_entry ::
  "(nat \<Rightarrow> cfp) \<Rightarrow> machine \<Rightarrow> cstr \<Rightarrow> u64 option list \<times> cfp \<Rightarrow> (u64 option list \<times> cfp) option" where
  "freq_entry pv m d_name = (\<lambda>(freqs, energy_total).
     if \<not> strncmp_eq d_name ''cpu'' 3 then Some (freqs, energy_total)
     else do {
       path \<leftarrow> c_store 128 (''/sys/devices/system/cpu/'' @ d_name @ ''/cpufreq/stats/time_in_state'');
       (case proc_file m path of None \<Rightarrow> Some (freqs, energy_total)
        | Some f \<Rightarrow>
            (let lines = take 16 (fgets_all 32 f); freqs' = read_freqs lines freqs in do {
               e \<leftarrow> foldM (add_freq_energy pv freqs' (length lines - 1)) [0..<length lines] energy_total;
               Some (freqs', e)
             }))
     })"

definition cpu_freq_stat :: "(nat \<Rightarrow> cfp) \<Rightarrow> monitored \<Rightarrow> pid_stats_info \<Rightarrow> pid_stats_info option option" where
  "cpu_freq_stat pv m info =
     (if proc_file (procfs m) ''/sys/devices/system/cpu/cpu0/cpufreq/stats/time_in_state'' = None then Some None
      else case cpus m of None \<Rightarrow> Some None
      | Some names \<Rightarrow> do {
          (_, e) \<leftarrow> foldM (freq_entry pv (procfs m)) names (replicate 16 None, fp_zero);
          Some (Some (info\<lparr>sys_cpu_energy := e\<rparr>))
        })"

text \<open>A descriptor that is not positive, or a short read, gives 0.\<close>

definition read_perf_counter :: "monitored \<Rightarrow> int \<Rightarrow> u64" where
  "read_perf_counter m fd = (if fd \<le> 0 then 0 else case cache_misses m of None \<Rightarrow> 0 | Some v \<Rightarrow> v)"

text \<open>The sequence of readers: the first one that fails ends it.\<close>

definition and_then :: "'a option option \<Rightarrow> ('a \<Rightarrow> 'b option option) \<Rightarrow> 'b option option" where
  "and_then r f = (case r of None \<Rightarrow> None | Some None \<Rightarrow> Some None | Some (Some x) \<Rightarrow> f x)"

definition read_and_check ::
  "(nat \<Rightarrow> cfp) \<Rightarrow> monitored \<Rightarrow> int \<Rightarrow> int \<Rightarrow> pid_stats_info \<Rightarrow> pid_stats_info option option" where
  "read_and_check pv m fd pid info =
     and_then (read_pid_time (procfs m) pid info) (\<lambda>i1.
     and_then (read_pid_io (procfs m) pid i1) (\<lambda>i2.
     and_then (read_sys_time (procfs m) i2) (\<lambda>i3.
     and_then (cpu_freq_stat pv m i3) (\<lambda>i4.
       let c = read_perf_counter m fd in
       if c = 0 then Some None else Some (Some (i4\<lparr>pid_l2_cache_misses := c\<rparr>))))))"

subsection \<open>The increments and the power\<close>

record pid_delta =
  d_itv :: u64
  d_runtime :: u64
  d_pid_runtime :: u64
  d_read :: u64
  d_write :: u64
  d_cancelled :: u64
  d_misses :: u64
  d_energy :: cfp

definition advances :: "pid_stats_info \<Rightarrow> pid_stats_info \<Rightarrow> bool" where
  "advances b a \<longleftrightarrow> sys_itv b < sys_itv a \<and> sys_runtime b < sys_runtime a"

text \<open>\<open>None\<close> inside \<open>Some\<close> is the code 0, after which \<open>before\<close> and \<open>delta\<close> are as they were.\<close>

definition calcualte_and_update ::
  "pid_stats_info \<Rightarrow> pid_stats_info \<Rightarrow> (pid_delta \<times> pid_stats_info) option option" where
  "calcualte_and_update b a =
     (if \<not> advances b a then Some None
      else do {
        r1 \<leftarrow> pid_read_bytes a; r0 \<leftarrow> pid_read_bytes b;
        w1 \<leftarrow> pid_write_bytes a; w0 \<leftarrow> pid_write_bytes b;
        c1 \<leftarrow> pid_cancelled_writes a; c0 \<leftarrow> pid_cancelled_writes b;
        Some (Some (\<lparr>d_itv = sys_itv a - sys_itv b, d_runtime = sys_runtime a - sys_runtime b,
          d_pid_runtime = pid_runtime a - pid_runtime b, d_read = r1 - r0, d_write = w1 - w0, d_cancelled = c1 - c0,
          d_misses = pid_l2_cache_misses a - pid_l2_cache_misses b,
          d_energy = fp_sub binary32 (sys_cpu_energy a) (sys_cpu_energy b)\<rparr>, a))
      })"

definition duration :: "timestamp \<Rightarrow> timestamp \<Rightarrow> cfp" where
  "duration t0 t1 = fp_conv binary32 (fp_add binary64 (fp_of_int binary64 (sec t1 - sec t0))
     (fp_div binary64 (fp_of_int binary64 (nsec t1 - nsec t0)) (Fin False (10 ^ 9))))"

definition sys_cpu_power :: "pid_delta \<Rightarrow> cfp \<Rightarrow> cfp" where
  "sys_cpu_power d t = fp_div binary32 (fp_mul binary32 (d_energy d) (fp_of_u64 binary32 (d_runtime d)))
     (fp_mul binary32 (fp_of_u64 binary32 (d_itv d)) t)"

definition pid_cpu_power :: "pid_delta \<Rightarrow> cfp \<Rightarrow> cfp" where
  "pid_cpu_power d t = fp_div binary32 (fp_mul binary32 (sys_cpu_power d t) (fp_of_u64 binary32 (d_pid_runtime d)))
     (fp_of_u64 binary32 (d_runtime d))"

definition pid_mem_power :: "(nat \<Rightarrow> cfp) \<Rightarrow> pid_delta \<Rightarrow> cfp \<Rightarrow> cfp" where
  "pid_mem_power pv d t =
     (let accesses = fp_add binary32 (fp_div binary32 (fp_of_u64 binary32 (d_read d + d_write d - d_cancelled d)) (pv 4))
            (fp_of_u64 binary32 (d_misses d)) in
      fp_conv binary32 (fp_div binary64
        (fp_mul binary64 (fp_mul binary32 (fp_mul binary32 accesses (pv 3)) (pv 2)) (lit64 (1 / 10 ^ 6))) t))"

definition pid_disk_power :: "(nat \<Rightarrow> cfp) \<Rightarrow> pid_delta \<Rightarrow> cfp \<Rightarrow> cfp" where
  "pid_disk_power pv d t = fp_div binary32
     (fp_add binary32 (fp_mul binary32 (fp_of_u64 binary32 (d_read d)) (pv 5))
        (fp_mul binary32 (fp_of_u64 binary32 (d_write d - d_cancelled d)) (pv 6)))
     (fp_mul binary32 (fp_of_int binary32 1024) t)"

definition power_line :: "(nat \<Rightarrow> cfp) \<Rightarrow> timestamp \<Rightarrow> timestamp \<Rightarrow> pid_delta \<Rightarrow> cstr" where
  "power_line pv t0 t1 d =
     (let t = duration t0 t1 in
      stamp_text (milliseconds t1) @ float_text ''total_CPU_power'' (sys_cpu_power d t) @
      float_text ''process_CPU_power'' (pid_cpu_power d t) @ float_text ''process_mem_power'' (pid_mem_power pv d t) @
      float_text ''process_disk_power'' (pid_disk_power pv d t) @ [NL])"

subsection \<open>The loop\<close>

text \<open>
  A round is the clock before the pause and what is seen after it. \<open>continue\<close> skips the line;
  the next round takes a new \<open>timestamp_before\<close>.
\<close>

fun power_rounds ::
  "(nat \<Rightarrow> cfp) \<Rightarrow> int \<Rightarrow> int \<Rightarrow> (timestamp \<times> monitored) list \<Rightarrow> pid_stats_info \<Rightarrow> pid_stats_info \<Rightarrow>
   (cstr list \<times> int call) option" where
  "power_rounds pv fd pid [] b a = Some ([], Return 1)"
| "power_rounds pv fd pid ((t0, m) # rs) b a =
     (case read_and_check pv m fd pid a of None \<Rightarrow> None
      | Some None \<Rightarrow> Some ([], Exit 0)
      | Some (Some a') \<Rightarrow>
          (case calcualte_and_update b a' of None \<Rightarrow> None
           | Some None \<Rightarrow> power_rounds pv fd pid rs b a'
           | Some (Some (d, b')) \<Rightarrow> do {
               (ls, r) \<leftarrow> power_rounds pv fd pid rs b' a';
               Some (power_line pv t0 (realtime (procfs m)) d # ls, r)
             }))"

text \<open>\<open>fd\<close> is the descriptor \<open>create_perf_stat_counter\<close> gets from \<open>perf_event_open\<close>.\<close>

definition power_monitor ::
  "(cstr \<Rightarrow> bool) \<Rightarrow> (nat \<Rightarrow> cfp) \<Rightarrow> int \<Rightarrow> int \<Rightarrow> cstr \<Rightarrow> monitored \<Rightarrow> (timestamp \<times> monitored) list \<Rightarrow>
   (cstr list \<times> int call) option" where
  "power_monitor can_append pv fd pid DataPath m0 rs = do {
     FileName \<leftarrow> data_file DataPath METRIC_NAME_3;
     if \<not> can_append FileName \<or> fd \<le> 0 then Some ([], Exit 0)
     else case read_and_check pv m0 fd pid info_start of None \<Rightarrow> None
       | Some None \<Rightarrow> Some ([], Exit 0)
       | Some (Some b) \<Rightarrow> power_rounds pv fd pid rs b info_start
   }"


subsection \<open>What the lines account for\<close>

definition disk_known :: "pid_stats_info \<Rightarrow> bool" where
  "disk_known i \<longleftrightarrow> pid_read_bytes i \<noteq> None \<and> pid_write_bytes i \<noteq> None \<and> pid_cancelled_writes i \<noteq> None"

definition increments :: "pid_stats_info \<Rightarrow> pid_stats_info \<Rightarrow> pid_delta" where
  "increments b a = \<lparr>d_itv = sys_itv a - sys_itv b, d_runtime = sys_runtime a - sys_runtime b,
     d_pid_runtime = pid_runtime a - pid_runtime b, d_read = the (pid_read_bytes a) - the (pid_read_bytes b),
     d_write = the (pid_write_bytes a) - the (pid_write_bytes b),
     d_cancelled = the (pid_cancelled_writes a) - the (pid_cancelled_writes b),
     d_misses = pid_l2_cache_misses a - pid_l2_cache_misses b,
     d_energy = fp_sub binary32 (sys_cpu_energy a) (sys_cpu_energy b)\<rparr>"

lemma calcualte_increments:
  assumes "disk_known b" "disk_known a"
  shows "calcualte_and_update b a = Some (if advances b a then Some (increments b a, a) else None)"
  using assms by (auto simp: calcualte_and_update_def disk_known_def increments_def)

text \<open>The readings of the rounds, each starting from the structure the one before has left.\<close>

fun power_readings ::
  "(nat \<Rightarrow> cfp) \<Rightarrow> int \<Rightarrow> int \<Rightarrow> pid_stats_info \<Rightarrow> (timestamp \<times> monitored) list \<Rightarrow> pid_stats_info list \<Rightarrow> bool" where
  "power_readings pv fd pid a [] [] = True"
| "power_readings pv fd pid a ((t0, m) # rs) (i # is) \<longleftrightarrow>
     read_and_check pv m fd pid a = Some (Some i) \<and> disk_known i \<and> power_readings pv fd pid i rs is"
| "power_readings pv fd pid a _ _ = False"

text \<open>
  The rounds that give a line: those whose reading advances both times since the last one that
  did. A line is given by the clock before its own round, the clock after it, and the two
  readings.
\<close>

fun accepted ::
  "pid_stats_info \<Rightarrow> (timestamp \<times> monitored) list \<Rightarrow> pid_stats_info list \<Rightarrow>
   (timestamp \<times> timestamp \<times> pid_stats_info \<times> pid_stats_info) list" where
  "accepted b ((t0, m) # rs) (i # is) =
     (if sys_itv b < sys_itv i \<and> sys_runtime b < sys_runtime i then (t0, realtime (procfs m), b, i) # accepted i rs is
      else accepted b rs is)"
| "accepted b _ _ = []"

definition last_accepted :: "pid_stats_info \<Rightarrow> pid_stats_info list \<Rightarrow> pid_stats_info" where
  "last_accepted b is = fold (\<lambda>i b. if sys_itv b < sys_itv i \<and> sys_runtime b < sys_runtime i then i else b) is b"

lemma power_readings_Nil [simp]:
  "power_readings pv fd pid a [] is \<longleftrightarrow> is = []" "power_readings pv fd pid a rs [] \<longleftrightarrow> rs = []"
  by (cases "is"; simp) (cases rs; simp)

lemma power_rounds_accepted:
  assumes "disk_known b" "power_readings pv fd pid a rs is"
  shows "power_rounds pv fd pid rs b a =
    Some (map (\<lambda>(t0, t1, b, i). power_line pv t0 t1 (increments b i)) (accepted b rs is), Return 1)"
  using assms
proof (induction b rs "is" arbitrary: a rule: accepted.induct)
  case (1 b t0 m rs i "is")
  then show ?case by (auto simp: calcualte_increments advances_def)
qed auto

lemma accepted_sum:
  assumes "power_readings pv fd pid a rs is"
  shows "sum_list (map (\<lambda>(_, _, x, y). f y - f x) (accepted b rs is)) = f (last_accepted b is) - (f b :: u64)"
  using assms
proof (induction b rs "is" arbitrary: a rule: accepted.induct)
  case (1 b t0 m rs i "is")
  then show ?case by (auto simp: last_accepted_def)
qed (auto simp: last_accepted_def)

text \<open>
  C15. While the readings succeed and hold the three disk counters (\<open>disk_known\<close>), the monitor
  returns 1 and writes a line for exactly the rounds whose reading advances the total and the
  busy CPU time since the last reading that did, from the clocks of that round and the increments
  between these two readings. The times, bytes and cache misses of all lines together are the
  growth of each counter up to the last such reading: a skipped round loses nothing.
\<close>

theorem power_monitor_accounts:
  assumes "length DataPath < 240" "can_append (DataPath @ ''/power'')" "0 < fd"
    "read_and_check pv m0 fd pid info_start = Some (Some b)" "disk_known b" "power_readings pv fd pid info_start rs is"
  shows "\<exists>ds. power_monitor can_append pv fd pid DataPath m0 rs =
      Some (map (\<lambda>((t0, t1, _, _), d). power_line pv t0 t1 d) (zip (accepted b rs is) ds), Return 1) \<and>
    ds = map (\<lambda>(_, _, x, y). increments x y) (accepted b rs is) \<and>
    sum_list (map d_itv ds) = sys_itv (last_accepted b is) - sys_itv b \<and>
    sum_list (map d_runtime ds) = sys_runtime (last_accepted b is) - sys_runtime b \<and>
    sum_list (map d_pid_runtime ds) = pid_runtime (last_accepted b is) - pid_runtime b \<and>
    sum_list (map d_read ds) = the (pid_read_bytes (last_accepted b is)) - the (pid_read_bytes b) \<and>
    sum_list (map d_write ds) = the (pid_write_bytes (last_accepted b is)) - the (pid_write_bytes b) \<and>
    sum_list (map d_cancelled ds) = the (pid_cancelled_writes (last_accepted b is)) - the (pid_cancelled_writes b) \<and>
    sum_list (map d_misses ds) = pid_l2_cache_misses (last_accepted b is) - pid_l2_cache_misses b"
proof -
  let ?ds = "map (\<lambda>(_, _, x, y). increments x y) (accepted b rs is)"
  have "map (\<lambda>((t0, t1, _, _), d). power_line pv t0 t1 d) (zip (accepted b rs is) ?ds) =
      map (\<lambda>(t0, t1, x, y). power_line pv t0 t1 (increments x y)) (accepted b rs is)"
    by (simp add: zip_map2 zip_same_conv_map comp_def split_def)
  then have m: "power_monitor can_append pv fd pid DataPath m0 rs =
      Some (map (\<lambda>((t0, t1, _, _), d). power_line pv t0 t1 d) (zip (accepted b rs is) ?ds), Return 1)"
    using assms(1-4) power_rounds_accepted [OF assms(5,6)] by (simp add: power_monitor_def data_file_def METRIC_NAME_3_def)
  have s: "sum_list (map g ?ds) = f (last_accepted b is) - f b"
    if "\<And>x y. g (increments x y) = f y - f x" for g and f :: "pid_stats_info \<Rightarrow> u64"
    using accepted_sum [OF assms(6), of f b] that by (simp add: comp_def split_def)
  show ?thesis by (intro exI [of _ ?ds] conjI m refl s) (simp_all add: increments_def)
qed

text \<open>
  C38. The power after a skipped round is too high: when the first of two rounds does not
  advance the counters and the second does, the only line divides the increments of both rounds
  by the length of the second alone, since \<open>timestamp_before\<close> is taken anew although
  \<open>before\<close> is not.
\<close>

theorem skipped_round_inflates:
  assumes "length DataPath < 240" "can_append (DataPath @ ''/power'')" "0 < fd"
    "read_and_check pv m0 fd pid info_start = Some (Some b)" "disk_known b"
    "power_readings pv fd pid info_start [(t1, m1), (t2, m2)] [i1, i2]" "\<not> advances b i1" "advances b i2"
  shows "power_monitor can_append pv fd pid DataPath m0 [(t1, m1), (t2, m2)] =
      Some ([power_line pv t2 (realtime (procfs m2)) (increments b i2)], Return 1) \<and>
    d_itv (increments b i2) = (sys_itv i1 - sys_itv b) + (sys_itv i2 - sys_itv i1) \<and>
    d_pid_runtime (increments b i2) = (pid_runtime i1 - pid_runtime b) + (pid_runtime i2 - pid_runtime i1)"
proof -
  have "accepted b [(t1, m1), (t2, m2)] [i1, i2] = [(t2, realtime (procfs m2), b, i2)]"
    using assms(7,8) by (auto simp: advances_def)
  then show ?thesis using assms(1-4) power_rounds_accepted [OF assms(5,6)]
    by (simp add: power_monitor_def data_file_def METRIC_NAME_3_def increments_def del: power_rounds.simps)
qed

subsection \<open>Concrete runs\<close>

definition io_text :: string where
  "io_text = ''read_bytes: 3'' @ NL # ''write_bytes: 4'' @ NL # ''cancelled_write_bytes: 0'' @ NL # []"

definition busy_text :: "char \<Rightarrow> string" where
  "busy_text g = (''cpu  '' @ [g] @ '' 0 1 9 0 0 0 0'') @ NL # []"

definition app_text :: cstr where
  "app_text = stat_text 7 ''app'' CHR ''R'' (replicate 10 0) 2 1 '' 0''"

definition watched :: "char \<Rightarrow> int \<Rightarrow> monitored" where
  "watched g t = \<lparr>procfs = \<lparr>proc_file = (\<lambda>p.
     if p = pid_file 7 ''stat'' then Some (app_text @ NL # []) else if p = pid_file 7 ''io'' then Some io_text
     else if p = ''/proc/stat'' then Some (busy_text g)
     else if p = ''/sys/devices/system/cpu/cpu0/cpufreq/stats/time_in_state'' then Some [] else None),
     proc_dir = None, realtime = \<lparr>sec = t, nsec = 0\<rparr>\<rparr>, cpus = Some [], cache_misses = Some 5\<rparr>"

definition watched_info :: "u64 \<Rightarrow> pid_stats_info" where
  "watched_info g = \<lparr>sys_itv = g + 10, sys_runtime = g + 1, pid_runtime = 3, pid_read_bytes = Some 3,
     pid_write_bytes = Some 4, pid_cancelled_writes = Some 0, pid_l2_cache_misses = 5, sys_cpu_energy = fp_zero\<rparr>"

lemma watched_files:
  "pid_file 7 ''io'' \<noteq> pid_file 7 ''stat''" "pid_file 7 ''stat'' \<noteq> ''/proc/stat''" "pid_file 7 ''io'' \<noteq> ''/proc/stat''"
  "''/sys/devices/system/cpu/cpu0/cpufreq/stats/time_in_state'' \<noteq> pid_file 7 ''stat''"
  "''/sys/devices/system/cpu/cpu0/cpufreq/stats/time_in_state'' \<noteq> pid_file 7 ''io''"
  by code_simp+

lemma watched_time: "process_time (app_text @ NL # []) = Some 3"
proof -
  have "NL \<notin> set app_text \<and> NUL \<notin> set app_text \<and> length app_text + 2 \<le> 1024" by code_simp
  then have "first_line 1024 (app_text @ NL # []) = Some (app_text @ [NL])"
    by (simp add: first_line_def fgets_all_line c_string_id)
  moreover have "proc_times (app_text @ [NL]) = Some (2, 1)"
    using proc_times_correct [of "''app''" "CHR ''R''" "replicate 10 0" 2 1 "'' 0'' @ [NL]" 7]
    by (simp add: app_text_def stat_text_def isspace_def isdigit_def)
  ultimately show ?thesis by (simp add: process_time_def)
qed

lemma watched_io:
  "foldM pid_io_line (fgets_all 128 io_text) i =
     Some (i\<lparr>pid_read_bytes := Some 3, pid_write_bytes := Some 4, pid_cancelled_writes := Some 0\<rparr>)"
proof -
  have "fgets_all 128 io_text = [''read_bytes: 3'' @ [NL], ''write_bytes: 4'' @ [NL], ''cancelled_write_bytes: 0'' @ [NL]]"
    unfolding io_text_def by (subst fgets_all_line, simp, simp, subst fgets_all_line, simp, simp, subst fgets_all_line, simp, simp) simp
  then show ?thesis
    by (simp add: pid_io_line_def strncmp_eq_def c_string_def scan_into_at_def skip_def scan_simps)
qed

lemma watched_sys:
  assumes "g = CHR ''2'' \<and> n = 2 \<or> g = CHR ''5'' \<and> n = 5"
  shows "proc_file (procfs m) ''/proc/stat'' = Some (busy_text g) \<Longrightarrow>
    read_sys_time (procfs m) i = Some (Some (i\<lparr>sys_itv := n + 10, sys_runtime := n + 1\<rparr>))"
proof -
  let ?l = "''cpu  '' @ [g] @ '' 0 1 9 0 0 0 0''"
  have "fgets_all 1024 (?l @ NL # []) = (?l @ [NL]) # fgets_all 1024 []"
    using assms by (intro fgets_all_line) auto
  then have f: "fgets_all 1024 (busy_text g) = [?l @ [NL]]" by (simp add: busy_text_def)
  have e: "8 = Suc (Suc (Suc (Suc (Suc (Suc (Suc (Suc 0)))))))" by simp
  have "scan_u64s 8 ([g] @ '' 0 1 9 0 0 0 0'' @ [NL]) = [n, 0, 1, 9, 0, 0, 0, 0]"
    using assms unfolding e scan_u64s.simps by (auto simp: scan_simps)
  moreover have "skip 5 (c_string (?l @ [NL])) = Some ([g] @ '' 0 1 9 0 0 0 0'' @ [NL])"
    using assms by (auto simp: skip_def c_string_def)
  ultimately show "proc_file (procfs m) ''/proc/stat'' = Some (busy_text g) \<Longrightarrow>
    read_sys_time (procfs m) i = Some (Some (i\<lparr>sys_itv := n + 10, sys_runtime := n + 1\<rparr>))"
    using f by (simp add: read_sys_time_def)
qed

lemma watched_reads:
  assumes "g = CHR ''2'' \<and> n = 2 \<or> g = CHR ''5'' \<and> n = 5"
  shows "read_and_check pv (watched g t) 9 7 i = Some (Some (watched_info n))"
proof -
  have f: "proc_file (procfs (watched g t)) (pid_file 7 ''stat'') = Some (app_text @ NL # [])"
    "proc_file (procfs (watched g t)) (pid_file 7 ''io'') = Some io_text"
    "proc_file (procfs (watched g t)) ''/proc/stat'' = Some (busy_text g)"
    "proc_file (procfs (watched g t)) ''/sys/devices/system/cpu/cpu0/cpufreq/stats/time_in_state'' = Some []"
    "cpus (watched g t) = Some []" "cache_misses (watched g t) = Some 5"
    using watched_files by (simp_all add: watched_def)
  show ?thesis
    by (simp add: read_and_check_def read_pid_time_def read_pid_io_def cpu_freq_stat_def read_perf_counter_def and_then_def
        f watched_time watched_io watched_sys [OF assms f(3)] watched_info_def)
qed

theorem power_monitor_accounts_witness:
  "\<exists>d. power_monitor (\<lambda>_. True) (\<lambda>_. lit64 1) 9 7 ''/d'' (watched CHR ''2'' 0)
      [(\<lparr>sec = 0, nsec = 0\<rparr>, watched CHR ''2'' 1), (\<lparr>sec = 1, nsec = 0\<rparr>, watched CHR ''5'' 2)] =
    Some ([power_line (\<lambda>_. lit64 1) \<lparr>sec = 1, nsec = 0\<rparr> \<lparr>sec = 2, nsec = 0\<rparr> d], Return 1) \<and>
    d_itv d = 3 \<and> d_runtime d = 3 \<and> d_write d = 0"
proof -
  let ?rs = "[(\<lparr>sec = 0, nsec = 0\<rparr>, watched CHR ''2'' 1), (\<lparr>sec = 1, nsec = 0\<rparr>, watched CHR ''5'' 2)]"
  let ?is = "[watched_info 2, watched_info 5]"
  have r: "power_readings (\<lambda>_. lit64 1) 9 7 info_start ?rs ?is"
    using watched_reads [of "CHR ''5''" 5] watched_reads [of "CHR ''2''" 2] by (simp add: disk_known_def watched_info_def)
  have k: "disk_known (watched_info 2)" by (simp add: disk_known_def watched_info_def)
  have a: "accepted (watched_info 2) ?rs ?is = [(\<lparr>sec = 1, nsec = 0\<rparr>, \<lparr>sec = 2, nsec = 0\<rparr>, watched_info 2, watched_info 5)]"
    "last_accepted (watched_info 2) ?is = watched_info 5"
    by (simp_all add: last_accepted_def watched_info_def) (simp add: watched_def)
  from power_monitor_accounts [OF _ _ _ _ k r, of "''/d''" "\<lambda>_. True" "watched CHR ''2'' 0"] watched_reads [of "CHR ''2''" 2] a
  show ?thesis by (auto simp: increments_def watched_info_def)
qed

theorem skipped_round_inflates_witness:
  "power_monitor (\<lambda>_. True) (\<lambda>_. lit64 1) 9 7 ''/d'' (watched CHR ''2'' 0)
      [(\<lparr>sec = 0, nsec = 0\<rparr>, watched CHR ''2'' 1), (\<lparr>sec = 1, nsec = 0\<rparr>, watched CHR ''5'' 2)] =
    Some ([power_line (\<lambda>_. lit64 1) \<lparr>sec = 1, nsec = 0\<rparr> \<lparr>sec = 2, nsec = 0\<rparr> (increments (watched_info 2) (watched_info 5))], Return 1)"
proof -
  have r: "power_readings (\<lambda>_. lit64 1) 9 7 info_start
      [(\<lparr>sec = 0, nsec = 0\<rparr>, watched CHR ''2'' 1), (\<lparr>sec = 1, nsec = 0\<rparr>, watched CHR ''5'' 2)] [watched_info 2, watched_info 5]"
    using watched_reads [of "CHR ''5''" 5] watched_reads [of "CHR ''2''" 2] by (simp add: disk_known_def watched_info_def)
  have k: "disk_known (watched_info 2)" by (simp add: disk_known_def watched_info_def)
  have a: "\<not> advances (watched_info 2) (watched_info 2)" "advances (watched_info 2) (watched_info 5)"
    by (simp_all add: advances_def watched_info_def)
  have t: "realtime (procfs (watched g x)) = \<lparr>sec = x, nsec = 0\<rparr>" for g x by (simp add: watched_def)
  from skipped_round_inflates [OF _ _ _ _ k r a, of "''/d''" "\<lambda>_. True" "watched CHR ''2'' 0"] watched_reads [of "CHR ''2''" 2]
  show ?thesis by (simp add: t)
qed

end
