(* ===== verification/Mf_Api.thy ===== *)
theory Mf_Api
  imports Publisher Resources_Monitor Disk_Monitor Power_Monitor
begin

text \<open>
  The application API, \<^verbatim>\<open>api/src/mf_api.c\<close>: an application starts the monitors of the
  metrics it chooses, records metrics of its own, stops the monitors and sends what all have
  written to the server. The files of \<^verbatim>\<open>DataPath\<close> are the channel between these steps.

  The operating system is a parameter: the process's id, the target of
  \<^verbatim>\<open>/proc/self/exe\<close> (\<open>None\<close> for a failed \<open>readlink\<close>), whether a file can be created, and the
  entries of a directory (\<open>None\<close> when it cannot be opened).
\<close>

definition MAX_NUM_METRICS :: nat where "MAX_NUM_METRICS = 3"

record host =
  host_pid :: int
  exe_link :: "string option"
  can_create :: "cstr \<Rightarrow> bool"
  dir_entries :: "cstr \<Rightarrow> cstr list option"
  clock :: timestamp

text \<open>
  The global \<open>logFile\<close>: a null pointer, an open stream, or a pointer to a stream that has been
  closed. \<open>live_threads\<close> are the indices of threads that have been created and not joined;
  \<open>store\<close> is the contents of the files the API has written.
\<close>

datatype log_stream = No_log | Open_log | Closed_log

record api =
  DataPath :: cstr
  api_pid :: int
  num_threads :: nat
  live_threads :: "nat set"
  api_running :: bool
  keep_local_data_flag :: int
  parameters_value :: "nat \<Rightarrow> cfp"
  logFile :: log_stream
  store :: "cstr \<rightharpoonup> string"

definition api_start :: api where
  "api_start = \<lparr>DataPath = [], api_pid = 0, num_threads = 0, live_threads = {}, api_running = False, keep_local_data_flag = 1,
     parameters_value = (\<lambda>_. fp_zero), logFile = No_log, store = Map.empty\<rparr>"

subsection \<open>Preparation\<close>

text \<open>
  \<open>readlink\<close> is given 200 characters. A path without a slash makes \<open>ptr\<close> the difference with a
  null pointer. A stream that \<open>logFile\<close> pointed to before is leaked. The \<open>stat\<close> and \<open>mkdir\<close> of
  the data directory are not modelled, since their results are ignored: whether a file can be
  created in it is \<open>can_create\<close>.
\<close>

definition api_prepare :: "host \<Rightarrow> api \<Rightarrow> api call option" where
  "api_prepare h st =
     (case exe_link h of None \<Rightarrow> Some (Exit 0)
      | Some link \<Rightarrow>
          let buf = take 200 link in
          (case strrchr buf CHR ''/'' of None \<Rightarrow> None
           | Some ptr \<Rightarrow> do {
               let dir = take ptr buf;
               logFileName \<leftarrow> c_store 256 (dir @ ''/log.txt'');
               path \<leftarrow> c_store 256 (dir @ ''/'' @ show_int (host_pid h));
               Some (Return (st\<lparr>DataPath := path, api_pid := host_pid h,
                 logFile := (if can_create h logFileName then Open_log else No_log)\<rparr>))
             }))"

definition prepared :: "host \<Rightarrow> api \<Rightarrow> api call option" where
  "prepared h st = (if DataPath st = [] then api_prepare h st else Some (Return st))"

subsection \<open>User-defined metrics\<close>

text \<open>\<open>fopen(FileName, "a")\<close>, one line, \<open>fclose\<close>; 0 when the file cannot be created.\<close>

definition append_line :: "host \<Rightarrow> cstr \<Rightarrow> api \<Rightarrow> (int \<times> api) option" where
  "append_line h line st = do {
     FileName \<leftarrow> c_store 256 (DataPath st @ ''/user_defined'');
     Some (if \<not> can_create h FileName then (0, st)
           else (1, st\<lparr>store := (store st)(FileName \<mapsto>
             (case store st FileName of None \<Rightarrow> [] | Some s \<Rightarrow> s) @ line @ [NL])\<rparr>))
   }"

definition user_text :: "cstr \<Rightarrow> cstr \<Rightarrow> cstr \<Rightarrow> cstr" where
  "user_text stamp metric_name value =
     quoted ''local_timestamp'' @ '':'' @ quoted stamp @ '', '' @ quoted metric_name @ '':'' @ value"

definition mf_user_metric_with_timestamp :: "host \<Rightarrow> cstr \<Rightarrow> cstr \<Rightarrow> cstr \<Rightarrow> api \<Rightarrow> (int \<times> api) call option" where
  "mf_user_metric_with_timestamp h stamp metric_name value st =
     (case prepared h st of None \<Rightarrow> None
      | Some (Exit e) \<Rightarrow> Some (Exit e)
      | Some (Return st1) \<Rightarrow> map_option Return (append_line h (user_text stamp metric_name value) st1))"

definition mf_user_metric :: "host \<Rightarrow> cstr \<Rightarrow> cstr \<Rightarrow> api \<Rightarrow> (int \<times> api) call option" where
  "mf_user_metric h metric_name value st =
     (case prepared h st of None \<Rightarrow> None
      | Some (Exit e) \<Rightarrow> Some (Exit e)
      | Some (Return st1) \<Rightarrow>
          map_option Return (append_line h (user_text (show_fp 1 (milliseconds (clock h))) metric_name value) st1))"

subsection \<open>The parameters of the platform\<close>

definition parameters_name :: "cstr list" where
  "parameters_name = [''MAX_CPU_POWER'', ''MIN_CPU_POWER'', ''MEMORY_POWER'', ''L2CACHE_MISS_LATENCY'', ''L2CACHE_LINE_SIZE'',
     ''E_DISK_R_PER_KB'', ''E_DISK_W_PER_KB'', ''E_NET_SND_PER_KB'', ''E_NET_RCV_PER_KB'']"

text \<open>
  The text of one parameter: from its name to the next comma, or the next closing brace, without
  the three characters after the name and the one at the end. \<open>strncpy\<close> copies \<open>value_length\<close>
  characters into \<open>char value[16]\<close>: a negative length becomes a huge one, more than 16 run past
  the array, and 16 leave no NUL for \<open>atof\<close>. \<open>None\<close> inside \<open>Some\<close> is the return of 0.
\<close>

definition parameter_text :: "cstr \<Rightarrow> cstr \<Rightarrow> cstr option option" where
  "parameter_text name ptr_begin =
     (case (case strstr ptr_begin '','' of None \<Rightarrow> strstr ptr_begin ''}'' | Some e \<Rightarrow> Some e) of
        None \<Rightarrow> Some None
      | Some ptr_end \<Rightarrow>
          let value_length = int (length ptr_begin) - int (length ptr_end) - 4 - int (length name) in
          if value_length < 0 \<or> 16 \<le> value_length then None
          else Some (Some (take (nat value_length) (drop (3 + length name) ptr_begin))))"

text \<open>The loop over the nine names; its result says whether it ran to the end.\<close>

fun read_parameters :: "cstr \<Rightarrow> nat list \<Rightarrow> (nat \<Rightarrow> cfp) \<Rightarrow> (bool \<times> (nat \<Rightarrow> cfp)) option" where
  "read_parameters response [] pv = Some (True, pv)"
| "read_parameters response (i # is) pv =
     (case strstr response (parameters_name ! i) of None \<Rightarrow> read_parameters response is pv
      | Some ptr_begin \<Rightarrow>
          (case parameter_text (parameters_name ! i) ptr_begin of None \<Rightarrow> None
           | Some None \<Rightarrow> Some (False, pv)
           | Some (Some value) \<Rightarrow> do {
               v \<leftarrow> atof value;
               read_parameters response is (pv(i := fp_conv binary32 v))
             }))"

definition get_config_parameters :: "net \<Rightarrow> cstr \<Rightarrow> cstr \<Rightarrow> api \<Rightarrow> pub \<Rightarrow> (int \<times> api \<times> pub) option" where
  "get_config_parameters net server platform_id st p = do {
     URL \<leftarrow> c_store 256 (server @ ''/v1/phantom_rm/configs/'' @ platform_id);
     (rc, block, p') \<leftarrow> query_json net (Some URL) (Live []) p;
     if rc \<le> 0 then Some (0, st, p')
     else case block of Dangling \<Rightarrow> None
     | Live response_str \<Rightarrow>
         if strstr response_str ''parameters'' = None then Some (0, st, p')
         else do {
           (ok, pv) \<leftarrow> read_parameters response_str [0..<9] (parameters_value st);
           Some (if ok then 1 else 0, st\<lparr>parameters_value := pv\<rparr>, p')
         }
   }"

subsection \<open>Start and end of the monitors\<close>

text \<open>The user's \<open>metrics\<close>; the arrays have \<open>MAX_NUM_METRICS\<close> entries.\<close>

record metrics =
  sampling_interval :: "int list"
  metrics_names :: "cstr list"
  num_metrics :: nat
  local_data_storage :: int

text \<open>
  What a monitor thread runs, given what it sees: the clock before each pause and the machine
  after it. The thread itself returns null.
\<close>

record surroundings =
  appendable :: "cstr \<Rightarrow> bool"
  perf_event :: int
  first_view :: monitored
  views :: "(timestamp \<times> monitored) list"

definition ended :: "int call \<Rightarrow> unit call" where
  "ended r = (case r of Exit e \<Rightarrow> Exit e | Return _ \<Rightarrow> Return ())"

definition MonitorStart ::
  "surroundings \<Rightarrow> api \<Rightarrow> cstr \<Rightarrow> int \<Rightarrow> (cstr list \<times> unit call) option" where
  "MonitorStart w st metric_name interval =
     (if metric_name = METRIC_NAME_1 then
        map_option (\<lambda>(ls, r). (ls, ended r)) (resources_monitor (appendable w) (api_pid st) (DataPath st)
          (procfs (first_view w)) (map (procfs \<circ> snd) (views w)))
      else if metric_name = METRIC_NAME_2 then
        map_option (\<lambda>(ls, r). (ls, Return ())) (disk_monitor (appendable w) (api_pid st) (DataPath st) interval
          (procfs (first_view w)) (map (procfs \<circ> snd) (views w)))
      else if metric_name = METRIC_NAME_3 then
        map_option (\<lambda>(ls, r). (ls, ended r)) (power_monitor (appendable w) (parameters_value st) (perf_event w) (api_pid st)
          (DataPath st) (first_view w) (views w))
      else Some ([], Return ()))"

text \<open>
  The loop that creates the threads; \<open>creates t\<close> says whether \<open>pthread_create\<close> succeeds. The
  result is the list of the threads' arguments up to the first failure, and whether there was
  none. An index beyond the arrays of \<open>metrics\<close> or \<open>threads\<close> is undefined.
\<close>

fun create_threads :: "(nat \<Rightarrow> bool) \<Rightarrow> metrics \<Rightarrow> nat list \<Rightarrow> (cstr \<times> int) list \<Rightarrow> (bool \<times> (cstr \<times> int) list) option" where
  "create_threads creates m [] started = Some (True, started)"
| "create_threads creates m (t # ts) started =
     (if MAX_NUM_METRICS \<le> t \<or> length (sampling_interval m) \<le> t \<or> length (metrics_names m) \<le> t then None
      else if \<not> creates t then Some (False, started)
      else create_threads creates m ts (started @ [(metrics_names m ! t, sampling_interval m ! t)]))"

text \<open>
  \<open>mf_start\<close> returns \<open>DataPath\<close> or null, here with the arguments of the threads it created. The
  number of metrics is a natural number; a negative one, or 0, for which the size of the array
  \<open>iret\<close> is undefined, is outside the model.
\<close>

definition mf_start ::
  "host \<Rightarrow> net \<Rightarrow> (nat \<Rightarrow> bool) \<Rightarrow> cstr \<Rightarrow> cstr \<Rightarrow> metrics \<Rightarrow> api \<Rightarrow> pub \<Rightarrow>
   (cstr option \<times> (cstr \<times> int) list \<times> api \<times> pub) call option" where
  "mf_start h net creates server platform_id m st p =
     (case api_prepare h st of None \<Rightarrow> None
      | Some (Exit e) \<Rightarrow> Some (Exit e)
      | Some (Return st1) \<Rightarrow> do {
          (rc, st2, p') \<leftarrow> get_config_parameters net server platform_id st1 p;
          if rc \<le> 0 then Some (Return (None, [], st2, p'))
          else do {
            let st3 = st2\<lparr>num_threads := num_metrics m, api_running := True, keep_local_data_flag := local_data_storage m\<rparr>;
            (ok, started) \<leftarrow> create_threads creates m [0..<num_metrics m] [];
            let st4 = st3\<lparr>live_threads := live_threads st3 \<union> {0..<length started}\<rparr>;
            Some (Return (if ok then Some (DataPath st4) else None, started, st4, p'))
          }
        })"

text \<open>\<open>pthread_join\<close> of a thread that was never created, or has been joined, is undefined.\<close>

definition mf_end :: "api \<Rightarrow> api option" where
  "mf_end st =
     (let st1 = st\<lparr>api_running := False\<rparr> in
      if {0..<num_threads st} \<subseteq> live_threads st then Some (st1\<lparr>live_threads := live_threads st - {0..<num_threads st}\<rparr>)
      else None)"

subsection \<open>Sending\<close>

text \<open>
  The entries \<open>.\<close> and \<open>..\<close> are directories: \<open>fopen\<close> opens them for reading, and \<open>fgets\<close> then
  yields nothing.
\<close>

definition fopen_read :: "api \<Rightarrow> cstr \<Rightarrow> string option" where
  "fopen_read st path =
     (case store st path of Some s \<Rightarrow> Some s
      | None \<Rightarrow> if path = DataPath st @ ''/.'' \<or> path = DataPath st @ ''/..'' then Some [] else None)"

record send_ids =
  application_id :: cstr
  component_id :: cstr
  platform :: cstr

definition static_fields :: "send_ids \<Rightarrow> cstr \<Rightarrow> cstr \<Rightarrow> cstr" where
  "static_fields ids experiment_id d_name =
     quoted ''WorkflowID'' @ '':'' @ quoted (application_id ids) @ '', '' @ quoted ''TaskID'' @ '':'' @ quoted (component_id ids) @
     '', '' @ quoted ''ExperimentID'' @ '':'' @ quoted experiment_id @ '', '' @ quoted ''type'' @ '':'' @ quoted d_name @
     '', '' @ quoted ''host'' @ '':'' @ quoted (platform ids)"

definition experiment_text :: "send_ids \<Rightarrow> cstr" where
  "experiment_text ids = ''{'' @ quoted ''application'' @ '':'' @ quoted (application_id ids) @ '', '' @ quoted ''task'' @ '': '' @
     quoted (component_id ids) @ '', '' @ quoted ''host'' @ '': '' @ quoted (platform ids) @ ''}''"

text \<open>One round of the loop over the directory; the code of \<open>publish_file\<close> is ignored.\<close>

definition send_entry :: "net \<Rightarrow> cstr \<Rightarrow> send_ids \<Rightarrow> cstr \<Rightarrow> cstr \<Rightarrow> api \<times> pub \<Rightarrow> (api \<times> pub) option" where
  "send_entry net metric_URL ids experiment_id d_name = (\<lambda>(st, p). do {
     filename \<leftarrow> c_store 256 (DataPath st @ ''/'' @ d_name);
     static_string \<leftarrow> c_store 256 (static_fields ids experiment_id d_name);
     (_, p') \<leftarrow> publish_file net (fopen_read st) (Some metric_URL) (Some static_string) (Some filename) p;
     Some (if keep_local_data_flag st = 0 then st\<lparr>store := (store st)(filename := None)\<rparr> else st, p')
   })"

text \<open>
  \<open>fclose(logFile)\<close> at the end is undefined for a null pointer and for a stream that has been
  closed before. \<open>rmdir\<close> has no effect on the model's files.
\<close>

definition mf_send :: "host \<Rightarrow> net \<Rightarrow> cstr \<Rightarrow> send_ids \<Rightarrow> api \<Rightarrow> pub \<Rightarrow> (cstr option \<times> api \<times> pub) option" where
  "mf_send h net server ids st p = do {
     msg \<leftarrow> c_store 256 (experiment_text ids);
     URL \<leftarrow> c_store 256 (server @ ''/v1/phantom_mf/experiments/'' @ application_id ids);
     (_, block, p1) \<leftarrow> create_new_experiment net (Some URL) (Some msg) (Live []) p;
     case block of Dangling \<Rightarrow> None
     | Live experiment_id \<Rightarrow>
         if experiment_id = [] then Some (None, st, p1)
         else do {
           metric_URL \<leftarrow> c_store 256 (server @ ''/v1/phantom_mf/metrics'');
           case dir_entries h (DataPath st) of None \<Rightarrow> Some (None, st, p1)
           | Some names \<Rightarrow> do {
               (st', p2) \<leftarrow> foldM (send_entry net metric_URL ids experiment_id) names (st, p1);
               if logFile st' = Open_log then Some (Some experiment_id, st'\<lparr>logFile := Closed_log\<rparr>, p2) else None
             }
         }
   }"


subsection \<open>A server that accepts everything\<close>

definition good_net :: "net \<Rightarrow> bool" where
  "good_net net \<longleftrightarrow> curl_ok net \<and> (\<forall>n r. fst (reply net n r)) \<and> (\<forall>n. realloc_at net n = InPlace)"

definition posts :: "cstr \<Rightarrow> cstr \<Rightarrow> cstr list \<Rightarrow> cstr list \<Rightarrow> request list" where
  "posts u s ls hs = map (\<lambda>b. \<lparr>meth = POST, url = u, body = batch_text s b, hdrs = hs\<rparr>) (blocks 10 ls)"

lemma posts_Nil [simp]: "posts u s [] hs = []" by (simp add: posts_def)

lemma transfer_all_good: "good_net net \<Longrightarrow> transfer_all net rs p = (True, p\<lparr>sent := sent p @ rs\<rparr>)"
proof (induction rs arbitrary: p)
  case (Cons r rs)
  then show ?case by (simp add: curl_easy_perform_def good_net_def)
qed simp

lemma init_curl_idem [simp]: "headers p \<noteq> [] \<Longrightarrow> init_curl p = p" by (simp add: init_curl_def)

lemma init_curl_ready [simp]: "headers (init_curl p) \<noteq> []"
  by (auto simp: init_curl_def)

definition lines_fit :: "cstr \<Rightarrow> cstr list \<Rightarrow> bool" where
  "lines_fit s ls \<longleftrightarrow> (\<forall>l \<in> set ls. data_line l) \<and> (\<forall>b \<in> set (blocks 10 ls). length (batch_text s b) < MESSAGE_CAP)"

lemma publish_file_good:
  assumes "good_net net" "headers p \<noteq> []" "u \<noteq> []" "s \<noteq> []" "name \<noteq> []"
    "fs name = Some (concat (map (\<lambda>l. l @ [NL]) ls))" "lines_fit s ls"
  shows "publish_file net fs (Some u) (Some s) (Some name) p = Some (1, p\<lparr>sent := sent p @ posts u s ls (headers p)\<rparr>)"
  using publish_file_posts [where u = u and s = s and name = name and net = net and fs = fs and ls = ls and p = p]
    assms transfer_all_good [OF assms(1)]
  by (simp add: good_net_def lines_fit_def posts_def)

subsection \<open>Sending a directory\<close>

definition file_lines :: "api \<Rightarrow> (cstr \<Rightarrow> cstr list) \<Rightarrow> cstr \<Rightarrow> bool" where
  "file_lines st lines d \<longleftrightarrow> fopen_read st (DataPath st @ ''/'' @ d) = Some (concat (map (\<lambda>l. l @ [NL]) (lines d)))"

definition entry_ok :: "api \<Rightarrow> send_ids \<Rightarrow> cstr \<Rightarrow> (cstr \<Rightarrow> cstr list) \<Rightarrow> cstr \<Rightarrow> bool" where
  "entry_ok st ids e lines d \<longleftrightarrow> length (DataPath st @ ''/'' @ d) < 256 \<and> length (static_fields ids e d) < 256 \<and>
     file_lines st lines d \<and> lines_fit (static_fields ids e d) (lines d)"

lemma send_entry_good:
  assumes "good_net net" "headers p \<noteq> []" "u \<noteq> []" "entry_ok st ids e lines d"
  shows "\<exists>st'. send_entry net u ids e d (st, p) =
      Some (st', p\<lparr>sent := sent p @ posts u (static_fields ids e d) (lines d) (headers p)\<rparr>) \<and>
    DataPath st' = DataPath st \<and> logFile st' = logFile st \<and> keep_local_data_flag st' = keep_local_data_flag st \<and>
    (\<forall>x. x \<noteq> d \<longrightarrow> store st' (DataPath st @ ''/'' @ x) = store st (DataPath st @ ''/'' @ x))"
proof -
  have "static_fields ids e d \<noteq> []" by (simp add: static_fields_def quoted_def)
  then have "publish_file net (fopen_read st) (Some u) (Some (static_fields ids e d)) (Some (DataPath st @ ''/'' @ d)) p =
      Some (1, p\<lparr>sent := sent p @ posts u (static_fields ids e d) (lines d) (headers p)\<rparr>)"
    using assms by (intro publish_file_good) (simp_all add: entry_ok_def file_lines_def)
  then show ?thesis using assms(4) by (simp add: send_entry_def entry_ok_def)
qed

lemma entry_ok_cong:
  assumes "entry_ok st ids e lines d" "DataPath st' = DataPath st"
    "store st' (DataPath st @ ''/'' @ d) = store st (DataPath st @ ''/'' @ d)"
  shows "entry_ok st' ids e lines d"
proof -
  have "fopen_read st' (DataPath st' @ ''/'' @ d) = fopen_read st (DataPath st @ ''/'' @ d)"
    unfolding fopen_read_def assms(2,3) ..
  with assms(1,2) show ?thesis by (simp add: entry_ok_def file_lines_def)
qed

lemma send_entries_good:
  assumes "good_net net" "headers p \<noteq> []" "u \<noteq> []" "distinct names" "\<forall>d \<in> set names. entry_ok st ids e lines d"
  shows "\<exists>st'. foldM (send_entry net u ids e) names (st, p) =
      Some (st', p\<lparr>sent := sent p @ concat (map (\<lambda>d. posts u (static_fields ids e d) (lines d) (headers p)) names)\<rparr>) \<and>
    logFile st' = logFile st"
  using assms(2,4,5)
proof (induction names arbitrary: st p)
  case (Cons d ds)
  let ?p = "p\<lparr>sent := sent p @ posts u (static_fields ids e d) (lines d) (headers p)\<rparr>"
  obtain st1 where st1: "send_entry net u ids e d (st, p) = Some (st1, ?p)" "DataPath st1 = DataPath st" "logFile st1 = logFile st"
    "\<forall>x. x \<noteq> d \<longrightarrow> store st1 (DataPath st @ ''/'' @ x) = store st (DataPath st @ ''/'' @ x)"
    using send_entry_good [OF assms(1) Cons.prems(1) assms(3)] Cons.prems(3) by (meson list.set_intros(1))
  have "\<forall>x \<in> set ds. entry_ok st1 ids e lines x"
  proof
    fix x assume "x \<in> set ds"
    then have "entry_ok st ids e lines x" "x \<noteq> d" using Cons.prems(2,3) by auto
    then show "entry_ok st1 ids e lines x" using entry_ok_cong [OF _ st1(2)] st1(4) by blast
  qed
  then obtain st' where "foldM (send_entry net u ids e) ds (st1, ?p) =
      Some (st', ?p\<lparr>sent := sent ?p @ concat (map (\<lambda>d. posts u (static_fields ids e d) (lines d) (headers ?p)) ds)\<rparr>)"
    "logFile st' = logFile st1"
    using Cons.IH [of ?p st1] Cons.prems(1,2) by auto
  then show ?case using st1(1,3) by (intro exI [of _ st']) simp
qed simp

definition experiment_post :: "cstr \<Rightarrow> send_ids \<Rightarrow> cstr list \<Rightarrow> request" where
  "experiment_post server ids hs = \<lparr>meth = POST, url = server @ ''/v1/phantom_mf/experiments/'' @ application_id ids,
     body = experiment_text ids, hdrs = hs\<rparr>"

lemma mf_send_good:
  assumes "good_net net" "server \<noteq> []" "headers p = hs" "hs \<noteq> []" "logFile st = Open_log"
    "length (experiment_text ids) < 256" "length (server @ ''/v1/phantom_mf/experiments/'' @ application_id ids) < 256"
    "snd (reply net (length (sent p)) (experiment_post server ids hs)) = [e]" "e \<noteq> []" "NUL \<notin> set e"
    "length (server @ ''/v1/phantom_mf/metrics'') < 256"
    "dir_entries h (DataPath st) = Some names" "distinct names" "\<forall>d \<in> set names. entry_ok st ids e lines d"
  shows "\<exists>st'. mf_send h net server ids st p = Some (Some e, st',
      p\<lparr>sent := sent p @ experiment_post server ids hs #
         concat (map (\<lambda>d. posts (server @ ''/v1/phantom_mf/metrics'') (static_fields ids e d) (lines d) hs) names)\<rparr>) \<and>
    logFile st' = Closed_log"
proof -
  let ?p = "p\<lparr>sent := sent p @ [experiment_post server ids hs]\<rparr>"
  have m: "experiment_text ids \<noteq> []" by (simp add: experiment_text_def)
  have "create_new_experiment net (Some (server @ ''/v1/phantom_mf/experiments/'' @ application_id ids)) (Some (experiment_text ids)) (Live []) p =
      Some (1, Live e, ?p)"
    using assms(1-4,8,10) m
    by (subst create_new_experiment_reading)
      (simp_all add: good_net_def experiment_post_def deliver_in_place c_string_id Let_def)
  moreover obtain st' where "foldM (send_entry net (server @ ''/v1/phantom_mf/metrics'') ids e) names (st, ?p) =
      Some (st', ?p\<lparr>sent := sent ?p @ concat (map (\<lambda>d. posts (server @ ''/v1/phantom_mf/metrics'') (static_fields ids e d) (lines d) (headers ?p)) names)\<rparr>)"
    "logFile st' = logFile st"
    using send_entries_good [OF assms(1), of ?p "server @ ''/v1/phantom_mf/metrics''" names st ids e lines] assms(2-4,13,14) by auto
  ultimately show ?thesis using assms(3,5-7,9,11,12) by (simp add: mf_send_def)
qed


text \<open>
  When the server accepts everything and answers with an experiment id in one piece,
  \<open>mf_send\<close> creates the experiment, then posts every line of every file of the data directory,
  in the order of the directory and of the lines, ten to a message, tagged with the ids, the
  experiment and the name of the file, and returns the experiment id.
\<close>

theorem mf_send_posts_all:
  assumes "good_net net" "server \<noteq> []" "headers p = hs" "hs \<noteq> []" "logFile st = Open_log"
    "length (experiment_text ids) < 256" "length (server @ ''/v1/phantom_mf/experiments/'' @ application_id ids) < 256"
    "snd (reply net (length (sent p)) (experiment_post server ids hs)) = [e]" "e \<noteq> []" "NUL \<notin> set e"
    "length (server @ ''/v1/phantom_mf/metrics'') < 256"
    "dir_entries h (DataPath st) = Some names" "distinct names" "\<forall>d \<in> set names. entry_ok st ids e lines d"
  shows "\<exists>st'. mf_send h net server ids st p = Some (Some e, st',
      p\<lparr>sent := sent p @ experiment_post server ids hs #
         concat (map (\<lambda>d. posts (server @ ''/v1/phantom_mf/metrics'') (static_fields ids e d) (lines d) hs) names)\<rparr>)"
  using mf_send_good [OF assms] by blast

subsection \<open>From the user's metrics to the server\<close>

definition user_line :: "cstr \<times> cstr \<times> cstr \<Rightarrow> cstr" where
  "user_line = (\<lambda>(stamp, name, value). user_text stamp name value)"

text \<open>A sequence of calls that all return 1.\<close>

definition record_call :: "host \<Rightarrow> cstr \<times> cstr \<times> cstr \<Rightarrow> api \<Rightarrow> api option" where
  "record_call h = (\<lambda>(stamp, name, value) st.
     case mf_user_metric_with_timestamp h stamp name value st of
       Some (Return (rc, st')) \<Rightarrow> if rc = 1 then Some st' else None
     | _ \<Rightarrow> None)"

lemma strrchr_last: "c \<notin> set t \<Longrightarrow> strrchr (s @ c # t) c = Some (length s)"
proof -
  assume c: "c \<notin> set t"
  then have "strrchr t c = None" by (induction t) auto
  then show ?thesis by (induction s) auto
qed

text \<open>A host on which the API can work: a program in a directory, and files that can be created.\<close>

definition plain_host :: "host \<Rightarrow> cstr \<Rightarrow> cstr \<Rightarrow> bool" where
  "plain_host h dir prog \<longleftrightarrow> exe_link h = Some (dir @ ''/'' @ prog) \<and> CHR ''/'' \<notin> set prog \<and>
     length (dir @ ''/'' @ prog) \<le> 200 \<and> length (dir @ ''/'' @ show_int (host_pid h) @ ''/user_defined'') < 256 \<and>
     can_create h (dir @ ''/log.txt'') \<and> can_create h (dir @ ''/'' @ show_int (host_pid h) @ ''/user_defined'')"

definition data_dir :: "host \<Rightarrow> cstr \<Rightarrow> cstr" where
  "data_dir h dir = dir @ ''/'' @ show_int (host_pid h)"

lemma prepare_plain:
  assumes "plain_host h dir prog"
  shows "api_prepare h st = Some (Return (st\<lparr>DataPath := data_dir h dir, api_pid := host_pid h, logFile := Open_log\<rparr>))"
proof -
  have "strrchr (dir @ ''/'' @ prog) CHR ''/'' = Some (length dir)"
    using strrchr_last [of "CHR ''/''" prog dir] assms by (simp add: plain_host_def)
  moreover have "take 200 (dir @ ''/'' @ prog) = dir @ ''/'' @ prog" using assms by (intro take_all) (simp add: plain_host_def)
  moreover have "exe_link h = Some (dir @ ''/'' @ prog)" using assms by (simp add: plain_host_def)
  moreover have "take (length dir) (dir @ ''/'' @ prog) = dir" by simp
  ultimately show ?thesis using assms unfolding api_prepare_def
    by (simp only: option.case Let_def) (simp add: plain_host_def data_dir_def)
qed

definition recorded :: "host \<Rightarrow> cstr \<Rightarrow> (cstr \<times> cstr \<times> cstr) list \<Rightarrow> api \<Rightarrow> bool" where
  "recorded h dir calls st \<longleftrightarrow> DataPath st = data_dir h dir \<and> logFile st = Open_log \<and>
     store st = [data_dir h dir @ ''/user_defined'' \<mapsto> concat (map (\<lambda>l. l @ [NL]) (map user_line calls))]"

lemma record_first:
  assumes "plain_host h dir prog"
  shows "\<exists>st. record_call h c api_start = Some st \<and> recorded h dir [c] st"
  using prepare_plain [OF assms, of api_start] assms
  by (cases c) (auto simp: record_call_def mf_user_metric_with_timestamp_def prepared_def append_line_def api_start_def
      recorded_def plain_host_def data_dir_def user_line_def)

lemma record_next:
  assumes "plain_host h dir prog" "recorded h dir calls st"
  shows "\<exists>st'. record_call h c st = Some st' \<and> recorded h dir (calls @ [c]) st'"
  using assms
  by (cases c) (auto simp: record_call_def mf_user_metric_with_timestamp_def prepared_def append_line_def
      recorded_def plain_host_def data_dir_def user_line_def)

lemma record_more:
  assumes "plain_host h dir prog" "recorded h dir calls st"
  shows "\<exists>st'. foldM (record_call h) cs st = Some st' \<and> recorded h dir (calls @ cs) st'"
  using assms(2)
proof (induction cs arbitrary: calls st)
  case (Cons c cs)
  obtain st1 where "record_call h c st = Some st1" "recorded h dir (calls @ [c]) st1"
    using record_next [OF assms(1) Cons.prems] by blast
  then show ?case using Cons.IH [of "calls @ [c]" st1] by simp
qed simp

lemma record_all:
  assumes "plain_host h dir prog" "calls \<noteq> []"
  shows "\<exists>st. foldM (record_call h) calls api_start = Some st \<and> recorded h dir calls st"
proof -
  obtain c cs where c: "calls = c # cs" using assms(2) by (cases calls) auto
  obtain st1 where "record_call h c api_start = Some st1" "recorded h dir [c] st1" using record_first [OF assms(1)] by blast
  then show ?thesis using record_more [OF assms(1), of "[c]" st1 cs] c by simp
qed

lemma length_static_fields: "length (static_fields ids e d) = length (static_fields ids e []) + length d"
  by (simp add: static_fields_def quoted_def)

text \<open>A data directory with one file besides \<open>.\<close> and \<open>..\<close>: exactly its lines are posted.\<close>

lemma mf_send_one_file:
  assumes "store st = [DataPath st @ ''/'' @ f \<mapsto> concat (map (\<lambda>l. l @ [NL]) ls)]" "logFile st = Open_log"
    "2 \<le> length f" "f \<noteq> ''..''" "length (DataPath st @ ''/'' @ f) < 256"
    "dir_entries h (DataPath st) = Some names" "distinct names" "set names = {''.'', ''..'', f}"
    "good_net net" "server \<noteq> []" "headers p = hs" "hs \<noteq> []"
    "length (experiment_text ids) < 256" "length (server @ ''/v1/phantom_mf/experiments/'' @ application_id ids) < 256"
    "snd (reply net (length (sent p)) (experiment_post server ids hs)) = [e]" "e \<noteq> []" "NUL \<notin> set e"
    "length (server @ ''/v1/phantom_mf/metrics'') < 256" "length (static_fields ids e f) < 256"
    "lines_fit (static_fields ids e f) ls"
  shows "\<exists>st'. mf_send h net server ids st p = Some (Some e, st', p\<lparr>sent := sent p @ experiment_post server ids hs #
    posts (server @ ''/v1/phantom_mf/metrics'') (static_fields ids e f) ls hs\<rparr>)"
proof -
  have f: "f \<noteq> ''.''" using assms(3) by auto
  define lines where "lines d = (if d = f then ls else [])" for d :: cstr
  have ok: "\<forall>d \<in> set names. entry_ok st ids e lines d"
  proof
    fix d assume "d \<in> set names"
    then have d: "d \<in> {''.'', ''..'', f}" using assms(8) by blast
    have "length (static_fields ids e d) < 256"
      using d assms(3,19) length_static_fields [of ids e f] length_static_fields [of ids e d] by auto
    moreover have "length (DataPath st @ ''/'' @ d) < 256" using d assms(3,5) by auto
    moreover have "file_lines st lines d" using d f assms(1,4) by (auto simp: file_lines_def fopen_read_def lines_def)
    moreover have "lines_fit (static_fields ids e d) (lines d)" using assms(20) by (auto simp: lines_def lines_fit_def)
    ultimately show "entry_ok st ids e lines d" by (simp add: entry_ok_def)
  qed
  let ?u = "server @ ''/v1/phantom_mf/metrics''"
  have c: "concat (map (\<lambda>d. posts ?u (static_fields ids e d) (lines d) hs) names) = posts ?u (static_fields ids e f) ls hs"
  proof -
    obtain xs ys where n: "names = xs @ f # ys" using assms(8) by (metis insertCI split_list)
    then have none: "\<forall>d \<in> set xs. lines d = []" "\<forall>d \<in> set ys. lines d = []" using assms(7) by (auto simp: lines_def)
    have e: "concat (map (\<lambda>d. posts ?u (static_fields ids e d) (lines d) hs) zs) = []" if "\<forall>d \<in> set zs. lines d = []" for zs
      using that by (simp only: concat_eq_Nil_conv) auto
    have "lines f = ls" by (simp add: lines_def)
    then show ?thesis unfolding n map_append list.map concat_append concat.simps e [OF none(1)] e [OF none(2)] by simp
  qed
  have "\<exists>st'. mf_send h net server ids st p = Some (Some e, st', p\<lparr>sent := sent p @ experiment_post server ids hs #
      concat (map (\<lambda>d. posts ?u (static_fields ids e d) (lines d) hs) names)\<rparr>)"
    using mf_send_good [OF assms(9-12,2,13-18,6,7) ok] by blast
  then show ?thesis unfolding c .
qed

text \<open>
  C8. From a fresh process: the metrics an application records with
  \<open>mf_user_metric_with_timestamp\<close>, in any number of calls, arrive at the server with
  \<open>mf_send\<close>, each once, in the order of the calls, as the objects
  \<open>{ids, "local_timestamp":"<stamp>", "<name>":<value>}\<close> in JSON arrays of at most ten.
\<close>

theorem user_metrics_sent:
  assumes "plain_host h dir prog" "calls \<noteq> []"
    "dir_entries h (data_dir h dir) = Some names" "distinct names" "set names = {''.'', ''..'', ''user_defined''}"
    "good_net net" "server \<noteq> []" "headers p = hs" "hs \<noteq> []"
    "length (experiment_text ids) < 256" "length (server @ ''/v1/phantom_mf/experiments/'' @ application_id ids) < 256"
    "snd (reply net (length (sent p)) (experiment_post server ids hs)) = [e]" "e \<noteq> []" "NUL \<notin> set e"
    "length (server @ ''/v1/phantom_mf/metrics'') < 256" "length (static_fields ids e ''user_defined'') < 256"
    "lines_fit (static_fields ids e ''user_defined'') (map user_line calls)"
  shows "\<exists>st st'. foldM (record_call h) calls api_start = Some st \<and>
    mf_send h net server ids st p = Some (Some e, st', p\<lparr>sent := sent p @ experiment_post server ids hs #
      posts (server @ ''/v1/phantom_mf/metrics'') (static_fields ids e ''user_defined'') (map user_line calls) hs\<rparr>)"
proof -
  obtain st where st: "foldM (record_call h) calls api_start = Some st" "recorded h dir calls st"
    using record_all [OF assms(1,2)] by blast
  then have d: "DataPath st = data_dir h dir" "logFile st = Open_log"
    "store st = [DataPath st @ ''/'' @ ''user_defined'' \<mapsto> concat (map (\<lambda>l. l @ [NL]) (map user_line calls))]"
    by (simp_all add: recorded_def)
  have "length (DataPath st @ ''/'' @ ''user_defined'') < 256" "dir_entries h (DataPath st) = Some names"
    using assms(1,3) d(1) by (simp_all add: plain_host_def data_dir_def)
  then have "\<exists>st'. mf_send h net server ids st p = Some (Some e, st', p\<lparr>sent := sent p @ experiment_post server ids hs #
      posts (server @ ''/v1/phantom_mf/metrics'') (static_fields ids e ''user_defined'') (map user_line calls) hs\<rparr>)"
    by (intro mf_send_one_file [OF d(3,2) _ _ _ _ assms(4-17)]) simp_all
  then show ?thesis using st(1) by blast
qed


subsection \<open>Sending twice, ending twice\<close>

lemma send_entry_log: "send_entry net u ids e d (st, p) = Some (st', p') \<Longrightarrow> logFile st' = logFile st"
  by (auto simp: send_entry_def Option.bind_eq_Some_conv)

lemma send_entries_log: "foldM (send_entry net u ids e) names (st, p) = Some (st', p') \<Longrightarrow> logFile st' = logFile st"
proof (induction names arbitrary: st p)
  case (Cons d ds)
  then obtain st1 p1 where "send_entry net u ids e d (st, p) = Some (st1, p1)"
    "foldM (send_entry net u ids e) ds (st1, p1) = Some (st', p')" by (auto simp: Option.bind_eq_Some_conv)
  with Cons.IH send_entry_log show ?case by metis
qed simp

lemma mf_send_log:
  assumes "mf_send h net server ids st p = Some (Some e, st', p')"
  shows "logFile st = Open_log \<and> logFile st' = Closed_log"
proof -
  obtain msg URL rc block p1 where c: "create_new_experiment net (Some URL) (Some msg) (Live []) p = Some (rc, block, p1)"
    and "(case block of Dangling \<Rightarrow> None
     | Live experiment_id \<Rightarrow>
         if experiment_id = [] then Some (None, st, p1)
         else do {
           metric_URL \<leftarrow> c_store 256 (server @ ''/v1/phantom_mf/metrics'');
           case dir_entries h (DataPath st) of None \<Rightarrow> Some (None, st, p1)
           | Some names \<Rightarrow> do {
               (st', p2) \<leftarrow> foldM (send_entry net metric_URL ids experiment_id) names (st, p1);
               if logFile st' = Open_log then Some (Some experiment_id, st'\<lparr>logFile := Closed_log\<rparr>, p2) else None
             }
         }) = Some (Some e, st', p')"
    using assms unfolding mf_send_def by (simp only: Option.bind_eq_Some_conv split_paired_Ex prod.case) blast
  then obtain x u where "(case dir_entries h (DataPath st) of None \<Rightarrow> Some (None, st, p1)
           | Some names \<Rightarrow> do {
               (st', p2) \<leftarrow> foldM (send_entry net u ids x) names (st, p1);
               if logFile st' = Open_log then Some (Some x, st'\<lparr>logFile := Closed_log\<rparr>, p2) else None
             }) = Some (Some e, st', p')"
    by (cases block) (auto simp: Option.bind_eq_Some_conv split: if_split_asm)
  then obtain names st1 p2 where "foldM (send_entry net u ids x) names (st, p1) = Some (st1, p2)"
    "logFile st1 = Open_log" "st' = st1\<lparr>logFile := Closed_log\<rparr>"
    by (cases "dir_entries h (DataPath st)") (auto simp: Option.bind_eq_Some_conv split: if_split_asm)
  then show ?thesis using send_entries_log by fastforce
qed

text \<open>
  C37. \<open>mf_send\<close> succeeds at most once after a start: it closes the log stream and keeps the
  pointer, so whatever the server, the ids and the files of a second call are, that call never
  returns an experiment id; it closes the stream again, which is undefined, unless it gives up
  before.
\<close>

theorem second_send_never_succeeds:
  assumes "mf_send h net server ids st p = Some (Some e, st', p')"
  shows "mf_send h2 net2 server2 ids2 st' p2 \<noteq> Some (Some e2, st2, p3)"
  using mf_send_log [OF assms] mf_send_log [of h2 net2 server2 ids2 st' p2 e2 st2 p3] by auto

lemma create_threads_length:
  "create_threads creates m ts started = Some (ok, started') \<Longrightarrow>
     (ok \<longrightarrow> length started' = length started + length ts \<and> set ts \<subseteq> {0..<MAX_NUM_METRICS}) \<and>
     (\<not> ok \<longrightarrow> length started' < length started + length ts)"
  by (induction creates m ts started rule: create_threads.induct) (auto split: if_split_asm)

lemma get_config_frame:
  "get_config_parameters net server pid st p = Some (rc, st', p') \<Longrightarrow>
     live_threads st' = live_threads st \<and> DataPath st' = DataPath st"
  by (auto simp: get_config_parameters_def Option.bind_eq_Some_conv split: if_split_asm block.split_asm)

lemma prepare_frame:
  "api_prepare h st = Some (Return st') \<Longrightarrow> live_threads st' = live_threads st \<and> DataPath st' \<noteq> []"
  by (auto simp: api_prepare_def Option.bind_eq_Some_conv Let_def c_store_Some split: option.split_asm)

lemma mf_start_facts:
  assumes "mf_start h net creates server platform_id m st p = Some (Return (path, started, st', p'))" "live_threads st = {}"
  shows "(path \<noteq> None \<longrightarrow> num_threads st' = num_metrics m \<and> length started = num_metrics m \<and> num_metrics m \<le> MAX_NUM_METRICS \<and>
      api_running st' \<and> path = Some (DataPath st')) \<and>
    live_threads st' = {0..<length started} \<and> (path = None \<and> started \<noteq> [] \<longrightarrow> length started < num_threads st')"
proof -
  obtain st1 rc st2 p2 where 1: "api_prepare h st = Some (Return st1)"
    and 2: "get_config_parameters net server platform_id st1 p = Some (rc, st2, p2)"
    using assms(1) by (auto simp: mf_start_def Option.bind_eq_Some_conv split: option.split_asm call.split_asm)
  have l: "live_threads st2 = {}" using get_config_frame [OF 2] prepare_frame [OF 1] assms(2) by simp
  show ?thesis
  proof (cases "rc \<le> 0")
    case True
    then show ?thesis using assms(1) 1 2 l by (auto simp: mf_start_def)
  next
    case False
    then obtain ok ss where c: "create_threads creates m [0..<num_metrics m] [] = Some (ok, ss)"
      using assms(1) 1 2 by (auto simp: mf_start_def Option.bind_eq_Some_conv)
    have "num_metrics m \<le> MAX_NUM_METRICS" if ok
    proof (cases "num_metrics m")
      case (Suc n)
      then have "n \<in> set [0..<num_metrics m]" by simp
      then show ?thesis using create_threads_length [OF c] that Suc by auto
    qed simp
    then show ?thesis using assms(1) 1 2 False c l create_threads_length [OF c] by (auto simp: mf_start_def)
  qed
qed

text \<open>
  C23. The life cycle of the monitors: after a successful start there is one thread for each
  metric, and there are at most three; \<open>mf_end\<close> stops and joins them all, and calling it a
  second time joins threads that are gone, which is undefined when there was any.
\<close>

theorem start_end_lifecycle:
  assumes "mf_start h net creates server platform_id m st p = Some (Return (Some path, started, st', p'))" "live_threads st = {}"
  shows "num_metrics m \<le> 3 \<and> length started = num_metrics m \<and>
    (\<exists>st''. mf_end st' = Some st'' \<and> live_threads st'' = {} \<and> \<not> api_running st'' \<and>
      (0 < num_metrics m \<longrightarrow> mf_end st'' = None))"
  using mf_start_facts [OF assms] by (auto simp: mf_end_def Let_def MAX_NUM_METRICS_def)

text \<open>
  C36. When the creation of a thread fails after another has started, \<open>mf_start\<close> returns null
  with the number of all metrics in \<open>num_threads\<close>: \<open>mf_end\<close> then joins threads that were never
  created, so the threads that do run cannot be stopped.
\<close>

theorem failed_start_cannot_end:
  assumes "mf_start h net creates server platform_id m st p = Some (Return (None, started, st', p'))" "live_threads st = {}"
    "started \<noteq> []"
  shows "mf_end st' = None"
proof -
  have "live_threads st' = {0..<length started}" "length started < num_threads st'"
    using mf_start_facts [OF assms(1,2)] assms(3) by auto
  then have "\<not> {0..<num_threads st'} \<subseteq> live_threads st'" by auto
  then show ?thesis by (simp add: mf_end_def)
qed


subsection \<open>The configuration text of the server\<close>

text \<open>
  The answer as the code expects it, a flat object of nine quoted values. It is built from the
  pieces between its double quotes, because no name that is searched contains one.
\<close>

definition parameter_pieces :: "(nat \<Rightarrow> cstr) \<Rightarrow> nat \<Rightarrow> cstr list" where
  "parameter_pieces v i = [parameters_name ! i, '':'', v i, if i < 8 then '','' else ''}}'']"

definition config_pieces :: "(nat \<Rightarrow> cstr) \<Rightarrow> cstr list" where
  "config_pieces v = [''{'', ''parameters'', '':{''] @ concat (map (parameter_pieces v) [0..<9])"

definition config_text :: "(nat \<Rightarrow> cstr) \<Rightarrow> cstr" where
  "config_text v = join [DQ] (config_pieces v)"

definition plain_decimal :: "cstr \<Rightarrow> bool" where
  "plain_decimal s \<longleftrightarrow> s \<noteq> [] \<and> length s < 16 \<and> (\<forall>c \<in> set s. isdigit c \<or> c = CHR ''.'' \<or> c = CHR ''-'')"

lemma prefix_delimiter: "DQ \<notin> set pat \<Longrightarrow> prefix pat (s @ DQ # r) \<Longrightarrow> prefix pat s"
proof (induction pat arbitrary: s)
  case (Cons c pat)
  show ?case
  proof (cases s)
    case Nil
    then show ?thesis using Cons.prems by simp
  next
    case s: (Cons x xs)
    then have "DQ \<notin> set pat" "prefix pat (xs @ DQ # r)" "x = c" using Cons.prems by simp_all
    moreover have "prefix pat xs" by (rule Cons.IH) fact+
    ultimately show ?thesis using s by simp
  qed
qed simp

lemma strstr_skip:
  assumes "pat \<noteq> []" "DQ \<notin> set pat" "strstr s pat = None"
  shows "strstr (s @ DQ # r) pat = strstr r pat"
  using assms(3)
proof (induction s)
  case Nil
  then show ?case using assms(1,2) by (cases pat) auto
next
  case (Cons c s)
  then have "\<not> prefix pat (c # s)" "strstr s pat = None" by (auto split: if_split_asm)
  moreover have "\<not> prefix pat (c # s @ DQ # r)"
    using prefix_delimiter [OF assms(2), of "c # s" r] calculation(1) by auto
  ultimately show ?case using Cons.IH by simp
qed

lemma strstr_here: "pat \<noteq> [] \<Longrightarrow> prefix pat s \<Longrightarrow> strstr s pat = Some s"
  by (cases s) auto

lemma strstr_absent: "pat \<noteq> [] \<Longrightarrow> hd pat \<notin> set s \<Longrightarrow> strstr s pat = None"
  by (induction s) (cases pat; auto)+

lemma join_Cons_ne: "xs \<noteq> [] \<Longrightarrow> join sep (x # xs) = x @ sep @ join sep xs"
  by (cases xs) auto

lemma strstr_join:
  assumes "pat \<noteq> []" "DQ \<notin> set pat" "\<forall>s \<in> set pre. strstr s pat = None"
  shows "strstr (join [DQ] (pre @ (pat @ x) # post)) pat = Some (join [DQ] ((pat @ x) # post))"
  using assms(3)
proof (induction pre)
  case Nil
  have "prefix pat (join [DQ] ((pat @ x) # post))" by (cases post) auto
  then show ?case using strstr_here [OF assms(1)] by simp
next
  case (Cons s pre)
  then show ?case using strstr_skip [OF assms(1,2)] by (simp add: join_Cons_ne)
qed

lemma strstr_join_absent:
  assumes "pat \<noteq> []" "DQ \<notin> set pat" "segs \<noteq> []" "\<forall>s \<in> set segs. strstr s pat = None"
  shows "strstr (join [DQ] segs) pat = None"
  using assms(3,4)
proof (induction segs)
  case (Cons s segs)
  then show ?case using strstr_skip [OF assms(1,2)] by (cases "segs = []") (simp_all add: join_Cons_ne)
qed simp

text \<open>No name is part of an earlier name or of the other fixed pieces.\<close>

lemma names_apart:
  "list_all (\<lambda>i. list_all (\<lambda>s. strstr s (parameters_name ! i) = None)
     ([''{'', ''parameters'', '':{'', '':'', '',''] @ take i parameters_name)) [0..<9]"
  by code_simp

lemma names_shape: "list_all (\<lambda>n. n \<noteq> [] \<and> DQ \<notin> set n \<and> hd n \<in> set ''MLE'' \<and> CHR '','' \<notin> set n \<and> CHR ''}'' \<notin> set n) parameters_name"
  by code_simp

lemma length_names: "length parameters_name = 9" by code_simp

lemma name_facts:
  assumes "i < 9"
  shows "parameters_name ! i \<noteq> []" "DQ \<notin> set (parameters_name ! i)" "hd (parameters_name ! i) \<in> set ''MLE''"
    "CHR '','' \<notin> set (parameters_name ! i)" "CHR ''}'' \<notin> set (parameters_name ! i)"
    "\<forall>s \<in> set ([''{'', ''parameters'', '':{'', '':'', '',''] @ take i parameters_name). strstr s (parameters_name ! i) = None"
proof -
  have "parameters_name ! i \<in> set parameters_name" using assms length_names by simp
  then show "parameters_name ! i \<noteq> []" "DQ \<notin> set (parameters_name ! i)" "hd (parameters_name ! i) \<in> set ''MLE''"
    "CHR '','' \<notin> set (parameters_name ! i)" "CHR ''}'' \<notin> set (parameters_name ! i)"
    using names_shape unfolding list_all_iff by blast+
  have "i \<in> set [0..<9]" using assms by simp
  then show "\<forall>s \<in> set ([''{'', ''parameters'', '':{'', '':'', '',''] @ take i parameters_name). strstr s (parameters_name ! i) = None"
    using names_apart unfolding list_all_iff by blast
qed

lemma plain_decimal_chars:
  assumes "plain_decimal s"
  shows "CHR '','' \<notin> set s" "CHR ''}'' \<notin> set s" "DQ \<notin> set s" "c \<in> set ''MLE'' \<Longrightarrow> c \<notin> set s"
  using assms by (auto simp: plain_decimal_def isdigit_def)

definition earlier_pieces :: "(nat \<Rightarrow> cstr) \<Rightarrow> nat \<Rightarrow> cstr list" where
  "earlier_pieces v i = [''{'', ''parameters'', '':{''] @ concat (map (parameter_pieces v) [0..<i])"

lemma config_pieces_at:
  assumes "i < 9"
  shows "config_pieces v = earlier_pieces v i @ parameter_pieces v i @ concat (map (parameter_pieces v) [Suc i..<9])"
proof -
  have "[0..<9] = [0..<i] @ i # [Suc i..<9]"
    using assms upt_add_eq_append [of 0 i "9 - i"] upt_conv_Cons [OF assms] by simp
  then show ?thesis by (simp add: config_pieces_def earlier_pieces_def)
qed

lemma earlier_absent:
  assumes "i < 9" "\<forall>j < 9. plain_decimal (v j)" "s \<in> set (earlier_pieces v i)"
  shows "strstr s (parameters_name ! i) = None"
proof -
  have n: "parameters_name ! j \<in> set (take i parameters_name)" if "j < i" for j
    using that assms(1) length_names by (metis in_set_conv_nth length_take min.absorb4 nth_take min.strict_order_iff less_trans)
  consider "s \<in> set [''{'', ''parameters'', '':{'']" | j where "j < i" "s \<in> set (parameter_pieces v j)"
    using assms(3) by (auto simp: earlier_pieces_def)
  then have "s \<in> set ([''{'', ''parameters'', '':{'', '':'', '',''] @ take i parameters_name) \<or> (\<exists>j < 9. s = v j)"
  proof cases
    case (2 j)
    then consider "s = parameters_name ! j" | "s = '':''" | "s = v j" | "s = '',''"
      using assms(1) by (auto simp: parameter_pieces_def)
    then show ?thesis
    proof cases
      case 1
      then show ?thesis using n [OF 2(1)] by simp
    next
      case 3
      then show ?thesis using 2(1) assms(1) by (intro disjI2 exI [of _ j]) simp
    qed simp_all
  qed auto
  then show ?thesis
  proof
    assume "\<exists>j < 9. s = v j"
    then have "plain_decimal s" using assms(2) by blast
    then have "hd (parameters_name ! i) \<notin> set s" using plain_decimal_chars(4) name_facts(3) [OF assms(1)] by blast
    then show ?thesis by (rule strstr_absent [OF name_facts(1) [OF assms(1)]])
  qed (use name_facts(6) [OF assms(1)] in blast)
qed

lemma parameter_found:
  assumes "i < 9" "\<forall>j < 9. plain_decimal (v j)"
  shows "strstr (config_text v) (parameters_name ! i) =
    Some (join [DQ] (parameter_pieces v i @ concat (map (parameter_pieces v) [Suc i..<9])))"
proof -
  have p: "parameter_pieces v i = (parameters_name ! i @ []) # [ '':'', v i, if i < 8 then '','' else ''}}'']"
    by (simp add: parameter_pieces_def)
  show ?thesis unfolding config_text_def config_pieces_at [OF assms(1)] p
    using strstr_join [OF name_facts(1,2) [OF assms(1)], of "earlier_pieces v i" "[]"] earlier_absent [OF assms] by simp
qed

lemma parameter_text_found:
  assumes "i < 9" "\<forall>j < 9. plain_decimal (v j)"
  shows "parameter_text (parameters_name ! i) (join [DQ] (parameter_pieces v i @ concat (map (parameter_pieces v) [Suc i..<9]))) =
    Some (Some (v i))"
proof -
  let ?n = "parameters_name ! i" and ?post = "concat (map (parameter_pieces v) [Suc i..<9])"
  let ?b = "join [DQ] (parameter_pieces v i @ ?post)"
  have v: "plain_decimal (v i)" using assms by blast
  obtain r where r: "?b = ?n @ [DQ] @ '':'' @ [DQ] @ v i @ [DQ] @ r" "(case strstr ?b '','' of None \<Rightarrow> strstr ?b ''}'' | Some e \<Rightarrow> Some e) = Some r"
  proof (cases "i < 8")
    case True
    have p: "parameter_pieces v i @ ?post = [?n, '':'', v i] @ ('','' @ []) # ?post" using True by (simp add: parameter_pieces_def)
    have "\<forall>s \<in> set [?n, '':'', v i]. strstr s '','' = None"
      using name_facts(4) [OF assms(1)] plain_decimal_chars(1) [OF v] by (auto intro!: strstr_absent)
    then have "strstr ?b '','' = Some (join [DQ] (('','' @ []) # ?post))" unfolding p by (intro strstr_join) simp_all
    then show ?thesis using that [of "join [DQ] (('','' @ []) # ?post)"] unfolding p by (simp add: join_Cons_ne)
  next
    case False
    then have i: "i = 8" using assms(1) by simp
    have p: "parameter_pieces v i @ ?post = [?n, '':'', v i] @ (''}'' @ ''}'') # []" by (simp add: i parameter_pieces_def)
    have "\<forall>s \<in> set ([?n, '':'', v i] @ [''}'' @ ''}'']). strstr s '','' = None"
      using name_facts(4) [OF assms(1)] plain_decimal_chars(1) [OF v] by (auto intro!: strstr_absent)
    then have c: "strstr ?b '','' = None" unfolding p by (intro strstr_join_absent) simp_all
    have "\<forall>s \<in> set [?n, '':'', v i]. strstr s ''}'' = None"
      using name_facts(5) [OF assms(1)] plain_decimal_chars(2) [OF v] by (auto intro!: strstr_absent)
    then have "strstr ?b ''}'' = Some (join [DQ] ((''}'' @ ''}'') # []))" unfolding p by (intro strstr_join) simp_all
    then show ?thesis using that [of "''}}''"] c unfolding p by simp
  qed
  have "int (length ?b) - int (length r) - 4 - int (length ?n) = int (length (v i))" unfolding r(1) by simp
  moreover have "take (length (v i)) (drop (3 + length ?n) ?b) = v i" unfolding r(1) by simp
  ultimately show ?thesis using r(2) v by (simp add: parameter_text_def plain_decimal_def Let_def)
qed

lemma scan_sign_rest: "snd (scan_sign s) = s \<or> snd (scan_sign s) = tl s"
proof (cases s)
  case (Cons c t)
  consider "c = CHR ''-''" | "c = CHR ''+''" | "c \<noteq> CHR ''-''" "c \<noteq> CHR ''+''" by blast
  then show ?thesis unfolding Cons by cases (simp_all add: scan_sign_def split: char.split bool.split)
qed (simp add: scan_sign_def)

lemma plain_decimal_atof:
  assumes "plain_decimal s"
  shows "\<exists>x. atof s = Some x"
proof -
  obtain neg t where t: "scan_sign (dropWhile isspace s) = (neg, t)" by fastforce
  then have "set t \<subseteq> set s"
    using scan_sign_rest [of "dropWhile isspace s"] set_dropWhileD [of _ isspace s] by (metis (no_types, lifting) list.sel(2) list.set_sel(2) snd_conv subsetI)
  then have c: "\<forall>c \<in> set t. isdigit c \<or> c = CHR ''.'' \<or> c = CHR ''-''" using assms by (auto simp: plain_decimal_def)
  have no: "\<not> (isdigit d \<or> d = CHR ''.'' \<or> d = CHR ''-'')" if "d \<in> set ''iInNxX''" for d
    using that by (auto simp: isdigit_def)
  have "\<not> other_number t"
  proof (cases t)
    case (Cons d u)
    have "d \<notin> set ''iInN''" using c no [of d] unfolding Cons by auto
    moreover have "hd u \<notin> set ''xX''" if "u \<noteq> []" using c no [of "hd u"] that unfolding Cons by (cases u) auto
    ultimately show ?thesis unfolding Cons other_number_def by (simp only: list.case) blast
  qed (simp add: other_number_def)
  then show ?thesis using t by (simp add: atof_def)
qed

lemma read_parameters_all:
  assumes "\<forall>i \<in> set is. \<exists>b x. strstr response (parameters_name ! i) = Some b \<and>
    parameter_text (parameters_name ! i) b = Some (Some (v i)) \<and> atof (v i) = Some x"
  shows "read_parameters response is pv =
    Some (True, \<lambda>i. if i \<in> set is then fp_conv binary32 (the (atof (v i))) else pv i)"
  using assms
proof (induction "is" arbitrary: pv)
  case (Cons i js)
  then obtain b x where "strstr response (parameters_name ! i) = Some b"
    "parameter_text (parameters_name ! i) b = Some (Some (v i))" "atof (v i) = Some x" by auto
  then show ?case using Cons by (auto simp: fun_eq_iff)
qed simp


lemma join_avoids: "c \<notin> set sep \<Longrightarrow> \<forall>x \<in> set xs. c \<notin> set x \<Longrightarrow> c \<notin> set (join sep xs)"
  by (induction sep xs rule: join.induct) auto

lemma config_text_string:
  assumes "\<forall>j < 9. plain_decimal (v j)"
  shows "c_string (config_text v) = config_text v"
proof (rule c_string_id)
  have n: "list_all (\<lambda>i. NUL \<notin> set (parameters_name ! i)) [0..<9]" by code_simp
  have "NUL \<notin> set s" if "s \<in> set (config_pieces v)" for s
  proof -
    have "s \<in> set [''{'', ''parameters'', '':{'', '':'', '','', ''}}''] \<or> (\<exists>j < 9. s = parameters_name ! j) \<or> (\<exists>j < 9. s = v j)"
    proof -
      from that have "s \<in> set [''{'', ''parameters'', '':{''] \<or> (\<exists>j < 9. s \<in> set (parameter_pieces v j))"
        unfolding config_pieces_def by auto
      moreover have "s = parameters_name ! j \<or> s = '':'' \<or> s = v j \<or> s = '','' \<or> s = ''}}''"
        if "s \<in> set (parameter_pieces v j)" for j using that by (simp add: parameter_pieces_def) argo
      ultimately show ?thesis by (simp only: list.set insert_iff) blast
    qed
    then consider "s \<in> set [''{'', ''parameters'', '':{'', '':'', '','', ''}}'']" | j where "j < 9" "s = parameters_name ! j" | j where "j < 9" "s = v j"
      by blast
    then show ?thesis
    proof cases
      case 2
      then show ?thesis using n by (simp add: list_all_iff)
    next
      case 3
      have "\<not> isdigit NUL" by (simp add: isdigit_def)
      moreover have "\<forall>c \<in> set s. isdigit c \<or> c = CHR ''.'' \<or> c = CHR ''-''" using 3 assms by (simp add: plain_decimal_def)
      ultimately show ?thesis by auto
    qed auto
  qed
  then show "NUL \<notin> set (config_text v)" unfolding config_text_def by (intro join_avoids) simp_all
qed

definition config_query :: "cstr \<Rightarrow> cstr \<Rightarrow> cstr list \<Rightarrow> request" where
  "config_query server pid hs = \<lparr>meth = GET, url = server @ ''/v1/phantom_rm/configs/'' @ pid, body = [], hdrs = hs\<rparr>"

lemma config_read:
  assumes "good_net net" "server \<noteq> []" "length (server @ ''/v1/phantom_rm/configs/'' @ pid) < 256" "headers p = hs" "hs \<noteq> []"
    "snd (reply net (length (sent p)) (config_query server pid hs)) = [config_text v]" "\<forall>j < 9. plain_decimal (v j)"
  shows "get_config_parameters net server pid st p = Some (1,
      st\<lparr>parameters_value := (\<lambda>i. if i < 9 then fp_conv binary32 (the (atof (v i))) else parameters_value st i)\<rparr>,
      p\<lparr>sent := sent p @ [config_query server pid hs]\<rparr>)"
proof -
  have q: "query_json net (Some (server @ ''/v1/phantom_rm/configs/'' @ pid)) (Live []) p =
      Some (1, Live (config_text v), p\<lparr>sent := sent p @ [config_query server pid hs]\<rparr>)"
    using assms(1,2,4-6) config_text_string [OF assms(7)]
    by (simp add: query_json_def check_URL_def prepare_query_def good_net_def curl_easy_perform_reading_def
        config_query_def Let_def split_def deliver_in_place)
  have "config_pieces v = [''{''] @ (''parameters'' @ []) # '':{'' # concat (map (parameter_pieces v) [0..<9])"
    by (simp add: config_pieces_def)
  moreover have "\<forall>s \<in> set [''{'']. strstr s ''parameters'' = None" by code_simp
  ultimately have "strstr (config_text v) ''parameters'' \<noteq> None"
    unfolding config_text_def using strstr_join [of "''parameters''" "[''{'']" "[]"] by simp
  moreover have "\<forall>i \<in> set [0..<9]. \<exists>b x. strstr (config_text v) (parameters_name ! i) = Some b \<and>
      parameter_text (parameters_name ! i) b = Some (Some (v i)) \<and> atof (v i) = Some x"
    using parameter_found [OF _ assms(7)] parameter_text_found [OF _ assms(7)] plain_decimal_atof assms(7) by fastforce
  then have "read_parameters (config_text v) [0..<9] (parameters_value st) =
      Some (True, \<lambda>i. if i < 9 then fp_conv binary32 (the (atof (v i))) else parameters_value st i)"
    using read_parameters_all [of "[0..<9]" "config_text v" v "parameters_value st"] by simp
  ultimately show ?thesis using assms(3) q by (simp add: get_config_parameters_def)
qed

text \<open>
  C14. The nine energy parameters survive the trip from the server: when its answer is the
  object of the nine names with quoted plain decimals of fewer than sixteen characters, in the
  order of the code, the query succeeds and every parameter is the number its text denotes, in
  single precision.
\<close>

theorem config_parameters_roundtrip:
  assumes "good_net net" "server \<noteq> []" "length (server @ ''/v1/phantom_rm/configs/'' @ pid) < 256" "headers p = hs" "hs \<noteq> []"
    "snd (reply net (length (sent p)) (config_query server pid hs)) = [config_text v]" "\<forall>j < 9. plain_decimal (v j)"
  shows "\<exists>st' p'. get_config_parameters net server pid st p = Some (1, st', p') \<and>
    (\<forall>i < 9. parameters_value st' i = fp_conv binary32 (the (atof (v i)))) \<and> DataPath st' = DataPath st"
  using config_read [OF assms, of st] by simp

subsection \<open>Concrete runs\<close>

definition sample_server :: net where
  "sample_server = \<lparr>curl_ok = True, reply = (\<lambda>_ r. (True, if meth r = GET then [config_text (\<lambda>_. ''2.5'')] else [''id1''])),
     realloc_at = (\<lambda>_. InPlace)\<rparr>"

definition sample_host :: host where
  "sample_host = \<lparr>host_pid = 5, exe_link = Some ''/d/p'', can_create = (\<lambda>_. True),
     dir_entries = (\<lambda>_. Some [''..'', ''user_defined'', ''.'']), clock = \<lparr>sec = 7, nsec = 0\<rparr>\<rparr>"

definition sample_ids :: send_ids where
  "sample_ids = \<lparr>application_id = ''a'', component_id = ''c'', platform = ''h''\<rparr>"

definition fresh_pub :: pub where "fresh_pub = \<lparr>headers = [''x''], sent = []\<rparr>"

lemma sample_server_good: "good_net sample_server" by (simp add: good_net_def sample_server_def)

lemma sample_host_plain: "plain_host sample_host ''/d'' ''p''"
proof -
  have "show_int 5 = ''5''" by code_simp
  then show ?thesis by (simp add: plain_host_def sample_host_def)
qed

lemma sample_decimals: "\<forall>j < 9. plain_decimal ((\<lambda>_. ''2.5'') j)"
  by (simp add: plain_decimal_def isdigit_def)

lemma sample_query: "snd (reply sample_server (length (sent p)) (config_query s i hs)) = [config_text (\<lambda>_. ''2.5'')]"
  by (simp add: sample_server_def config_query_def)

theorem config_parameters_roundtrip_witness:
  "\<exists>st' p'. get_config_parameters sample_server ''s'' ''h'' api_start fresh_pub = Some (1, st', p') \<and>
     parameters_value st' 3 = fp_conv binary32 (the (atof ''2.5''))"
proof -
  have "\<exists>st' p'. get_config_parameters sample_server ''s'' ''h'' api_start fresh_pub = Some (1, st', p') \<and>
    (\<forall>i < 9. parameters_value st' i = fp_conv binary32 (the (atof ((\<lambda>_. ''2.5'') i)))) \<and> DataPath st' = DataPath api_start"
    by (rule config_parameters_roundtrip [OF sample_server_good _ _ _ _ sample_query sample_decimals, where hs = "[''x'']"])
      (simp_all add: fresh_pub_def)
  then show ?thesis by auto
qed

definition sample_call :: "cstr \<times> cstr \<times> cstr" where "sample_call = (''1'', ''m'', ''2'')"

lemma sample_line: "user_line sample_call = quoted ''local_timestamp'' @ '':'' @ quoted ''1'' @ '', '' @ quoted ''m'' @ '':2''"
  by (simp add: user_line_def sample_call_def user_text_def)

lemma sample_fits: "lines_fit (static_fields sample_ids ''id1'' ''user_defined'') (map user_line [sample_call])"
proof -
  have "blocks 10 [user_line sample_call] = [[user_line sample_call]]" by (intro blocks_short) simp_all
  then show ?thesis
    by (simp add: lines_fit_def sample_line data_line_def quoted_def batch_text_def record_text_def static_fields_def
        sample_ids_def MESSAGE_CAP_def)
qed

lemmas sample_sizes = sample_ids_def static_fields_def experiment_text_def quoted_def

theorem user_metrics_sent_witness:
  "\<exists>st st'. foldM (record_call sample_host) [sample_call] api_start = Some st \<and>
    mf_send sample_host sample_server ''s'' sample_ids st fresh_pub = Some (Some ''id1'', st', fresh_pub\<lparr>sent :=
      experiment_post ''s'' sample_ids [''x''] #
      posts (''s'' @ ''/v1/phantom_mf/metrics'') (static_fields sample_ids ''id1'' ''user_defined'') [user_line sample_call] [''x'']\<rparr>)"
proof -
  have "snd (reply sample_server (length (sent fresh_pub)) (experiment_post ''s'' sample_ids [''x''])) = [''id1'']"
    by (simp add: sample_server_def experiment_post_def)
  from user_metrics_sent [OF sample_host_plain _ _ _ _ sample_server_good _ _ _ _ _ this _ _ _ _ sample_fits,
      of "[''..'', ''user_defined'', ''.'']"]
  show ?thesis by (auto simp: sample_sizes fresh_pub_def sample_host_def insert_commute)
qed


definition sample_dir_host :: host where
  "sample_dir_host = sample_host\<lparr>dir_entries := (\<lambda>_. Some [''.'', ''disk''])\<rparr>"

definition sample_state :: api where
  "sample_state = api_start\<lparr>DataPath := ''/d/5'', logFile := Open_log, store := [''/d/5/disk'' \<mapsto> user_line sample_call @ [NL]]\<rparr>"

definition sample_lines :: "cstr \<Rightarrow> cstr list" where
  "sample_lines d = (if d = ''disk'' then [user_line sample_call] else [])"

lemma sample_entries: "\<forall>d \<in> set [''.'', ''disk'']. entry_ok sample_state sample_ids ''id1'' sample_lines d"
proof -
  have "blocks 10 [user_line sample_call] = [[user_line sample_call]]" by (intro blocks_short) simp_all
  then have "lines_fit (static_fields sample_ids ''id1'' ''disk'') [user_line sample_call]"
    by (simp add: lines_fit_def sample_line data_line_def quoted_def batch_text_def record_text_def static_fields_def
        sample_ids_def MESSAGE_CAP_def)
  moreover have "lines_fit s []" for s by (simp add: lines_fit_def)
  ultimately show ?thesis
    by (simp add: entry_ok_def sample_lines_def file_lines_def fopen_read_def sample_state_def sample_sizes)
qed

lemma sample_experiment: "snd (reply sample_server n (experiment_post s ids hs)) = [''id1'']"
  by (simp add: sample_server_def experiment_post_def)

theorem mf_send_posts_all_witness:
  "\<exists>st'. mf_send sample_dir_host sample_server ''s'' sample_ids sample_state fresh_pub = Some (Some ''id1'', st',
      fresh_pub\<lparr>sent := experiment_post ''s'' sample_ids [''x''] #
        posts ''s/v1/phantom_mf/metrics'' (static_fields sample_ids ''id1'' ''disk'') [user_line sample_call] [''x'']\<rparr>)"
proof -
  have "\<exists>st'. mf_send sample_dir_host sample_server ''s'' sample_ids sample_state fresh_pub = Some (Some ''id1'', st',
      fresh_pub\<lparr>sent := sent fresh_pub @ experiment_post ''s'' sample_ids [''x''] #
        concat (map (\<lambda>d. posts (''s'' @ ''/v1/phantom_mf/metrics'') (static_fields sample_ids ''id1'' d) (sample_lines d) [''x'']) [''.'', ''disk''])\<rparr>)"
    by (rule mf_send_posts_all [OF sample_server_good _ _ _ _ _ _ sample_experiment _ _ _ _ _ sample_entries])
      (simp_all add: fresh_pub_def sample_state_def sample_sizes sample_dir_host_def)
  then show ?thesis by (simp add: fresh_pub_def sample_lines_def)
qed

theorem second_send_never_succeeds_witness:
  "\<exists>st' p'. mf_send sample_dir_host sample_server ''s'' sample_ids sample_state fresh_pub = Some (Some ''id1'', st', p') \<and>
     mf_send sample_dir_host sample_server ''s'' sample_ids st' p' \<noteq> Some (Some ''id1'', st', p')"
proof -
  have "\<exists>st'. mf_send sample_dir_host sample_server ''s'' sample_ids sample_state fresh_pub = Some (Some ''id1'', st',
      fresh_pub\<lparr>sent := sent fresh_pub @ experiment_post ''s'' sample_ids [''x''] #
        concat (map (\<lambda>d. posts (''s'' @ ''/v1/phantom_mf/metrics'') (static_fields sample_ids ''id1'' d) (sample_lines d) [''x'']) [''.'', ''disk''])\<rparr>) \<and>
      logFile st' = Closed_log"
    by (rule mf_send_good [OF sample_server_good _ _ _ _ _ _ sample_experiment _ _ _ _ _ sample_entries])
      (simp_all add: fresh_pub_def sample_state_def sample_sizes sample_dir_host_def)
  then obtain st' p' where "mf_send sample_dir_host sample_server ''s'' sample_ids sample_state fresh_pub = Some (Some ''id1'', st', p')"
    by blast
  then show ?thesis using second_send_never_succeeds by blast
qed

definition sample_metrics :: metrics where
  "sample_metrics = \<lparr>sampling_interval = [1000, 1000, 1000], metrics_names = [METRIC_NAME_1, METRIC_NAME_2, METRIC_NAME_3],
     num_metrics = 2, local_data_storage = 1\<rparr>"

lemma sample_start:
  "\<exists>st' p' started. mf_start sample_host sample_server creates ''s'' ''h'' sample_metrics api_start fresh_pub =
     Some (Return (if creates 0 \<and> creates 1 then Some (DataPath st') else None, started, st', p')) \<and>
     started = (if creates 0 then (METRIC_NAME_1, 1000) # (if creates 1 then [(METRIC_NAME_2, 1000)] else []) else [])"
proof -
  have u: "[0..<2] = [0, Suc 0]" by (simp add: upt_rec)
  let ?st = "api_start\<lparr>DataPath := data_dir sample_host ''/d'', api_pid := host_pid sample_host, logFile := Open_log\<rparr>"
  obtain st2 p2 where "get_config_parameters sample_server ''s'' ''h'' ?st fresh_pub = Some (1, st2, p2)"
    using config_read [OF sample_server_good _ _ _ _ sample_query sample_decimals, of "''s''" "''h''" fresh_pub "[''x'']" ?st]
    by (simp add: fresh_pub_def)
  then show ?thesis using prepare_plain [OF sample_host_plain, of api_start]
    by (simp add: mf_start_def sample_metrics_def u MAX_NUM_METRICS_def)
qed

theorem start_end_lifecycle_witness:
  "\<exists>path started st' p'. mf_start sample_host sample_server (\<lambda>_. True) ''s'' ''h'' sample_metrics api_start fresh_pub =
       Some (Return (Some path, started, st', p')) \<and> length started = 2 \<and>
     (\<exists>st''. mf_end st' = Some st'' \<and> live_threads st'' = {} \<and> mf_end st'' = None)"
proof -
  obtain path started st' p' where s: "mf_start sample_host sample_server (\<lambda>_. True) ''s'' ''h'' sample_metrics api_start fresh_pub =
      Some (Return (Some path, started, st', p'))"
    using sample_start [of "\<lambda>_. True"] by auto
  from start_end_lifecycle [OF s] show ?thesis
    using s by (auto simp: api_start_def sample_metrics_def)
qed

theorem failed_start_cannot_end_witness:
  "\<exists>started st' p'. mf_start sample_host sample_server (\<lambda>t. t = 0) ''s'' ''h'' sample_metrics api_start fresh_pub =
     Some (Return (None, started, st', p')) \<and> started \<noteq> [] \<and> mf_end st' = None"
proof -
  obtain started st' p' where s: "mf_start sample_host sample_server (\<lambda>t. t = 0) ''s'' ''h'' sample_metrics api_start fresh_pub =
      Some (Return (None, started, st', p'))" "started \<noteq> []"
    using sample_start [of "\<lambda>t. t = 0"] by auto
  from failed_start_cannot_end [OF s(1) _ s(2)] show ?thesis
    using s by (auto simp: api_start_def)
qed

end
