(* ===== verification/Api_Pipeline.thy ===== *)
theory Api_Pipeline
  imports Mf_Api
begin

text \<open>
  The application API from end to end: what a monitor thread writes into its data file is what
  \<^verbatim>\<open>mf_send\<close> of \<^verbatim>\<open>api/src/mf_api.c\<close> posts to the server. The monitors and the sender share
  nothing but the text of the file, so the proof goes through the form of the lines: every line
  a monitor writes is a text without NUL and newline, followed by one newline.
\<close>

subsection \<open>The form of the lines\<close>

definition plain_text :: "cstr \<Rightarrow> bool" where
  "plain_text s \<longleftrightarrow> NL \<notin> set s \<and> NUL \<notin> set s"

lemma plain_text_simps [simp]:
  "plain_text []" "plain_text (c # s) \<longleftrightarrow> c \<noteq> NL \<and> c \<noteq> NUL \<and> plain_text s"
  "plain_text (s @ t) \<longleftrightarrow> plain_text s \<and> plain_text t"
  by (auto simp: plain_text_def)

lemma plain_replicate: "plain_text (replicate n CHR ''0'')"
  by (auto simp: plain_text_def)

lemma plain_show_nat [simp]: "plain_text (show_nat n)"
proof -
  have "\<not> isdigit NL" "\<not> isdigit NUL" by (simp_all add: isdigit_def)
  then show ?thesis using show_nat_digits by (fastforce simp: plain_text_def list_all_iff)
qed

lemma plain_show_fp [simp]: "plain_text (show_fp d v)"
  by (cases v) (simp_all add: show_padded_def Let_def plain_replicate)

lemma plain_quoted [simp]: "plain_text (quoted s) \<longleftrightarrow> plain_text s"
  by (simp add: quoted_def)

lemma plain_fields [simp]:
  "plain_text (stamp_text ms)" "plain_text name \<Longrightarrow> plain_text (float_text name v)"
  "plain_text name \<Longrightarrow> plain_text (count_text name w)"
  by (simp_all add: stamp_text_def float_text_def count_text_def)

definition text_line :: "cstr \<Rightarrow> bool" where
  "text_line l \<longleftrightarrow> (\<exists>b. l = b @ [NL] \<and> plain_text b)"

lemma text_lineI: "plain_text b \<Longrightarrow> text_line (b @ [NL])"
  by (auto simp: text_line_def)

lemma monitor_line_forms:
  "text_line (resources_line t s)" "text_line (disk_line si t d)" "text_line (power_line pv t0 t1 pd)"
proof -
  show "text_line (resources_line t s)"
    unfolding resources_line_def append_assoc [symmetric] by (rule text_lineI) simp
  show "text_line (disk_line si t d)"
    unfolding disk_line_def split_def append_assoc [symmetric] by (rule text_lineI) simp
  show "text_line (power_line pv t0 t1 pd)"
    unfolding power_line_def Let_def append_assoc [symmetric] by (rule text_lineI) simp
qed

subsection \<open>The loop of a monitor\<close>

text \<open>
  What the three monitors have in common: a loop over what is seen in each round, whose step
  writes some lines and either goes on with a new state or ends the call. Inside the locale: all
  lines are lines of text, and what holds of the lines of every step holds of all lines.
\<close>

locale monitor =
  fixes rounds :: "'m list \<Rightarrow> 's \<Rightarrow> (cstr list \<times> 'r) option"
    and step :: "'m \<Rightarrow> 's \<Rightarrow> (cstr list \<times> ('r + 's)) option"
    and stopped :: 'r
  assumes rounds_Nil: "rounds [] s = Some ([], stopped)"
    and rounds_Cons: "rounds (m # ms) s =
      (case step m s of None \<Rightarrow> None
       | Some (ls, Inl r) \<Rightarrow> Some (ls, r)
       | Some (ls, Inr s') \<Rightarrow> map_option (\<lambda>(ls', r). (ls @ ls', r)) (rounds ms s'))"
    and step_lines: "step m s = Some (ls, x) \<Longrightarrow> list_all text_line ls"
begin

lemma rounds_lines: "rounds ms s = Some (ls, r) \<Longrightarrow> list_all text_line ls"
proof (induction ms arbitrary: s ls r)
  case (Cons m ms)
  then show ?case using step_lines
    by (fastforce simp: rounds_Cons split: option.split_asm sum.split_asm)
qed (simp add: rounds_Nil)

lemma rounds_all:
  assumes "rounds ms s = Some (ls, r)" "\<And>m s ls x. m \<in> set ms \<Longrightarrow> step m s = Some (ls, x) \<Longrightarrow> \<forall>l \<in> set ls. P l"
  shows "\<forall>l \<in> set ls. P l"
  using assms
proof (induction ms arbitrary: s ls r)
  case (Cons m ms)
  then obtain k x where s: "step m s = Some (k, x)" by (auto simp: rounds_Cons split: option.split_asm)
  have k: "\<forall>l \<in> set k. P l" using Cons.prems(2) [OF _ s] by simp
  show ?case
  proof (cases x)
    case (Inl e)
    then show ?thesis using Cons.prems(1) s k by (simp add: rounds_Cons)
  next
    case (Inr s')
    then obtain ls' where l: "rounds ms s' = Some (ls', r)" "ls = k @ ls'" using Cons.prems(1) s by (auto simp: rounds_Cons)
    have "\<forall>l \<in> set ls'. P l" by (rule Cons.IH [OF l(1)], rule Cons.prems(2)) simp_all
    then show ?thesis using k l(2) by auto
  qed
qed (simp add: rounds_Nil)

end

text \<open>
  A monitor whose lines start with the time of their round. Then the lines of a run carry the
  times of some of its rounds, in order.
\<close>

definition stamped :: "timestamp \<Rightarrow> cstr \<Rightarrow> bool" where
  "stamped t l \<longleftrightarrow> prefix (stamp_text (milliseconds t)) l"

lemma monitor_lines_stamped:
  "stamped t (resources_line t s)" "stamped t (disk_line si t d)" "stamped t1 (power_line pv t0 t1 pd)"
  by (simp_all add: stamped_def resources_line_def disk_line_def power_line_def split_def Let_def)

locale stamped_monitor = monitor rounds step stopped
  for rounds :: "'m list \<Rightarrow> 's \<Rightarrow> (cstr list \<times> 'r) option"
    and step :: "'m \<Rightarrow> 's \<Rightarrow> (cstr list \<times> ('r + 's)) option"
    and stopped :: 'r +
  fixes stamp :: "'m \<Rightarrow> timestamp"
  assumes step_stamp: "step m s = Some (ls, x) \<Longrightarrow> ls = [] \<or> (\<exists>l. ls = [l] \<and> stamped (stamp m) l)"
begin

lemma rounds_stamps:
  "rounds ms s = Some (ls, r) \<Longrightarrow> \<exists>ts. subseq ts (map stamp ms) \<and> list_all2 stamped ts ls"
proof (induction ms arbitrary: s ls r)
  case (Cons m ms)
  then obtain k x where s: "step m s = Some (k, x)" by (auto simp: rounds_Cons split: option.split_asm)
  obtain us where us: "list_all2 stamped us k" "us = [] \<or> us = [stamp m]" using step_stamp [OF s] by auto
  show ?case
  proof (cases x)
    case (Inl e)
    then have "ls = k" using Cons.prems s by (simp add: rounds_Cons)
    then show ?thesis using us by (intro exI [of _ us]) auto
  next
    case (Inr s')
    then obtain ls' where l: "rounds ms s' = Some (ls', r)" "ls = k @ ls'" using Cons.prems s by (auto simp: rounds_Cons)
    obtain ts where "subseq ts (map stamp ms)" "list_all2 stamped ts ls'" using Cons.IH [OF l(1)] by blast
    then show ?thesis using us l(2) by (intro exI [of _ "us @ ts"]) (auto intro: list_all2_appendI)
  qed
qed (auto simp: rounds_Nil intro: exI [of _ "[]"])

end

definition resources_step :: "int \<Rightarrow> machine \<Rightarrow> resources_cpu \<Rightarrow> (cstr list \<times> (int call + resources_cpu)) option" where
  "resources_step pid m b =
     (case resources_stat_cpu m pid of None \<Rightarrow> None
      | Some (Exit e) \<Rightarrow> Some ([], Inl (Exit e))
      | Some (Return a) \<Rightarrow>
          (case resources_stat_all_and_calculate m pid b a of None \<Rightarrow> None
           | Some (Exit e) \<Rightarrow> Some ([], Inl (Exit e))
           | Some (Return (s, b')) \<Rightarrow> Some ([resources_line (realtime m) s], Inr b')))"

interpretation res: stamped_monitor "resources_rounds pid" "resources_step pid" "Return 1" realtime for pid
  by unfold_locales
    (auto simp: resources_step_def monitor_line_forms monitor_lines_stamped split: option.split call.split Option.bind_split option.split_asm call.split_asm)

definition disk_step :: "int \<Rightarrow> int \<Rightarrow> machine \<Rightarrow> disk_stats \<Rightarrow> (cstr list \<times> (unit + disk_stats)) option" where
  "disk_step pid si m st =
     map_option (\<lambda>(_, st'). ([disk_line si (realtime m) (disk_delta st')], Inr st')) (disk_stats_read m pid st)"

interpretation dsk: stamped_monitor "\<lambda>ms st. map_option (\<lambda>ls. (ls, ())) (disk_rounds pid si ms st)" "disk_step pid si" "()" realtime for pid si
  by unfold_locales
    (auto simp: disk_step_def monitor_line_forms monitor_lines_stamped option.map_comp comp_def split: Option.bind_split)

definition power_step ::
  "(nat \<Rightarrow> cfp) \<Rightarrow> int \<Rightarrow> int \<Rightarrow> timestamp \<times> monitored \<Rightarrow> pid_stats_info \<times> pid_stats_info \<Rightarrow>
   (cstr list \<times> (int call + pid_stats_info \<times> pid_stats_info)) option" where
  "power_step pv fd pid = (\<lambda>(t0, m) (b, a).
     case read_and_check pv m fd pid a of None \<Rightarrow> None
      | Some None \<Rightarrow> Some ([], Inl (Exit 0))
      | Some (Some a') \<Rightarrow>
          (case calcualte_and_update b a' of None \<Rightarrow> None
           | Some None \<Rightarrow> Some ([], Inr (b, a'))
           | Some (Some (d, b')) \<Rightarrow> Some ([power_line pv t0 (realtime (procfs m)) d], Inr (b', a'))))"

interpretation pow: stamped_monitor "\<lambda>rs (b, a). power_rounds pv fd pid rs b a" "power_step pv fd pid" "Return 1" "\<lambda>(_, m). realtime (procfs m)"
  for pv fd pid
proof
  show "(case s of (b, a) \<Rightarrow> power_rounds pv fd pid [] b a) = Some ([], Return 1)" for s by (cases s) simp
  show "(case s of (b, a) \<Rightarrow> power_rounds pv fd pid (m # ms) b a) =
      (case power_step pv fd pid m s of None \<Rightarrow> None
       | Some (ls, Inl r) \<Rightarrow> Some (ls, r)
       | Some (ls, Inr s') \<Rightarrow> map_option (\<lambda>(ls', r). (ls @ ls', r)) (case s' of (b, a) \<Rightarrow> power_rounds pv fd pid ms b a))" for m ms s
    by (cases s; cases m) (auto simp: power_step_def option.map_id split: option.split Option.bind_split)
  fix m s ls x
  assume "power_step pv fd pid m s = Some (ls, x)"
  then show "list_all text_line ls" "ls = [] \<or> (\<exists>l. ls = [l] \<and> stamped (case m of (_, m) \<Rightarrow> realtime (procfs m)) l)"
    by (cases s; cases m; auto simp: power_step_def monitor_line_forms monitor_lines_stamped split: option.split_asm)+
qed

lemmas monitor_rounds_lines = res.rounds_lines pow.rounds_lines [of _ _ _ _ "(b, a)" for b a, unfolded prod.case]

lemma disk_rounds_lines: "disk_rounds pid si ms st = Some ls \<Longrightarrow> list_all text_line ls"
  using dsk.rounds_lines [of pid si ms st ls "()"] by simp

lemma MonitorStart_lines:
  assumes "MonitorStart w st name interval = Some (ls, r)"
  shows "list_all text_line ls"
proof -
  have "list_all text_line ls" if "resources_monitor ca pid dp m0 ms = Some (ls, x)" for ca pid dp m0 ms x
    using that by (auto simp: resources_monitor_def Option.bind_eq_Some_conv intro: monitor_rounds_lines
        split: if_split_asm option.split_asm call.split_asm)
  moreover have "list_all text_line ls" if "disk_monitor ca pid dp si m0 ms = Some (ls, x)" for ca pid dp si m0 ms x
    using that by (auto simp: disk_monitor_def Option.bind_eq_Some_conv intro: disk_rounds_lines split: if_split_asm)
  moreover have "list_all text_line ls" if "power_monitor ca pv fd pid dp m0 rs = Some (ls, x)" for ca pv fd pid dp m0 rs x
    using that by (auto simp: power_monitor_def Option.bind_eq_Some_conv intro: monitor_rounds_lines
        split: if_split_asm option.split_asm)
  ultimately show ?thesis using assms
    by (auto simp: MonitorStart_def split: if_split_asm)
qed

lemma resources_stamps:
  "resources_monitor ca pid dp m0 ms = Some (ls, x) \<Longrightarrow> \<exists>ts. subseq ts (map realtime ms) \<and> list_all2 stamped ts ls"
  unfolding resources_monitor_def
  by (cases "data_file dp METRIC_NAME_1"; cases "resources_stat_cpu m0 pid")
    (auto dest: res.rounds_stamps intro: exI [of _ "[]"] split: if_split_asm call.split_asm)

lemma disk_stamps:
  assumes "disk_monitor ca pid dp si m0 ms = Some (ls, x)"
  shows "\<exists>ts. subseq ts (map realtime ms) \<and> list_all2 stamped ts ls"
proof (cases "ls = []")
  case False
  then obtain st where "disk_rounds pid si ms st = Some ls"
    using assms by (auto simp: disk_monitor_def Option.bind_eq_Some_conv split: if_split_asm)
  then show ?thesis using dsk.rounds_stamps [of pid si ms st ls "()"] by simp
qed (auto intro: exI [of _ "[]"])

lemma power_stamps:
  assumes "power_monitor ca pv fd pid dp m0 rs = Some (ls, x)"
  shows "\<exists>ts. subseq ts (map (\<lambda>(_, m). realtime (procfs m)) rs) \<and> list_all2 stamped ts ls"
proof (cases "ls = []")
  case False
  then obtain b a where "power_rounds pv fd pid rs b a = Some (ls, x)"
    using assms by (auto simp: power_monitor_def Option.bind_eq_Some_conv split: if_split_asm option.split_asm)
  then show ?thesis using pow.rounds_stamps [of pv fd pid rs "(b, a)" ls x] by simp
qed (auto intro: exI [of _ "[]"])

lemma MonitorStart_stamps:
  assumes "MonitorStart w st name interval = Some (ls, r)"
  shows "\<exists>ts. subseq ts (map (realtime \<circ> procfs \<circ> snd) (views w)) \<and> list_all2 stamped ts ls"
proof -
  have m: "map realtime (map (procfs \<circ> snd) vs) = map (realtime \<circ> procfs \<circ> snd) vs"
    "map (\<lambda>(_, m). realtime (procfs m)) vs = map (realtime \<circ> procfs \<circ> snd) vs" for vs
    by (simp_all add: comp_def split_def)
  consider "name = METRIC_NAME_1" | "name = METRIC_NAME_2" "name \<noteq> METRIC_NAME_1"
    | "name = METRIC_NAME_3" "name \<noteq> METRIC_NAME_1" "name \<noteq> METRIC_NAME_2"
    | "name \<notin> {METRIC_NAME_1, METRIC_NAME_2, METRIC_NAME_3}" by blast
  then show ?thesis
  proof cases
    case 1
    then obtain x where "resources_monitor (appendable w) (api_pid st) (DataPath st) (procfs (first_view w))
        (map (procfs \<circ> snd) (views w)) = Some (ls, x)"
      using assms by (auto simp: MonitorStart_def)
    from resources_stamps [OF this] show ?thesis by (simp only: m)
  next
    case 2
    then obtain x where "disk_monitor (appendable w) (api_pid st) (DataPath st) interval (procfs (first_view w))
        (map (procfs \<circ> snd) (views w)) = Some (ls, x)"
      using assms by (auto simp: MonitorStart_def)
    from disk_stamps [OF this] show ?thesis by (simp only: m)
  next
    case 3
    then obtain x where "power_monitor (appendable w) (parameters_value st) (perf_event w) (api_pid st) (DataPath st)
        (first_view w) (views w) = Some (ls, x)"
      using assms by (auto simp: MonitorStart_def)
    from power_stamps [OF this] show ?thesis by (simp only: m)
  next
    case 4
    then have "ls = []" using assms by (simp add: MonitorStart_def)
    then show ?thesis by (intro exI [of _ "[]"]) simp
  qed
qed

lemma sorted_wrt_subseq: "subseq xs ys \<Longrightarrow> sorted_wrt P ys \<Longrightarrow> sorted_wrt P xs"
  by (induction rule: list_emb.induct) (auto dest: list_emb_set)

text \<open>
  C40. The lines of a monitor are in the order of time: every line starts with a time stamp in
  milliseconds, and while the clock does not run backwards (between the epoch and 2038) the
  numbers printed never decrease, although they are rounded twice to double precision.
\<close>

theorem monitor_stamps_in_order:
  assumes "MonitorStart w st name interval = Some (ls, r)"
    "sorted (map (realtime \<circ> procfs \<circ> snd) (views w))" "\<forall>(_, m) \<in> set (views w). clock_sane (realtime (procfs m))"
  shows "\<exists>ts. list_all2 stamped ts ls \<and> sorted_wrt (\<lambda>t t'. fp_le (milliseconds t) (milliseconds t')) ts"
proof -
  obtain ts where ts: "subseq ts (map (realtime \<circ> procfs \<circ> snd) (views w))" "list_all2 stamped ts ls"
    using MonitorStart_stamps [OF assms(1)] by blast
  have "clock_sane t" if t: "t \<in> set ts" for t
  proof -
    obtain t' where "t' \<in> set (map (realtime \<circ> procfs \<circ> snd) (views w))" "t = t'"
      by (rule list_emb_set [OF ts(1) t])
    then obtain v where "v \<in> set (views w)" "t = realtime (procfs (snd v))" by auto
    with assms(3) show ?thesis by (cases v) auto
  qed
  then have "t \<in> set ts \<Longrightarrow> t' \<in> set ts \<Longrightarrow> t \<le> t' \<Longrightarrow> fp_le (milliseconds t) (milliseconds t')" for t t'
    by (simp add: milliseconds_mono)
  from sorted_wrt_mono_rel [OF this sorted_wrt_subseq [OF ts(1) assms(2)]]
  have "sorted_wrt (\<lambda>t t'. fp_le (milliseconds t) (milliseconds t')) ts" .
  with ts(2) show ?thesis by blast
qed

text \<open>The lines without their newlines.\<close>

lemma text_lines_split:
  "list_all text_line ls \<Longrightarrow> concat ls = concat (map (\<lambda>l. l @ [NL]) (map butlast ls)) \<and> (\<forall>b \<in> set (map butlast ls). plain_text b)"
  by (induction ls) (auto simp: text_line_def)

subsection \<open>The length of the lines\<close>

text \<open>
  A line of the disk or the resources monitor has at most 179 characters while its time stamp
  has at most 19, so ten of them fit the message buffer when what \<open>mf_send\<close> puts before each of
  them (the ids, the name of the metric and the names of these fields) has at most 136
  characters. A line of the power monitor has at most 303 characters.
\<close>

lemma length_disk_line:
  assumes "length (show_fp 1 (milliseconds t)) \<le> 19"
  shows "length (disk_line si t d) \<le> 173"
proof -
  have n: "length (show_nat (unat w)) \<le> 20" for w :: u64
  proof (rule order_trans [OF length_show_nat])
    have "unat w < 2 ^ 64" using unsigned_less [of w, where ?'a = nat] by simp
    then show "unat w < 10 ^ Suc 19" by simp
  qed simp
  have "is_float (disk_throughput si rd wr)" for rd wr by (simp add: disk_throughput_def)
  then have f: "length (show_fp 3 (disk_throughput si rd wr)) \<le> 44" for rd wr by (rule length_show_float)
  show ?thesis using assms n [of "fst d"] n [of "snd d"] f [of "fst d" "snd d"]
    by (simp add: disk_line_def split_def stamp_text_def count_text_def float_text_def quoted_def)
qed

lemma length_resources_line:
  assumes "length (show_fp 1 (milliseconds t)) \<le> 19" "length (show_fp 3 (CPU_usage_rate s)) \<le> 27"
    "length (show_fp 3 (RAM_usage_rate s)) \<le> 27" "length (show_fp 3 (swap_usage_rate s)) \<le> 27"
  shows "length (resources_line t s) \<le> 179"
  using assms by (simp add: resources_line_def stamp_text_def float_text_def quoted_def)

lemma length_cpu_rate: "length (show_fp 3 (cpu_rate b a)) \<le> 27"
proof (cases "process_CPU_time a \<le> process_CPU_time b \<or> global_CPU_time a \<le> global_CPU_time b")
  case True
  have "length (show_fp (Suc 2) (Fin False 0)) \<le> Suc 0 + Suc 2 + 2" by (rule length_show_fp) simp_all
  then show ?thesis using True by (simp add: cpu_rate_def numeral_3_eq_3)
next
  case False
  then have "cpu_rate b a = percent_of (fp_of_u64 binary64 (process_CPU_time a - process_CPU_time b))
      (fp_of_u64 binary64 (global_CPU_time a - global_CPU_time b))"
    unfolding cpu_rate_def by (rule if_not_P)
  then show ?thesis using length_show_percent by simp
qed

lemma length_rates:
  assumes "resources_stat_all_and_calculate m pid b a = Some (Return (s, b'))"
  shows "length (show_fp 3 (CPU_usage_rate s)) \<le> 27 \<and> length (show_fp 3 (RAM_usage_rate s)) \<le> 27 \<and>
    length (show_fp 3 (swap_usage_rate s)) \<le> 27"
proof -
  obtain rss swap mem total where "s = \<lparr>CPU_usage_rate = cpu_rate b a,
      RAM_usage_rate = percent_of (fp_of_u64 binary64 rss) (fp_of_u64 binary64 mem),
      swap_usage_rate = percent_of (fp_of_u64 binary64 swap) (fp_of_u64 binary64 total)\<rparr>"
    using assms by (auto simp: resources_stat_all_and_calculate_def Option.bind_eq_Some_conv split: call.split_asm)
  then show ?thesis
    by (simp only: resources_stats.select_convs length_cpu_rate length_show_percent simp_thms)
qed

lemma is_float_div: "fp_ok x \<Longrightarrow> fp_ok y \<Longrightarrow> is_float (fp_div binary32 x y)"
proof -
  have "is_float (fp_round binary32 b q)" if "0 \<le> q" for b q using is_float_conv [of "Fin b q"] that by simp
  then show "fp_ok x \<Longrightarrow> fp_ok y \<Longrightarrow> is_float (fp_div binary32 x y)"
    by (cases x; cases y) (simp_all add: is_float_def)
qed

lemma length_power_line:
  assumes "length (show_fp 1 (milliseconds t1)) \<le> 19" "\<forall>i. fp_ok (pv i)" "fp_ok (d_energy d)"
  shows "length (power_line pv t0 t1 d) \<le> 303"
proof -
  have t: "fp_ok (duration t0 t1)" by (simp add: duration_def)
  then have "is_float (sys_cpu_power d (duration t0 t1))" "is_float (pid_cpu_power d (duration t0 t1))"
    "is_float (pid_mem_power pv d (duration t0 t1))" "is_float (pid_disk_power pv d (duration t0 t1))"
    unfolding sys_cpu_power_def pid_cpu_power_def pid_mem_power_def pid_disk_power_def Let_def
    using assms(2,3) by (intro is_float_div is_float_conv; simp)+
  note f = this [THEN length_show_float]
  show ?thesis unfolding power_line_def Let_def using assms(1) f
    by (simp add: stamp_text_def float_text_def quoted_def)
qed

lemma resources_monitor_lengths:
  assumes "resources_monitor ca pid dp m0 ms = Some (ls, x)" "\<forall>m \<in> set ms. clock_sane (realtime m)"
  shows "\<forall>l \<in> set ls. length l \<le> 179"
proof (cases "ls = []")
  case False
  then obtain b where r: "resources_rounds pid ms b = Some (ls, x)"
    using assms(1) by (auto simp: resources_monitor_def Option.bind_eq_Some_conv split: if_split_asm option.split_asm call.split_asm)
  show ?thesis
  proof (rule res.rounds_all [OF r])
    fix m s ks y
    assume "m \<in> set ms" "resources_step pid m s = Some (ks, y)"
    then show "\<forall>l \<in> set ks. length l \<le> 179"
      using assms(2) length_rates length_sane_clock
      by (auto simp: resources_step_def intro!: length_resources_line split: option.split_asm call.split_asm)
  qed
qed simp

lemma disk_monitor_lengths:
  assumes "disk_monitor ca pid dp si m0 ms = Some (ls, x)" "\<forall>m \<in> set ms. clock_sane (realtime m)"
  shows "\<forall>l \<in> set ls. length l \<le> 179"
proof (cases "ls = []")
  case False
  then obtain st where "disk_rounds pid si ms st = Some ls"
    using assms(1) by (auto simp: disk_monitor_def Option.bind_eq_Some_conv split: if_split_asm)
  then have r: "map_option (\<lambda>ls. (ls, ())) (disk_rounds pid si ms st) = Some (ls, ())" by simp
  show ?thesis
  proof (rule dsk.rounds_all [OF r])
    fix m s ks y
    assume "m \<in> set ms" "disk_step pid si m s = Some (ks, y)"
    then show "\<forall>l \<in> set ks. length l \<le> 179"
      using assms(2) length_sane_clock by (auto simp: disk_step_def intro!: order_trans [OF length_disk_line])
  qed
qed simp

lemma power_monitor_lengths:
  assumes "power_monitor ca pv fd pid dp m0 rs = Some (ls, x)" "\<forall>(_, m) \<in> set rs. clock_sane (realtime (procfs m))"
    "\<forall>i. fp_ok (pv i)"
  shows "\<forall>l \<in> set ls. length l \<le> 303"
proof (cases "ls = []")
  case False
  then obtain b a where "power_rounds pv fd pid rs b a = Some (ls, x)"
    using assms(1) by (auto simp: power_monitor_def Option.bind_eq_Some_conv split: if_split_asm option.split_asm)
  then have r: "(case (b, a) of (b, a) \<Rightarrow> power_rounds pv fd pid rs b a) = Some (ls, x)" by simp
  show ?thesis
  proof (rule pow.rounds_all [OF r])
    fix m s ks y
    assume m: "m \<in> set rs" and p: "power_step pv fd pid m s = Some (ks, y)"
    obtain t1 n1 b1 a1 where "m = (t1, n1)" "s = (b1, a1)" by (cases m; cases s)
    with p consider "ks = []" | t0 n b a' d b' where "m = (t0, n)" "calcualte_and_update b a' = Some (Some (d, b'))"
        "ks = [power_line pv t0 (realtime (procfs n)) d]"
      by (auto simp: power_step_def split: option.split_asm)
    then show "\<forall>l \<in> set ks. length l \<le> 303"
    proof cases
      case 2
      have "fp_ok (d_energy d)"
        using 2(2) by (auto simp: calcualte_and_update_def Option.bind_eq_Some_conv split: if_split_asm)
      moreover have "length (show_fp 1 (milliseconds (realtime (procfs n)))) \<le> 19"
        using assms(2) m 2(1) length_sane_clock by auto
      ultimately show ?thesis using length_power_line assms(3) 2(3) by simp
    qed simp
  qed
qed simp

lemma MonitorStart_lengths:
  assumes "MonitorStart w st name interval = Some (ls, r)" "\<forall>(_, m) \<in> set (views w). clock_sane (realtime (procfs m))"
    "\<forall>i. fp_ok (parameters_value st i)"
  shows "\<forall>l \<in> set ls. length l \<le> (if name = METRIC_NAME_3 then 303 else 179)"
proof -
  have m: "\<forall>m \<in> set (map (procfs \<circ> snd) (views w)). clock_sane (realtime m)" using assms(2) by auto
  consider "name = METRIC_NAME_1" | "name = METRIC_NAME_2" "name \<noteq> METRIC_NAME_1"
    | "name = METRIC_NAME_3" "name \<noteq> METRIC_NAME_1" "name \<noteq> METRIC_NAME_2"
    | "name \<notin> {METRIC_NAME_1, METRIC_NAME_2, METRIC_NAME_3}" by blast
  then show ?thesis
  proof cases
    case 1
    then obtain x where "resources_monitor (appendable w) (api_pid st) (DataPath st) (procfs (first_view w))
        (map (procfs \<circ> snd) (views w)) = Some (ls, x)"
      using assms(1) by (auto simp: MonitorStart_def)
    from resources_monitor_lengths [OF this m] show ?thesis by fastforce
  next
    case 2
    then obtain x where "disk_monitor (appendable w) (api_pid st) (DataPath st) interval (procfs (first_view w))
        (map (procfs \<circ> snd) (views w)) = Some (ls, x)"
      using assms(1) by (auto simp: MonitorStart_def)
    from disk_monitor_lengths [OF this m] show ?thesis by fastforce
  next
    case 3
    then obtain x where "power_monitor (appendable w) (parameters_value st) (perf_event w) (api_pid st) (DataPath st)
        (first_view w) (views w) = Some (ls, x)"
      using assms(1) by (auto simp: MonitorStart_def)
    from power_monitor_lengths [OF this assms(2,3)] 3(1) show ?thesis by simp
  next
    case 4
    then have "ls = []" using assms(1) by (simp add: MonitorStart_def)
    then show ?thesis by simp
  qed
qed

lemma length_join: "length (join sep xs) \<le> sum_list (map length xs) + length sep * length xs"
  by (induction sep xs rule: join.induct) auto

lemma length_batch:
  assumes "\<forall>l \<in> set ls. length l \<le> k" "length ls \<le> 10"
  shows "length (batch_text s ls) \<le> 12 + 10 * (length s + k + 4)"
proof -
  have "sum_list (map (\<lambda>l. length (record_text s l)) ls) \<le> length ls * (length s + k + 4)"
    using assms(1) by (induction ls) (auto simp: record_text_def)
  also have "\<dots> \<le> 10 * (length s + k + 4)" by (rule mult_le_mono1 [OF assms(2)])
  finally show ?thesis using length_join [of "'',''" "map (record_text s) ls"] assms(2)
    by (simp add: batch_text_def comp_def)
qed

lemma blocks_length: "0 < n \<Longrightarrow> b \<in> set (blocks n xs) \<Longrightarrow> length b \<le> n"
  by (induction n xs rule: blocks.induct) auto

lemma blocks_set:
  assumes "b \<in> set (blocks n xs)"
  shows "set b \<subseteq> set xs"
proof -
  have "set b \<subseteq> set (concat (blocks n xs))" unfolding set_concat using assms by blast
  then show ?thesis by (simp only: concat_blocks)
qed

lemma lines_fit_buffers:
  assumes "\<forall>l \<in> set ls. length l \<le> 179" "length s \<le> 136" "b \<in> set (blocks 10 (map butlast ls))"
  shows "length (batch_text s b) < MESSAGE_CAP"
proof -
  have "\<forall>l \<in> set (map butlast ls). length l \<le> 178" using assms(1) by auto
  then have "\<forall>l \<in> set b. length l \<le> 178" using blocks_set [OF assms(3)] by blast
  moreover have "length b \<le> 10" by (rule blocks_length [OF _ assms(3)]) simp
  ultimately show ?thesis using length_batch [of b 178 s] assms(2) by (simp add: MESSAGE_CAP_def)
qed

lemma monitor_lines_fit:
  assumes "MonitorStart w st name interval = Some (ls, r)" "\<forall>(_, m) \<in> set (views w). clock_sane (realtime (procfs m))"
    "\<forall>i. fp_ok (parameters_value st i)" "length s \<le> 136"
  shows "(\<forall>l \<in> set ls. length l < 320) \<and>
    (name \<noteq> METRIC_NAME_3 \<longrightarrow> (\<forall>b \<in> set (blocks 10 (map butlast ls)). length (batch_text s b) < MESSAGE_CAP))"
  using MonitorStart_lengths [OF assms(1-3)] lines_fit_buffers [OF _ assms(4)] by (auto split: if_split_asm)

subsection \<open>From a monitor to the server\<close>

definition with_lines :: "cstr \<Rightarrow> cstr list \<Rightarrow> api \<Rightarrow> api" where
  "with_lines name ls st = st\<lparr>store := (store st)(DataPath st @ ''/'' @ name \<mapsto>
     (case store st (DataPath st @ ''/'' @ name) of None \<Rightarrow> [] | Some s \<Rightarrow> s) @ concat ls)\<rparr>"

text \<open>
  C7. From a monitor to the server: whatever the machine shows to a monitor thread before 2038,
  \<open>mf_send\<close> then posts each of the lines it has written once, in the order in which they were
  written, under the metric's name and the experiment the server has given. That every line can
  be read back as one line is shown for all three monitors. That ten lines fit the message buffer,
  when the record prefix (the ids, the name of the metric and the names of these fields) has at
  most 136 characters, is shown for the resources and the disk monitor, and assumed of the run
  for the power monitor, whose values have no bound but that of their type.
\<close>

theorem monitor_lines_sent:
  assumes "MonitorStart w st name interval = Some (ls, r)" "name \<in> {METRIC_NAME_1, METRIC_NAME_2, METRIC_NAME_3}"
    "\<forall>(_, m) \<in> set (views w). clock_sane (realtime (procfs m))" "\<forall>i. fp_ok (parameters_value st i)"
    "store st = Map.empty" "logFile st = Open_log" "length (DataPath st @ ''/'' @ name) < 256"
    "dir_entries h (DataPath st) = Some names" "distinct names" "set names = {''.'', ''..'', name}"
    "good_net net" "server \<noteq> []" "headers p = hs" "hs \<noteq> []"
    "length (experiment_text ids) < 256" "length (server @ ''/v1/phantom_mf/experiments/'' @ application_id ids) < 256"
    "snd (reply net (length (sent p)) (experiment_post server ids hs)) = [e]" "e \<noteq> []" "NUL \<notin> set e"
    "length (server @ ''/v1/phantom_mf/metrics'') < 256" "length (static_fields ids e name) \<le> 136"
    "name = METRIC_NAME_3 \<longrightarrow> (\<forall>b \<in> set (blocks 10 (map butlast ls)). length (batch_text (static_fields ids e name) b) < MESSAGE_CAP)"
  shows "\<exists>st'. mf_send h net server ids (with_lines name ls st) p = Some (Some e, st', p\<lparr>sent := sent p @
    experiment_post server ids hs #
    posts (server @ ''/v1/phantom_mf/metrics'') (static_fields ids e name) (map butlast ls) hs\<rparr>)"
proof -
  note split = text_lines_split [OF MonitorStart_lines [OF assms(1)]]
  have bounds: "\<forall>l \<in> set ls. length l < 320"
    "\<forall>b \<in> set (blocks 10 (map butlast ls)). length (batch_text (static_fields ids e name) b) < MESSAGE_CAP"
    using monitor_lines_fit [OF assms(1,3,4,21)] assms(22) by blast+
  have static: "length (static_fields ids e name) < 256" using assms(21) by simp
  have "data_line b" if "b \<in> set (map butlast ls)" for b
    using that split bounds(1) by (auto simp: data_line_def plain_text_def)
  then have fit: "lines_fit (static_fields ids e name) (map butlast ls)"
    using bounds(2) by (simp add: lines_fit_def)
  have "2 \<le> length name" "name \<noteq> ''..''"
    using assms(2) by (auto simp: METRIC_NAME_1_def METRIC_NAME_2_def METRIC_NAME_3_def)
  moreover have "store (with_lines name ls st) = [DataPath (with_lines name ls st) @ ''/'' @ name \<mapsto>
      concat (map (\<lambda>l. l @ [NL]) (map butlast ls))]"
    using split assms(5) by (simp add: with_lines_def)
  moreover have "logFile (with_lines name ls st) = Open_log" "DataPath (with_lines name ls st) = DataPath st"
    using assms(6) by (simp_all add: with_lines_def)
  ultimately show ?thesis
    using assms(7,8) by (intro mf_send_one_file [OF _ _ _ _ _ _ assms(9-20) static fit]) simp_all
qed


subsection \<open>A concrete run\<close>

definition disk_view :: "string \<Rightarrow> monitored" where
  "disk_view r = \<lparr>procfs = io_machine (Some r), cpus = None, cache_misses = None\<rparr>"

definition disk_world :: surroundings where
  "disk_world = \<lparr>appendable = (\<lambda>_. True), perf_event = 0, first_view = disk_view ''3'', views = [(\<lparr>sec = 6, nsec = 0\<rparr>, disk_view ''9'')]\<rparr>"

definition disk_state :: api where
  "disk_state = api_start\<lparr>DataPath := ''/d/7'', api_pid := 7, logFile := Open_log\<rparr>"

definition disk_host :: host where
  "disk_host = sample_host\<lparr>dir_entries := (\<lambda>_. Some [''.'', ''disk_io'', ''..''])\<rparr>"

lemma disk_run:
  "\<exists>d. MonitorStart disk_world disk_state METRIC_NAME_2 100 = Some ([disk_line 100 \<lparr>sec = 7, nsec = 0\<rparr> d], Return ()) \<and> fst d = 6"
proof -
  have "list_all2 (\<lambda>m v. io_shows m 7 v) [io_machine (Some ''9'')] [Some (9, 4)]" using io_machine_shows by simp
  from disk_monitor_sum [OF _ _ io_machine_shows(2) this, of "''/d/7''" "\<lambda>_. True" 100]
  obtain ds where ds: "disk_monitor (\<lambda>_. True) 7 ''/d/7'' 100 (io_machine (Some ''3'')) [io_machine (Some ''9'')] =
      Some (map (\<lambda>(m, d). disk_line 100 (realtime m) d) (zip [io_machine (Some ''9'')] ds), 1)"
    "length ds = 1" "sum_list (map fst ds) = 6" by (auto simp: latest_def)
  obtain d where d: "ds = [d]" using ds(2) by (auto simp: length_Suc_conv)
  have t: "realtime (io_machine r) = \<lparr>sec = 7, nsec = 0\<rparr>" for r by (simp add: io_machine_def)
  have "METRIC_NAME_2 \<noteq> METRIC_NAME_1" by (simp add: METRIC_NAME_1_def METRIC_NAME_2_def)
  moreover have "disk_monitor (appendable disk_world) (api_pid disk_state) (DataPath disk_state) 100 (procfs (first_view disk_world))
      (map (procfs \<circ> snd) (views disk_world)) = Some ([disk_line 100 \<lparr>sec = 7, nsec = 0\<rparr> d], 1)"
    using ds(1) t by (simp add: d disk_world_def disk_state_def disk_view_def)
  moreover have "fst d = 6" using ds(3) d by simp
  ultimately show ?thesis by (intro exI [of _ d]) (simp add: MonitorStart_def)
qed

lemma disk_world_sane: "\<forall>(_, m) \<in> set (views disk_world). clock_sane (realtime (procfs m))"
  by (simp add: disk_world_def disk_view_def io_machine_def clock_sane_def)

theorem monitor_lines_sent_witness:
  "\<exists>d st'. MonitorStart disk_world disk_state METRIC_NAME_2 100 = Some ([disk_line 100 \<lparr>sec = 7, nsec = 0\<rparr> d], Return ()) \<and> fst d = 6 \<and>
     mf_send disk_host sample_server ''s'' sample_ids (with_lines METRIC_NAME_2 [disk_line 100 \<lparr>sec = 7, nsec = 0\<rparr> d] disk_state) fresh_pub =
       Some (Some ''id1'', st', fresh_pub\<lparr>sent := experiment_post ''s'' sample_ids [''x''] #
         posts ''s/v1/phantom_mf/metrics'' (static_fields sample_ids ''id1'' METRIC_NAME_2)
           [butlast (disk_line 100 \<lparr>sec = 7, nsec = 0\<rparr> d)] [''x'']\<rparr>)"
proof -
  obtain d where d: "MonitorStart disk_world disk_state METRIC_NAME_2 100 = Some ([disk_line 100 \<lparr>sec = 7, nsec = 0\<rparr> d], Return ())"
    "fst d = 6" using disk_run by blast
  let ?l = "disk_line 100 \<lparr>sec = 7, nsec = 0\<rparr> d"
  note sane = disk_world_sane
  have pv: "\<forall>i. fp_ok (parameters_value disk_state i)" by (simp add: disk_state_def api_start_def)
  have l: "length (static_fields sample_ids ''id1'' METRIC_NAME_2) \<le> 136"
    by (simp add: sample_sizes METRIC_NAME_2_def)
  have "\<exists>st'. mf_send disk_host sample_server ''s'' sample_ids (with_lines METRIC_NAME_2 [?l] disk_state) fresh_pub =
      Some (Some ''id1'', st', fresh_pub\<lparr>sent := sent fresh_pub @ experiment_post ''s'' sample_ids [''x''] #
         posts (''s'' @ ''/v1/phantom_mf/metrics'') (static_fields sample_ids ''id1'' METRIC_NAME_2) (map butlast [?l]) [''x'']\<rparr>)"
    by (rule monitor_lines_sent [OF d(1) _ sane pv _ _ _ _ _ _ sample_server_good _ _ _ _ _ sample_experiment _ _ _ l,
          where names = "[''.'', ''disk_io'', ''..'']"])
      (simp_all add: disk_state_def api_start_def METRIC_NAME_2_def disk_host_def fresh_pub_def sample_sizes insert_commute METRIC_NAME_3_def)
  moreover have "sent fresh_pub @ xs = xs" "map butlast [?l] = [butlast ?l]" for xs by (simp_all add: fresh_pub_def)
  moreover have "''s'' @ ''/v1/phantom_mf/metrics'' = ''s/v1/phantom_mf/metrics''" by simp
  ultimately show ?thesis using d by (simp only:) blast
qed

theorem monitor_stamps_in_order_witness:
  "\<exists>ls ts. MonitorStart disk_world disk_state METRIC_NAME_2 100 = Some (ls, Return ()) \<and> length ls = 1 \<and>
     list_all2 stamped ts ls \<and> sorted_wrt (\<lambda>t t'. fp_le (milliseconds t) (milliseconds t')) ts"
proof -
  obtain d where d: "MonitorStart disk_world disk_state METRIC_NAME_2 100 = Some ([disk_line 100 \<lparr>sec = 7, nsec = 0\<rparr> d], Return ())"
    using disk_run by blast
  have "\<forall>(_, m) \<in> set (views disk_world). clock_sane (realtime (procfs m))"
    "sorted (map (realtime \<circ> procfs \<circ> snd) (views disk_world))"
    by (simp_all add: disk_world_def disk_view_def io_machine_def clock_sane_def)
  with monitor_stamps_in_order [OF d] d show ?thesis by fastforce
qed


text \<open>The names of the fields and of the metric take at most 84 characters of a record.\<close>

lemma static_fields_short:
  assumes "length (application_id ids) + length (component_id ids) + length e + length (platform ids) \<le> 52"
    "name \<in> {METRIC_NAME_1, METRIC_NAME_2}"
  shows "length (static_fields ids e name) \<le> 136"
  using assms by (auto simp: static_fields_def quoted_def METRIC_NAME_1_def METRIC_NAME_2_def)

lemma MonitorStart_other:
  "MonitorStart w st name interval = Some (ls, r) \<Longrightarrow> name \<notin> {METRIC_NAME_1, METRIC_NAME_2, METRIC_NAME_3} \<Longrightarrow> ls = []"
  by (simp add: MonitorStart_def)

text \<open>
  C39. The sender's line buffer never overflows: while the clock is a time before 2038 and the
  energy parameters are numbers of type \<open>float\<close>, every line of the three monitors is shorter
  than the 320 characters of a read, whatever the machine reports. Nor does the message buffer
  with lines of the resources and the disk monitor: every ten of them are shorter than its 3200
  characters when the application, the task, the experiment and the platform id together have at
  most 52 characters.
\<close>

theorem monitor_lines_never_overflow:
  assumes "MonitorStart w st name interval = Some (ls, r)"
    "\<forall>(_, m) \<in> set (views w). clock_sane (realtime (procfs m))" "\<forall>i. fp_ok (parameters_value st i)"
    "length (application_id ids) + length (component_id ids) + length e + length (platform ids) \<le> 52"
  shows "(\<forall>l \<in> set ls. length l < 320) \<and>
    (name \<noteq> METRIC_NAME_3 \<longrightarrow>
      (\<forall>b \<in> set (blocks 10 (map butlast ls)). length (batch_text (static_fields ids e name) b) < MESSAGE_CAP))"
proof (cases "name \<in> {METRIC_NAME_1, METRIC_NAME_2}")
  case True
  from monitor_lines_fit [OF assms(1-3) static_fields_short [OF assms(4) True]] show ?thesis .
next
  case False
  then have "name = METRIC_NAME_3 \<or> ls = []" using MonitorStart_other [OF assms(1)] by blast
  then show ?thesis using monitor_lines_fit [OF assms(1-3), of "[]"] by auto
qed

theorem monitor_lines_never_overflow_witness:
  "\<exists>ls. MonitorStart disk_world disk_state METRIC_NAME_2 100 = Some (ls, Return ()) \<and> ls \<noteq> [] \<and>
     (\<forall>b \<in> set (blocks 10 (map butlast ls)). length (batch_text (static_fields sample_ids ''id1'' METRIC_NAME_2) b) < MESSAGE_CAP)"
proof -
  obtain d where d: "MonitorStart disk_world disk_state METRIC_NAME_2 100 = Some ([disk_line 100 \<lparr>sec = 7, nsec = 0\<rparr> d], Return ())"
    using disk_run by blast
  have "\<forall>i. fp_ok (parameters_value disk_state i)" by (simp add: disk_state_def api_start_def)
  moreover have "length (application_id sample_ids) + length (component_id sample_ids) + length ''id1'' + length (platform sample_ids) \<le> 52"
    by (simp add: sample_ids_def)
  moreover have "METRIC_NAME_2 \<noteq> METRIC_NAME_3" by (simp add: METRIC_NAME_2_def METRIC_NAME_3_def)
  ultimately show ?thesis using monitor_lines_never_overflow [OF d disk_world_sane, of sample_ids "''id1''"] d by blast
qed

end
