(* ===== verification/RAPL_Power.thy ===== *)
theory RAPL_Power
  imports Plugin_Metrics
begin

text \<open>
  The RAPL_power connector, \<^verbatim>\<open>plugins/RAPL_power/src/mf_RAPL_power_connector.c\<close>: the power
  of each processor package and of its memory, from the energy counters of the processor. A
  \<open>rapl_machine\<close> holds what the PAPI and hwloc libraries, the \<open>cpuid\<close> instruction and the
  clock give during one call. The counters are what \<open>PAPI_read\<close> copies: one for each event
  added to the set, in that order, counted since the last \<open>PAPI_reset\<close>.
\<close>

record rapl_machine =
  papi_loaded :: bool
  papi_components :: "(cstr \<times> bool) list"
  sockets :: "int option"
  eventset_created :: bool
  eventset_started :: bool
  rapl_counters :: "64 word list option"
  cpuid_eax :: "32 word"
  rapl_clock :: timestamp

record rapl_state =
  rapl_before :: cfp
  rapl_after :: cfp
  num_sockets :: int
  denominator :: cfp
  rapl_is_available :: int
  named_events :: "cstr list"
  epackage_before :: "cfp list"
  edram_before :: "cfp list"
  epackage_after :: "cfp list"
  edram_after :: "cfp list"

definition MAX_SOCKETS :: nat where "MAX_SOCKETS = 4"

definition rapl_start :: rapl_state where
  "rapl_start = (let zeros = replicate MAX_SOCKETS fp_zero in
     \<lparr>rapl_before = fp_zero, rapl_after = fp_zero, num_sockets = 0, denominator = lit64 1, rapl_is_available = 0,
      named_events = [], epackage_before = zeros, edram_before = zeros, epackage_after = zeros, edram_after = zeros\<rparr>)"

subsection \<open>Initialisation\<close>

text \<open>The first component whose name contains \<open>rapl\<close> decides.\<close>

fun check_rapl_component :: "(cstr \<times> bool) list \<Rightarrow> int" where
  "check_rapl_component [] = 0"
| "check_rapl_component ((name, disabled) # cs) =
     (if strstr name ''rapl'' \<noteq> None then if disabled then 0 else 1 else check_rapl_component cs)"

definition hardware_sockets_count :: "rapl_machine \<Rightarrow> int" where
  "hardware_sockets_count m = (case sockets m of None \<Rightarrow> 0 | Some n \<Rightarrow> n)"

definition rapl_get_denominator :: "rapl_machine \<Rightarrow> cfp" where
  "rapl_get_denominator m =
     (if uint (cpuid_eax m) div 16 mod 16 = 15 then lit64 (153 / 10) else lit64 1)"

definition rapl_named_events :: "nat \<Rightarrow> cstr list" where
  "rapl_named_events n =
     concat (map (\<lambda>i. [''PACKAGE_ENERGY:PACKAGE'' @ show_nat i, ''DRAM_ENERGY:PACKAGE'' @ show_nat i]) [0..<n])"

text \<open>The events of one metric, one per socket.\<close>

definition socket_events :: "nat \<Rightarrow> cstr \<Rightarrow> cstr list" where
  "socket_events n name = map (\<lambda>j. ''package'' @ show_nat j @ '':'' @ name) [0..<n]"

definition rapl_metric :: "nat \<Rightarrow> cstr \<Rightarrow> Plugin_metrics \<Rightarrow> Plugin_metrics option" where
  "rapl_metric n e d = do {
     d1 \<leftarrow> (if e = ''total_power'' then foldM add_event (socket_events n ''total_power'') d else Some d);
     if e = ''dram_power'' then foldM add_event (socket_events n ''dram_power'') d1 else Some d1
   }"

definition rapl_init ::
  "rapl_machine \<Rightarrow> cstr list \<Rightarrow> rapl_state \<times> Plugin_metrics \<Rightarrow> (int \<times> rapl_state \<times> Plugin_metrics) option" where
  "rapl_init m evs = (\<lambda>(st, d).
     if \<not> papi_loaded m then Some (0, st, d)
     else if check_rapl_component (papi_components m) = 0 then Some (0, st, d)
     else let n = hardware_sockets_count m; st1 = st\<lparr>num_sockets := n\<rparr> in
       if n \<le> 0 then Some (0, st1, d)
       else if \<not> eventset_created m then Some (0, st1, d)
       else do {
         names \<leftarrow> those (map (c_store 32) (rapl_named_events (nat n)));
         d1 \<leftarrow> foldM (rapl_metric (nat n)) evs d;
         Some (if eventset_started m then 1 else 0,
           st1\<lparr>named_events := names, denominator := rapl_get_denominator m\<rparr>, d1\<lparr>num_events := length (events d1)\<rparr>)
       })"

text \<open>
  The energies of package \<open>j\<close> and of its memory, from the counters at \<open>2j\<close> and \<open>2j + 1\<close>. The
  arrays have four entries; the counters are read into an array of two per socket.
\<close>

definition package_energy :: "64 word \<Rightarrow> cfp" where
  "package_energy v = fp_conv binary32 (fp_mul binary64 (fp_of_int binary64 (sint v)) (lit64 (1 / 10 ^ 6)))"

definition dram_energy :: "cfp \<Rightarrow> 64 word \<Rightarrow> cfp" where
  "dram_energy den v = fp_conv binary32 (fp_div binary64 (package_energy v) den)"

definition store_energies :: "cfp \<Rightarrow> 64 word list \<Rightarrow> nat \<Rightarrow> cfp list \<times> cfp list \<Rightarrow> (cfp list \<times> cfp list) option" where
  "store_energies den vs ii = (\<lambda>(ep, ed).
     if length vs \<le> 2 * ii + 1 \<or> length ep \<le> ii \<or> length ed \<le> ii then None
     else Some (ep[ii := package_energy (vs ! (2 * ii))], ed[ii := dram_energy den (vs ! (2 * ii + 1))]))"

definition rapl_stat_read ::
  "rapl_machine \<Rightarrow> rapl_state \<Rightarrow> cfp list \<times> cfp list \<Rightarrow> (int \<times> cfp list \<times> cfp list) option" where
  "rapl_stat_read m st e =
     (case rapl_counters m of None \<Rightarrow> Some (0, e)
      | Some vs \<Rightarrow>
          if 2 * nat (num_sockets st) < length vs then None
          else do { e' \<leftarrow> foldM (store_energies (denominator st) vs) [0..<nat (num_sockets st)] e; Some (1, e') })"

definition mf_RAPL_power_init ::
  "rapl_machine \<Rightarrow> cstr list \<Rightarrow> rapl_state \<times> Plugin_metrics \<Rightarrow> (int \<times> rapl_state \<times> Plugin_metrics) option" where
  "mf_RAPL_power_init m evs s = do {
     (ok, st, d) \<leftarrow> rapl_init m evs s;
     (let st1 = st\<lparr>rapl_is_available := ok\<rparr> in
      if ok = 0 \<or> num_events d = 0 then Some (0, st1, d)
      else do {
        (_, ep, ed) \<leftarrow> rapl_stat_read m st1 (epackage_before st1, edram_before st1);
        Some (1, st1\<lparr>epackage_before := ep, edram_before := ed, rapl_before := seconds (rapl_clock m)\<rparr>, d)
      })
   }"

subsection \<open>Sampling\<close>

text \<open>
  One inner loop: a value for each socket from index \<open>i\<close> on; \<open>before\<close> is moved up. The result
  holds the next index and the new \<open>before\<close>.
\<close>

definition rapl_group ::
  "cfp \<Rightarrow> nat \<Rightarrow> cfp list \<Rightarrow> cfp list \<Rightarrow> nat \<Rightarrow> Plugin_metrics \<Rightarrow> (nat \<times> cfp list \<times> Plugin_metrics) option" where
  "rapl_group interval n aft bef i d =
     (if length aft < n \<or> length bef < n then None
      else do {
        (i', d') \<leftarrow> put_values (map (\<lambda>j. power_over (fp_sub binary32 (aft ! j) (bef ! j)) interval) [0..<n]) i d;
        Some (i', take n aft @ drop n bef, d')
      })"

text \<open>\<open>data->events[i]\<close>, which is indeterminate from the number of events on.\<close>

definition rapl_event :: "Plugin_metrics \<Rightarrow> nat \<Rightarrow> cstr option" where
  "rapl_event d i = (if i < length (events d) then Some (events d ! i) else None)"

definition rapl_round ::
  "cfp \<Rightarrow> nat \<times> rapl_state \<times> Plugin_metrics \<Rightarrow> (nat \<times> rapl_state \<times> Plugin_metrics) option" where
  "rapl_round interval = (\<lambda>(i, st, d). do {
     e \<leftarrow> rapl_event d i;
     (i1, st1, d1) \<leftarrow> (if strstr e ''total_power'' = None then Some (i, st, d)
       else do {
         (i', b, d') \<leftarrow> rapl_group interval (nat (num_sockets st)) (epackage_after st) (epackage_before st) i d;
         Some (i', st\<lparr>epackage_before := b\<rparr>, d')
       });
     e1 \<leftarrow> rapl_event d1 i1;
     if strstr e1 ''dram_power'' = None then Some (i1, st1, d1)
     else do {
       (i', b, d') \<leftarrow> rapl_group interval (nat (num_sockets st1)) (edram_after st1) (edram_before st1) i1 d1;
       Some (i', st1\<lparr>edram_before := b\<rparr>, d')
     }
   })"

text \<open>The outer loop; a round that writes nothing would be repeated for ever.\<close>

partial_function (option) rapl_rounds ::
  "cfp \<Rightarrow> nat \<times> rapl_state \<times> Plugin_metrics \<Rightarrow> (rapl_state \<times> Plugin_metrics) option" where
  "rapl_rounds interval s =
     (if fst s < num_events (snd (snd s))
      then do { s' \<leftarrow> rapl_round interval s; rapl_rounds interval s' }
      else Some (snd s))"

definition mf_RAPL_power_sample ::
  "rapl_machine \<Rightarrow> rapl_state \<times> Plugin_metrics \<Rightarrow> (rapl_state \<times> Plugin_metrics) option" where
  "mf_RAPL_power_sample m = (\<lambda>(st, d).
     (let now = seconds (rapl_clock m); interval = fp_sub binary64 now (rapl_before st) in do {
        (_, ep, ed) \<leftarrow> (if rapl_is_available st = 0 then Some (0, epackage_after st, edram_after st)
          else rapl_stat_read m st (epackage_after st, edram_after st));
        (st', d') \<leftarrow> rapl_rounds interval (0, st\<lparr>rapl_after := now, epackage_after := ep, edram_after := ed\<rparr>, d);
        Some (st'\<lparr>rapl_before := now\<rparr>, d')
      }))"

definition mf_RAPL_power_to_json :: "rapl_state \<Rightarrow> Plugin_metrics \<Rightarrow> cstr option" where
  "mf_RAPL_power_to_json st d = do {
     json \<leftarrow> json_begin ''RAPL_power'' (fp_mul binary64 (rapl_after st) (Fin False 1000));
     foldM (json_nonnegative d) [0..<num_events d] json
   }"


subsection \<open>Sampling with both metrics\<close>

definition rapl_ready :: "nat \<Rightarrow> rapl_state \<Rightarrow> Plugin_metrics \<Rightarrow> bool" where
  "rapl_ready n st d \<longleftrightarrow> 0 < n \<and> n \<le> MAX_SOCKETS \<and> num_sockets st = int n \<and> rapl_is_available st \<noteq> 0 \<and>
     events d = socket_events n ''total_power'' @ socket_events n ''dram_power'' \<and>
     num_events d = length (events d) \<and> length (values d) = MAX_EVENTS_NUMBER \<and>
     length (epackage_before st) = MAX_SOCKETS \<and> length (edram_before st) = MAX_SOCKETS \<and>
     length (epackage_after st) = MAX_SOCKETS \<and> length (edram_after st) = MAX_SOCKETS"

lemma length_socket_events [simp]: "length (socket_events n name) = n"
  by (simp add: socket_events_def)

lemma nth_socket_events [simp]: "j < n \<Longrightarrow> socket_events n name ! j = ''package'' @ show_nat j @ '':'' @ name"
  by (simp add: socket_events_def)

lemma socket_names:
  assumes "j < 4"
  shows "strstr (''package'' @ show_nat j @ '':total_power'') ''total_power'' \<noteq> None"
    "strstr (''package'' @ show_nat j @ '':dram_power'') ''total_power'' = None"
    "strstr (''package'' @ show_nat j @ '':dram_power'') ''dram_power'' \<noteq> None"
proof -
  have "\<forall>j \<in> {0, 1, 2, 3}. strstr (''package'' @ show_nat j @ '':total_power'') ''total_power'' \<noteq> None"
    "\<forall>j \<in> {0, 1, 2, 3}. strstr (''package'' @ show_nat j @ '':dram_power'') ''total_power'' = None"
    "\<forall>j \<in> {0, 1, 2, 3}. strstr (''package'' @ show_nat j @ '':dram_power'') ''dram_power'' \<noteq> None"
    by code_simp+
  note names = this
  have j: "j \<in> {0, 1, 2, 3}" using assms by auto
  show "strstr (''package'' @ show_nat j @ '':total_power'') ''total_power'' \<noteq> None" by (rule bspec [OF names(1) j])
  show "strstr (''package'' @ show_nat j @ '':dram_power'') ''total_power'' = None" by (rule bspec [OF names(2) j])
  show "strstr (''package'' @ show_nat j @ '':dram_power'') ''dram_power'' \<noteq> None" by (rule bspec [OF names(3) j])
qed

lemma store_all:
  assumes "length vs = 2 * n" "k \<le> n" "n \<le> length ep" "n \<le> length ed"
  shows "foldM (store_energies den vs) [0..<k] (ep, ed) =
    Some (map (\<lambda>j. package_energy (vs ! (2 * j))) [0..<k] @ drop k ep,
          map (\<lambda>j. dram_energy den (vs ! (2 * j + 1))) [0..<k] @ drop k ed)"
  using assms(2)
proof (induction k)
  case (Suc k)
  then show ?case using assms
    by (simp add: foldM_append store_energies_def list_update_append Cons_nth_drop_Suc [symmetric]) arith
qed simp

lemma rapl_group_total:
  assumes "length aft = MAX_SOCKETS" "length bef = MAX_SOCKETS" "n \<le> MAX_SOCKETS" "i + n \<le> length (values d)"
  obtains d' where "rapl_group t n aft bef i d = Some (i + n, take n aft @ drop n bef, d')"
    "put_values (map (\<lambda>j. power_over (fp_sub binary32 (aft ! j) (bef ! j)) t) [0..<n]) i d = Some (i + n, d')"
  using put_values_fits [of i "map (\<lambda>j. power_over (fp_sub binary32 (aft ! j) (bef ! j)) t) [0..<n]" d] assms
  by (auto simp: rapl_group_def)

lemma RAPL_sample:
  assumes "rapl_ready n st d" "rapl_counters m = Some vs" "length vs = 2 * n"
  shows "\<exists>st' d'. mf_RAPL_power_sample m (st, d) = Some (st', d') \<and> rapl_ready n st' d' \<and>
    (\<forall>j < n. values d' ! j = Some (power_over (fp_sub binary32 (package_energy (vs ! (2 * j))) (epackage_before st ! j))
         (fp_sub binary64 (seconds (rapl_clock m)) (rapl_before st))) \<and>
       values d' ! (n + j) = Some (power_over (fp_sub binary32 (dram_energy (denominator st) (vs ! (2 * j + 1))) (edram_before st ! j))
         (fp_sub binary64 (seconds (rapl_clock m)) (rapl_before st))) \<and>
       epackage_before st' ! j = package_energy (vs ! (2 * j)) \<and>
       edram_before st' ! j = dram_energy (denominator st) (vs ! (2 * j + 1)))"
proof -
  define now where "now = seconds (rapl_clock m)"
  define t where "t = fp_sub binary64 now (rapl_before st)"
  define ep where "ep = map (\<lambda>j. package_energy (vs ! (2 * j))) [0..<n] @ drop n (epackage_after st)"
  define ed where "ed = map (\<lambda>j. dram_energy (denominator st) (vs ! (2 * j + 1))) [0..<n] @ drop n (edram_after st)"
  define s where "s = st\<lparr>rapl_after := now, epackage_after := ep, edram_after := ed\<rparr>"
  have n: "0 < n" "n \<le> 4" "n \<le> MAX_SOCKETS" using assms(1) by (auto simp: rapl_ready_def MAX_SOCKETS_def)
  have len: "length ep = MAX_SOCKETS" "length ed = MAX_SOCKETS" "length (epackage_before st) = MAX_SOCKETS"
    "length (edram_before st) = MAX_SOCKETS" "length (values d) = 32" "num_sockets st = int n"
    using assms(1) by (simp_all add: rapl_ready_def ep_def ed_def MAX_EVENTS_NUMBER_def)
  have read: "rapl_stat_read m st (epackage_after st, edram_after st) = Some (1, ep, ed)"
    using assms store_all [of vs n n "epackage_after st" "edram_after st"]
    by (simp add: rapl_stat_read_def rapl_ready_def ep_def ed_def)
  obtain d1 where g1: "rapl_group t n ep (epackage_before st) 0 d = Some (n, take n ep @ drop n (epackage_before st), d1)"
    and v1: "put_values (map (\<lambda>j. power_over (fp_sub binary32 (ep ! j) (epackage_before st ! j)) t) [0..<n]) 0 d = Some (n, d1)"
    using rapl_group_total [of ep "epackage_before st" n 0 d t] len n by auto
  have s1: "same_events d d1" using put_values_spec [OF v1] by simp
  obtain d2 where g2: "rapl_group t n ed (edram_before st) n d1 = Some (2 * n, take n ed @ drop n (edram_before st), d2)"
    and v2: "put_values (map (\<lambda>j. power_over (fp_sub binary32 (ed ! j) (edram_before st ! j)) t) [0..<n]) n d1 = Some (2 * n, d2)"
    using rapl_group_total [of ed "edram_before st" n n d1 t] len n s1 by (auto simp: same_events_def mult_2)
  have s2: "same_events d d2" using s1 put_values_spec [OF v2] same_events_trans by blast
  have e0: "rapl_event d 0 = Some (''package'' @ show_nat 0 @ '':total_power'')"
    and en: "rapl_event d1 n = Some (''package'' @ show_nat 0 @ '':dram_power'')"
    using assms(1) n s1 by (simp_all add: rapl_event_def rapl_ready_def same_events_def nth_append)
  define s' where "s' = s\<lparr>epackage_before := take n ep @ drop n (epackage_before st),
     edram_before := take n ed @ drop n (edram_before st)\<rparr>"
  have round: "rapl_round t (0, s, d) = Some (2 * n, s', d2)"
    using e0 en g1 g2 len n socket_names [of 0] by (auto simp: rapl_round_def s_def s'_def)
  have num: "num_events d = 2 * n" "num_events d2 = 2 * n" using assms(1) s2 by (simp_all add: rapl_ready_def same_events_def)
  have "rapl_rounds t (2 * n, s', d2) = Some (s', d2)" using num by (subst rapl_rounds.simps) simp
  then have loop: "rapl_rounds t (0, s, d) = Some (s', d2)"
    using round num n by (subst rapl_rounds.simps) simp
  have res: "mf_RAPL_power_sample m (st, d) = Some (s'\<lparr>rapl_before := now\<rparr>, d2)"
    using read loop assms(1)
    by (simp add: mf_RAPL_power_sample_def Let_def rapl_ready_def now_def t_def s_def)
  show ?thesis
  proof (intro exI conjI)
    show "mf_RAPL_power_sample m (st, d) = Some (s'\<lparr>rapl_before := now\<rparr>, d2)" by (rule res)
    show "rapl_ready n (s'\<lparr>rapl_before := now\<rparr>) d2"
      using assms(1) s2 len n by (simp add: rapl_ready_def same_events_def s'_def s_def)
    show "\<forall>j < n. values d2 ! j = Some (power_over (fp_sub binary32 (package_energy (vs ! (2 * j))) (epackage_before st ! j))
         (fp_sub binary64 (seconds (rapl_clock m)) (rapl_before st))) \<and>
       values d2 ! (n + j) = Some (power_over (fp_sub binary32 (dram_energy (denominator st) (vs ! (2 * j + 1))) (edram_before st ! j))
         (fp_sub binary64 (seconds (rapl_clock m)) (rapl_before st))) \<and>
       epackage_before (s'\<lparr>rapl_before := now\<rparr>) ! j = package_energy (vs ! (2 * j)) \<and>
       edram_before (s'\<lparr>rapl_before := now\<rparr>) ! j = dram_energy (denominator st) (vs ! (2 * j + 1))"
      using put_values_spec [OF v1] put_values_spec [OF v2] len n
      by (auto simp: s'_def ep_def ed_def t_def now_def nth_append MAX_SOCKETS_def)
  qed
qed

subsection \<open>The events stay\<close>

lemma rapl_group_same:
  "rapl_group t n a b i d = Some (i', b', d') \<Longrightarrow> same_events d d' \<and> i' = i + n"
  using put_values_spec put_values_index
  by (fastforce simp: rapl_group_def Option.bind_eq_Some_conv split: if_split_asm)

lemma rapl_round_same:
  assumes "rapl_round t (i, st, d) = Some (i', st', d')"
  shows "same_events d d'"
proof -
  obtain e i1 st1 d1 e1 where
    1: "(if strstr e ''total_power'' = None then Some (i, st, d)
       else do {
         (i', b, d') \<leftarrow> rapl_group t (nat (num_sockets st)) (epackage_after st) (epackage_before st) i d;
         Some (i', st\<lparr>epackage_before := b\<rparr>, d')
       }) = Some (i1, st1, d1)"
    and 2: "(if strstr e1 ''dram_power'' = None then Some (i1, st1, d1)
     else do {
       (i', b, d') \<leftarrow> rapl_group t (nat (num_sockets st1)) (edram_after st1) (edram_before st1) i1 d1;
       Some (i', st1\<lparr>edram_before := b\<rparr>, d')
     }) = Some (i', st', d')"
    using assms unfolding rapl_round_def prod.case by (clarsimp simp: Option.bind_eq_Some_conv)
  have "same_events d d1"
    using 1 by (cases "strstr e ''total_power'' = None") (auto simp: Option.bind_eq_Some_conv dest: rapl_group_same)
  moreover have "same_events d1 d'"
    using 2 by (cases "strstr e1 ''dram_power'' = None") (auto simp: Option.bind_eq_Some_conv dest: rapl_group_same)
  ultimately show ?thesis by (rule same_events_trans)
qed

lemma rapl_event_same: "same_events d d' \<Longrightarrow> rapl_event d' i = rapl_event d i"
  by (simp add: same_events_def rapl_event_def)

lemma rapl_rounds_same:
  assumes "rapl_rounds t s = Some r"
  shows "same_events (snd (snd s)) (snd r)"
proof (rule rapl_rounds.raw_induct [OF _ assms, where P = "\<lambda>t s r. same_events (snd (snd s)) (snd r)"])
  fix loop t s r
  assume IH: "\<And>t s r. loop t s = Some r \<Longrightarrow> same_events (snd (snd s)) (snd r)"
    and body: "(if fst s < num_events (snd (snd s)) then rapl_round t s \<bind> loop t else Some (snd s)) = Some r"
  show "same_events (snd (snd s)) (snd r)"
  proof (cases "fst s < num_events (snd (snd s))")
    case True
    then obtain x where x: "rapl_round t s = Some x" "loop t x = Some r"
      using body by (auto simp: Option.bind_eq_Some_conv)
    have "same_events (snd (snd s)) (snd (snd x))"
      using rapl_round_same [of t "fst s" "fst (snd s)" "snd (snd s)" "fst x" "fst (snd x)" "snd (snd x)"] x(1) by simp
    then show ?thesis using IH [OF x(2)] by (rule same_events_trans)
  qed (use body in simp)
qed

interpretation rapl: connector mf_RAPL_power_sample
proof
  fix m st d st' d'
  assume "mf_RAPL_power_sample m (st, d) = Some (st', d')"
  then show "same_events d d'" using rapl_rounds_same
    by (fastforce simp: mf_RAPL_power_sample_def Let_def Option.bind_eq_Some_conv split: if_split_asm)
qed

subsection \<open>The outer loop ends\<close>

text \<open>
  The outer loop with a bound on its rounds: \<open>Running\<close> when the bound does not suffice,
  \<open>Undefined\<close> when it leaves the language.
\<close>

datatype 'a outcome = Running | Undefined | Done 'a

fun rapl_fuel :: "nat \<Rightarrow> cfp \<Rightarrow> nat \<times> rapl_state \<times> Plugin_metrics \<Rightarrow> (rapl_state \<times> Plugin_metrics) outcome" where
  "rapl_fuel 0 t s = (if fst s < num_events (snd (snd s)) then Running else Done (snd s))"
| "rapl_fuel (Suc k) t s =
     (if fst s < num_events (snd (snd s))
      then (case rapl_round t s of None \<Rightarrow> Undefined | Some s' \<Rightarrow> rapl_fuel k t s')
      else Done (snd s))"

lemma rapl_rounds_fuel:
  "rapl_fuel k t s \<noteq> Running \<Longrightarrow>
     rapl_rounds t s = (case rapl_fuel k t s of Done r \<Rightarrow> Some r | _ \<Rightarrow> None)"
proof (induction k t s rule: rapl_fuel.induct)
  case (1 t s)
  then show ?case by (subst rapl_rounds.simps) auto
next
  case (2 k t s)
  show ?case
  proof (cases "fst s < num_events (snd (snd s))")
    case True
    then show ?thesis using 2 by (subst rapl_rounds.simps) (cases "rapl_round t s"; simp)
  next
    case False
    then show ?thesis by (subst rapl_rounds.simps) simp
  qed
qed

text \<open>
  The requested metrics the plugin knows; the events are a group of one event per socket for
  each of them.
\<close>

definition rapl_requested :: "cstr list \<Rightarrow> cstr list" where
  "rapl_requested evs = filter (\<lambda>e. e = ''total_power'' \<or> e = ''dram_power'') evs"

definition metric_groups :: "nat \<Rightarrow> cstr list \<Rightarrow> Plugin_metrics \<Rightarrow> bool" where
  "metric_groups n ns d \<longleftrightarrow> set ns \<subseteq> {''total_power'', ''dram_power''} \<and>
     events d = concat (map (socket_events n) ns) \<and> num_events d = length (events d)"

definition rapl_wf :: "nat \<Rightarrow> cstr list \<Rightarrow> rapl_state \<Rightarrow> Plugin_metrics \<Rightarrow> bool" where
  "rapl_wf n ns st d \<longleftrightarrow> 0 < n \<and> n \<le> MAX_SOCKETS \<and> num_sockets st = int n \<and> rapl_is_available st \<noteq> 0 \<and>
     metric_groups n ns d \<and> n * length ns \<le> MAX_EVENTS_NUMBER \<and> length (values d) = MAX_EVENTS_NUMBER \<and>
     length (epackage_before st) = MAX_SOCKETS \<and> length (edram_before st) = MAX_SOCKETS \<and>
     length (epackage_after st) = MAX_SOCKETS \<and> length (edram_after st) = MAX_SOCKETS"

lemma length_groups: "length (concat (map (socket_events n) ns)) = n * length ns"
  by (induction ns) simp_all

lemma nth_groups:
  "0 < n \<Longrightarrow> j < length ns \<Longrightarrow>
     concat (map (socket_events n) ns) ! (n * j) = ''package'' @ show_nat 0 @ '':'' @ (ns ! j)"
proof (induction ns arbitrary: j)
  case (Cons a ns)
  then show ?case by (cases j) (simp_all add: nth_append)
qed simp

lemma wf_events:
  assumes "rapl_wf n ns st d"
  shows "num_events d = n * length ns" "length (events d) = n * length ns" "n * length ns \<le> length (values d)"
  using assms by (simp_all add: rapl_wf_def metric_groups_def length_groups)

lemma group_event:
  assumes "rapl_wf n ns st d" "same_events d d'"
  shows "rapl_event d' (n * j) = (if j < length ns then Some (''package'' @ show_nat 0 @ '':'' @ (ns ! j)) else None)"
  using assms nth_groups [of n j ns] wf_events(2) [OF assms(1)]
  by (simp add: rapl_event_def rapl_wf_def metric_groups_def same_events_def)

lemma wf_same: "rapl_wf n ns st d \<Longrightarrow> same_events d d' \<Longrightarrow> rapl_wf n ns st d'"
  by (simp add: rapl_wf_def metric_groups_def same_events_def)

text \<open>
  One round from the start of a group: it ends at the start of a later group or at the end, and
  it is undefined exactly when it has written a last group of totals.
\<close>

lemma wf_group:
  assumes "rapl_wf n ns st d" "j < length ns" "length aft = MAX_SOCKETS" "length bef = MAX_SOCKETS"
  shows "\<exists>d'. rapl_group t (nat (num_sockets st)) aft bef (n * j) d = Some (n * Suc j, take n aft @ drop n bef, d') \<and> same_events d d'"
proof -
  have n: "n \<le> MAX_SOCKETS" "nat (num_sockets st) = n" using assms(1) by (simp_all add: rapl_wf_def)
  have "n * Suc j \<le> n * length ns" using assms(2) by (intro mult_le_mono2) simp
  then have i: "n * j + n \<le> length (values d)" using wf_events(3) [OF assms(1)] by simp
  obtain d' where d': "rapl_group t n aft bef (n * j) d = Some (n * j + n, take n aft @ drop n bef, d')"
    using rapl_group_total [OF assms(3,4) n(1) i, of t] by blast
  have "same_events d d'" using rapl_group_same [OF d'] by blast
  moreover have "n * j + n = n * Suc j" by simp
  ultimately show ?thesis using d' n(2) by metis
qed

lemma round_groups:
  assumes "rapl_wf n ns st d" "j < length ns"
  shows "case rapl_round t (n * j, st, d) of None \<Rightarrow> last ns = ''total_power''
    | Some (i', st', d') \<Rightarrow> \<exists>j' > j. i' = n * j' \<and> j' \<le> length ns \<and> (last ns = ''total_power'' \<longrightarrow> j' < length ns) \<and> rapl_wf n ns st' d'"
proof -
  have wf: "num_sockets st = int n" "n \<le> MAX_SOCKETS" "length (epackage_before st) = MAX_SOCKETS" "length (edram_before st) = MAX_SOCKETS"
    "length (epackage_after st) = MAX_SOCKETS" "length (edram_after st) = MAX_SOCKETS"
    using assms(1) by (simp_all add: rapl_wf_def)
  have total: "strstr (''package'' @ show_nat 0 @ '':total_power'') ''dram_power'' = None" by code_simp
  note names = socket_names [of 0, simplified] total
  have name: "ns ! k = ''total_power'' \<or> ns ! k = ''dram_power''" if "k < length ns" for k
    using assms(1) nth_mem [OF that] unfolding rapl_wf_def metric_groups_def by blast
  have last: "last ns = ns ! k" if "Suc k = length ns" for k
    using that by (cases ns rule: rev_cases) auto
  have e: "rapl_event d (n * j) = Some (''package'' @ show_nat 0 @ '':'' @ (ns ! j))"
    using group_event [OF assms(1), of d j] assms(2) by (simp add: same_events_def)
  show ?thesis
  proof (cases "ns ! j = ''total_power''")
    case True
    obtain d1 where g: "rapl_group t (nat (num_sockets st)) (epackage_after st) (epackage_before st) (n * j) d =
        Some (n * Suc j, take n (epackage_after st) @ drop n (epackage_before st), d1)" "same_events d d1"
      using wf_group [OF assms wf(5,3)] by blast
    define st1 where "st1 = st\<lparr>epackage_before := take n (epackage_after st) @ drop n (epackage_before st)\<rparr>"
    have wf1: "rapl_wf n ns st1 d1"
      using wf_same [OF assms(1) g(2)] wf(2,3,5) by (simp add: rapl_wf_def st1_def)
    have e1: "rapl_event d1 (n * Suc j) = (if Suc j < length ns then Some (''package'' @ show_nat 0 @ '':'' @ (ns ! Suc j)) else None)"
      by (rule group_event [OF assms(1) g(2)])
    consider "Suc j = length ns" | "Suc j < length ns" "ns ! Suc j = ''total_power''" | "Suc j < length ns" "ns ! Suc j = ''dram_power''"
      using assms(2) name [of "Suc j"] by linarith
    then show ?thesis
    proof cases
      case 1
      then have "rapl_round t (n * j, st, d) = None"
        using e e1 g(1) True names by (auto simp: rapl_round_def)
      then show ?thesis using last [OF 1] True by simp
    next
      case 2
      then have "rapl_round t (n * j, st, d) = Some (n * Suc j, st1, d1)"
        using e e1 g(1) True names by (auto simp: rapl_round_def st1_def)
      then show ?thesis using 2 wf1 by (auto intro!: exI [of _ "Suc j"])
    next
      case 3
      obtain d2 where h: "rapl_group t (nat (num_sockets st1)) (edram_after st1) (edram_before st1) (n * Suc j) d1 =
          Some (n * Suc (Suc j), take n (edram_after st1) @ drop n (edram_before st1), d2)" "same_events d1 d2"
        using wf_group [OF wf1 3(1), of "edram_after st1" "edram_before st1"] wf(4,6) by (auto simp: st1_def)
      then have "rapl_round t (n * j, st, d) = Some (n * Suc (Suc j), st1\<lparr>edram_before := take n (edram_after st1) @ drop n (edram_before st1)\<rparr>, d2)"
        using e e1 g(1) True 3 names by (auto simp: rapl_round_def st1_def)
      moreover have "rapl_wf n ns (st1\<lparr>edram_before := take n (edram_after st1) @ drop n (edram_before st1)\<rparr>) d2"
        using wf_same [OF wf1 h(2)] wf(2-6) by (simp add: rapl_wf_def st1_def)
      moreover have "last ns = ''total_power'' \<Longrightarrow> Suc (Suc j) < length ns"
        using 3 last [of "Suc j"] by (cases "Suc (Suc j) = length ns") auto
      ultimately show ?thesis using 3(1) by (auto intro!: exI [of _ "Suc (Suc j)"])
    qed
  next
    case False
    then have d: "ns ! j = ''dram_power''" using name assms(2) by blast
    obtain d1 where h: "rapl_group t (nat (num_sockets st)) (edram_after st) (edram_before st) (n * j) d =
        Some (n * Suc j, take n (edram_after st) @ drop n (edram_before st), d1)" "same_events d d1"
      using wf_group [OF assms wf(6,4)] by blast
    then have "rapl_round t (n * j, st, d) = Some (n * Suc j, st\<lparr>edram_before := take n (edram_after st) @ drop n (edram_before st)\<rparr>, d1)"
      using e d names by (auto simp: rapl_round_def)
    moreover have "rapl_wf n ns (st\<lparr>edram_before := take n (edram_after st) @ drop n (edram_before st)\<rparr>) d1"
      using wf_same [OF assms(1) h(2)] wf(2,4,6) by (simp add: rapl_wf_def)
    moreover have "last ns = ''total_power'' \<Longrightarrow> Suc j < length ns"
      using d last [of j] assms(2) by (cases "Suc j = length ns") auto
    ultimately show ?thesis using assms(2) by (auto intro!: exI [of _ "Suc j"])
  qed
qed

lemma rapl_fuel_groups:
  assumes "rapl_wf n ns st d" "j < length ns \<or> last ns \<noteq> ''total_power'' \<and> j = length ns" "length ns \<le> j + k"
  shows "if last ns = ''total_power'' then rapl_fuel k t (n * j, st, d) = Undefined
    else \<exists>st' d'. rapl_fuel k t (n * j, st, d) = Done (st', d') \<and> rapl_wf n ns st' d'"
  using assms
proof (induction k arbitrary: j st d)
  case 0
  then show ?case using wf_events(1) [OF 0(1)] by auto
next
  case (Suc k)
  show ?case
  proof (cases "j < length ns")
    case True
    have "0 < n" using Suc.prems(1) by (simp add: rapl_wf_def)
    then have i: "n * j < num_events d" using True wf_events(1) [OF Suc.prems(1)] by simp
    note r = round_groups [OF Suc.prems(1) True, of t]
    show ?thesis
    proof (cases "rapl_round t (n * j, st, d)")
      case None
      then show ?thesis using r i by simp
    next
      case (Some x)
      then obtain st' d' j' where x: "rapl_round t (n * j, st, d) = Some (n * j', st', d')" "j < j'" "j' \<le> length ns"
        "last ns = ''total_power'' \<longrightarrow> j' < length ns" "rapl_wf n ns st' d'"
        using r by (cases x) auto
      have j': "j' < length ns \<or> last ns \<noteq> ''total_power'' \<and> j' = length ns" "length ns \<le> j' + k"
        using x(2-4) Suc.prems(3) by auto
      from Suc.IH [OF x(5) j'] show ?thesis using i by (simp add: x(1))
    qed
  next
    case False
    then show ?thesis using Suc.prems wf_events(1) [OF Suc.prems(1)] by auto
  qed
qed

lemma rapl_rounds_groups:
  assumes "rapl_wf n ns st d" "ns \<noteq> []"
  shows "if last ns = ''total_power'' then rapl_rounds t (0, st, d) = None
    else \<exists>st' d'. rapl_rounds t (0, st, d) = Some (st', d') \<and> rapl_wf n ns st' d'"
  using rapl_fuel_groups [OF assms(1), of 0 "length ns" t] rapl_rounds_fuel [of "length ns" t "(0, st, d)"] assms(2)
  by (auto split: if_split_asm)

text \<open>
  \<open>PAPI_read\<close> fails or gives the two counters of every socket, which are the events that
  initialisation has added to the set.
\<close>

definition rapl_readable :: "nat \<Rightarrow> rapl_machine \<Rightarrow> bool" where
  "rapl_readable n m \<longleftrightarrow> (case rapl_counters m of None \<Rightarrow> True | Some vs \<Rightarrow> length vs = 2 * n)"

lemma store_energies_lengths:
  "foldM (store_energies den vs) js (ep, ed) = Some (ep', ed') \<Longrightarrow> length ep' = length ep \<and> length ed' = length ed"
  by (rule foldM_invariant [where P = "\<lambda>(x, y). length x = length ep \<and> length y = length ed" and s = "(ep, ed)" and t = "(ep', ed')", unfolded prod.case])
    (auto simp: store_energies_def split: if_split_asm)

lemma rapl_stat_lengths:
  "rapl_stat_read m st (ep, ed) = Some (rc, ep', ed') \<Longrightarrow> length ep' = length ep \<and> length ed' = length ed"
  by (auto simp: rapl_stat_read_def Option.bind_eq_Some_conv split: option.split_asm if_split_asm dest: store_energies_lengths)

lemma rapl_stat_readable:
  assumes "rapl_readable n m" "num_sockets st = int n" "n \<le> length ep" "n \<le> length ed"
  obtains rc ep' ed' where "rapl_stat_read m st (ep, ed) = Some (rc, ep', ed')"
proof (cases "rapl_counters m")
  case (Some vs)
  then have "length vs = 2 * n" using assms(1) by (simp add: rapl_readable_def)
  then show ?thesis using that Some store_all [of vs n n ep ed "denominator st"] assms(2-4)
    by (auto simp: rapl_stat_read_def)
qed (use that in \<open>simp add: rapl_stat_read_def\<close>)

lemma rapl_sample_groups:
  assumes "rapl_wf n ns st d" "ns \<noteq> []" "rapl_readable n m"
  shows "if last ns = ''total_power'' then mf_RAPL_power_sample m (st, d) = None
    else \<exists>st' d'. mf_RAPL_power_sample m (st, d) = Some (st', d') \<and> rapl_wf n ns st' d'"
proof -
  have wf: "num_sockets st = int n" "n \<le> length (epackage_after st)" "n \<le> length (edram_after st)" "rapl_is_available st \<noteq> 0"
    using assms(1) by (simp_all add: rapl_wf_def)
  obtain rc ep ed where r: "rapl_stat_read m st (epackage_after st, edram_after st) = Some (rc, ep, ed)"
    by (rule rapl_stat_readable [OF assms(3) wf(1-3)])
  let ?s = "st\<lparr>rapl_after := seconds (rapl_clock m), epackage_after := ep, edram_after := ed\<rparr>"
  have "rapl_wf n ns ?s d" using assms(1) rapl_stat_lengths [OF r] by (simp add: rapl_wf_def)
  from rapl_rounds_groups [OF this assms(2), of "fp_sub binary64 (seconds (rapl_clock m)) (rapl_before st)"] show ?thesis
    using r wf(4) by (auto simp: mf_RAPL_power_sample_def Let_def rapl_wf_def split: if_split_asm)
qed

lemma rapl_samples_groups:
  assumes "rapl_wf n ns st d" "ns \<noteq> []" "last ns \<noteq> ''total_power''" "\<forall>m \<in> set ms. rapl_readable n m"
  shows "\<exists>st' d'. foldM mf_RAPL_power_sample ms (st, d) = Some (st', d') \<and> rapl_wf n ns st' d'"
  using assms(1,4)
proof (induction ms arbitrary: st d)
  case (Cons m ms)
  then show ?case using rapl_sample_groups [OF Cons.prems(1) assms(2), of m] assms(3) by fastforce
qed simp

subsection \<open>After initialisation\<close>

lemma rapl_metrics_requested:
  "foldM (rapl_metric n) evs d = Some d' \<Longrightarrow>
     events d' = events d @ concat (map (socket_events n) (rapl_requested evs)) \<and> values d' = values d \<and>
     (length (events d) \<le> MAX_EVENTS_NUMBER \<longrightarrow> length (events d') \<le> MAX_EVENTS_NUMBER)"
proof (induction evs arbitrary: d)
  case (Cons e evs)
  then obtain d1 where d1: "rapl_metric n e d = Some d1" "foldM (rapl_metric n) evs d1 = Some d'"
    by (auto simp: Option.bind_eq_Some_conv)
  have "events d1 = events d @ concat (map (socket_events n) (rapl_requested [e])) \<and> values d1 = values d \<and>
     (length (events d) \<le> MAX_EVENTS_NUMBER \<longrightarrow> length (events d1) \<le> MAX_EVENTS_NUMBER)"
    using d1(1) add_events_Some [of "socket_events n e" d d1] add_events_length [of "socket_events n e" d d1]
    by (auto simp: rapl_metric_def rapl_requested_def Option.bind_eq_Some_conv split: if_split_asm)
  then show ?case using Cons.IH [OF d1(2)] by (auto simp: rapl_requested_def)
qed (simp add: rapl_requested_def)

lemma rapl_init_wf:
  assumes "mf_RAPL_power_init m evs (rapl_start, metrics_start) = Some (1, st, d)" "num_sockets st \<le> int MAX_SOCKETS"
  shows "rapl_wf (nat (num_sockets st)) (rapl_requested evs) st d \<and> rapl_requested evs \<noteq> [] \<and>
    denominator st \<in> {lit64 (153 / 10), lit64 1}"
proof -
  obtain st1 d1 rc ep ed where i: "rapl_init m evs (rapl_start, metrics_start) = Some (1, st1, d)" "num_events d \<noteq> 0"
    and r: "rapl_stat_read m (st1\<lparr>rapl_is_available := 1\<rparr>) (epackage_before st1, edram_before st1) = Some (rc, ep, ed)"
    and st: "st = st1\<lparr>rapl_is_available := 1, epackage_before := ep, edram_before := ed, rapl_before := seconds (rapl_clock m)\<rparr>"
    using assms(1) unfolding mf_RAPL_power_init_def rapl_init_def
    by (clarsimp simp: Option.bind_eq_Some_conv Let_def split: if_split_asm)
  let ?n = "nat (num_sockets st1)"
  from i(1) obtain d0 names where d0: "foldM (rapl_metric ?n) evs metrics_start = Some d0" "d = d0\<lparr>num_events := length (events d0)\<rparr>"
    and st1: "0 < num_sockets st1" "st1 = rapl_start\<lparr>num_sockets := num_sockets st1, named_events := names, denominator := rapl_get_denominator m\<rparr>"
    by (auto simp: rapl_init_def Let_def Option.bind_eq_Some_conv split: if_split_asm)
  have e: "events d = concat (map (socket_events ?n) (rapl_requested evs))" "length (values d) = MAX_EVENTS_NUMBER"
    "num_events d = length (events d)"
    using rapl_metrics_requested [OF d0(1)] by (simp_all add: metrics_start_def d0(2))
  have "length (events d) \<le> MAX_EVENTS_NUMBER" using rapl_metrics_requested [OF d0(1)] by (auto simp: metrics_start_def d0(2))
  then have l: "?n * length (rapl_requested evs) \<le> MAX_EVENTS_NUMBER" by (simp only: e(1) length_groups)
  have s: "epackage_before st1 = replicate MAX_SOCKETS fp_zero" "edram_before st1 = replicate MAX_SOCKETS fp_zero"
    "epackage_after st1 = replicate MAX_SOCKETS fp_zero" "edram_after st1 = replicate MAX_SOCKETS fp_zero"
    "denominator st1 = rapl_get_denominator m"
    by (subst st1(2), simp add: rapl_start_def Let_def)+
  have "set (rapl_requested evs) \<subseteq> {''total_power'', ''dram_power''}" by (auto simp: rapl_requested_def)
  then show ?thesis
    using assms(2) i(2) e l s st st1(1) rapl_stat_lengths [OF r]
    by (auto simp: rapl_wf_def metric_groups_def rapl_get_denominator_def)
qed

text \<open>
  C13. The loop of a sample has no increment of its own: a round that finds neither kind of
  metric at its index would be repeated for ever. After a successful initialisation on at most
  four sockets, when the last known metric requested is \<open>dram_power\<close>, every sequence of samples
  returns, whether the counters can be read or not; when the last one is \<open>total_power\<close>, already
  the first sample leaves the language, because it reads the name behind the last event.
\<close>

theorem RAPL_sample_terminates:
  assumes "mf_RAPL_power_init m0 evs (rapl_start, metrics_start) = Some (1, st, d)" "num_sockets st \<le> 4"
    "\<forall>m \<in> set ms. rapl_readable (nat (num_sockets st)) m"
  shows "if last (rapl_requested evs) = ''dram_power''
    then \<exists>st' d'. foldM mf_RAPL_power_sample ms (st, d) = Some (st', d') \<and> same_events d d'
    else ms = [] \<or> foldM mf_RAPL_power_sample ms (st, d) = None"
proof -
  let ?n = "nat (num_sockets st)" and ?ns = "rapl_requested evs"
  have wf: "rapl_wf ?n ?ns st d" "?ns \<noteq> []" using rapl_init_wf [OF assms(1)] assms(2) by (simp_all add: MAX_SOCKETS_def)
  then have "last ?ns \<in> set ?ns" by simp
  then have l: "last ?ns = ''total_power'' \<or> last ?ns = ''dram_power''" by (auto simp: rapl_requested_def)
  have same: "same_events d (snd x)" if "foldM mf_RAPL_power_sample ms (st, d) = Some x" for x
  proof (rule foldM_invariant [OF that, where P = "\<lambda>x. same_events d (snd x)"])
    fix m s s'
    assume "same_events d (snd s)" "mf_RAPL_power_sample m s = Some s'"
    then show "same_events d (snd s')"
      using rapl.sample_events [of m "fst s" "snd s" "fst s'" "snd s'"] same_events_trans by fastforce
  qed (simp add: same_events_def)
  show ?thesis
  proof (cases "last ?ns = ''dram_power''")
    case True
    then have "last ?ns \<noteq> ''total_power''" by simp
    from rapl_samples_groups [OF wf this assms(3)] same True show ?thesis by fastforce
  next
    case False
    then show ?thesis using l rapl_sample_groups [OF wf] assms(3) by (cases ms) auto
  qed
qed

text \<open>
  When only \<open>total_power\<close> is configured, sampling reads the name after the last event, which
  nothing has written.
\<close>

theorem RAPL_total_last_undefined:
  assumes "mf_RAPL_power_init m0 evs (rapl_start, metrics_start) = Some (1, st, d)" "num_sockets st \<le> 4"
    "rapl_requested evs = [''total_power'']" "rapl_readable (nat (num_sockets st)) m"
  shows "mf_RAPL_power_sample m (st, d) = None"
  using rapl_init_wf [OF assms(1)] rapl_sample_groups [OF _ _ assms(4)] assms(2,3) by (auto simp: MAX_SOCKETS_def)

subsection \<open>Constant power\<close>

lemma fp_sub_self: "fp_sub f (Fin s a) (Fin s a) = fp_zero"
  by (cases s) (simp_all add: fp_sub_def signed_def)

lemma package_energy_Fin: "\<exists>s a. package_energy v = Fin s a \<and> 0 \<le> a \<and> a \<le> 2 ^ 64"
proof -
  let ?q = "\<bar>of_int (sint v)\<bar> :: rat" and ?u = "rnd binary64 (1 / 10 ^ 6)"
  have "\<bar>sint v\<bar> \<le> 2 ^ 63" using sint_ge [of v] sint_lt [of v] by simp
  then have "of_int \<bar>sint v\<bar> \<le> (of_int (2 ^ 63) :: rat)" by (simp only: of_int_le_iff)
  then have q: "0 \<le> ?q" "?q \<le> 2 ^ 64" by simp_all
  have u: "0 \<le> ?u" "?u \<le> 1" using r64_below_nat [of "1 / 10 ^ 6" 1] by (simp_all add: rnd_nonneg)
  have r: "rnd binary64 ?q \<le> 2 ^ 64" "0 \<le> rnd binary64 ?q"
    using r64.absorbed [OF q rnd64_2_64] q by (simp_all add: rnd_nonneg)
  have i: "fp_of_int binary64 (sint v) = Fin (sint v < 0) (rnd binary64 ?q)"
    unfolding fp_of_int_def fp_of_rat_def of_int_less_0_iff by (rule fp_round64 [OF below_max64I [OF q]]) simp
  have l: "lit64 (1 / 10 ^ 6) = Fin False ?u" by (rule lit64_Fin) simp_all
  have p: "0 \<le> rnd binary64 ?q * ?u" "rnd binary64 ?q * ?u \<le> 2 ^ 64"
    using r u mult_mono [of "rnd binary64 ?q" "2 ^ 64" ?u 1] by simp_all
  have m: "fp_mul binary64 (fp_of_int binary64 (sint v)) (lit64 (1 / 10 ^ 6)) =
      Fin ((sint v < 0) \<noteq> False) (rnd binary64 (rnd binary64 ?q * ?u))"
    unfolding i l fp_mul.simps by (rule fp_round64 [OF below_max64I [OF p]]) simp
  have b: "rnd binary64 (rnd binary64 ?q * ?u) \<le> 2 ^ 64" "0 \<le> rnd binary64 (rnd binary64 ?q * ?u)"
    using r64.absorbed [OF p rnd64_2_64] p by (simp_all add: rnd_nonneg)
  have "rnd binary32 (2 ^ 64) = 2 ^ 64"
    by (rule r32.exact_id, unfold fp_repr_def, rule exI [of _ 1], rule exI [of _ 64]) (simp add: pow2_def binary32_def)
  then have c: "rnd binary32 (rnd binary64 (rnd binary64 ?q * ?u)) \<le> 2 ^ 64" by (rule r32.absorbed [OF b(2,1)])
  have "rnd binary64 (rnd binary64 ?q * ?u) \<le> 2 ^ 100" using b(1) by simp
  from fp_round32 [OF b(2) this] c show ?thesis unfolding package_energy_def m fp_conv.simps
    using b(2) by (auto simp: rnd_nonneg)
qed

lemma dram_energy_Fin:
  assumes "den \<in> {lit64 (153 / 10), lit64 1}"
  shows "\<exists>s a. dram_energy den v = Fin s a"
proof -
  obtain b where den: "den = Fin False b" "1 \<le> b"
    using assms lit64_Fin [of "153 / 10"] lit64_Fin [of 1] r64_above_nat [of 1 "153 / 10"] r64_above_nat [of 1 1] by auto
  obtain s a where e: "package_energy v = Fin s a" "0 \<le> a" "a \<le> 2 ^ 64" using package_energy_Fin by blast
  have "a / b \<le> a / 1" using e(2) den(2) by (intro divide_left_mono) simp_all
  then have q: "0 \<le> a / b" "a / b \<le> 2 ^ 64" using e den(2) by simp_all
  have "below_max64 (a / b)" by (rule below_max64I [OF q]) simp
  then have d: "fp_div binary64 (package_energy v) den = Fin s (rnd binary64 (a / b))"
    using den e(1) by (simp add: fp_round64)
  have "0 \<le> rnd binary64 (a / b)" "rnd binary64 (a / b) \<le> 2 ^ 100"
    using q r64.absorbed [OF q rnd64_2_64] by (simp_all add: rnd_nonneg)
  from fp_round32 [OF this] show ?thesis unfolding dram_energy_def d fp_conv.simps by blast
qed

lemma rapl_wf_ready: "rapl_wf n [''total_power'', ''dram_power''] st d \<Longrightarrow> rapl_ready n st d"
  by (simp add: rapl_wf_def rapl_ready_def metric_groups_def)

lemma rapl_sample_before: "mf_RAPL_power_sample m (st, d) = Some (st', d') \<Longrightarrow> rapl_before st' = seconds (rapl_clock m)"
  by (auto simp: mf_RAPL_power_sample_def Let_def Option.bind_eq_Some_conv split: if_split_asm)

lemma rapl_round_denominator: "rapl_round t s = Some s' \<Longrightarrow> denominator (fst (snd s')) = denominator (fst (snd s))"
  by (cases s) (auto simp: rapl_round_def Option.bind_eq_Some_conv split: if_split_asm)

lemma rapl_rounds_denominator:
  assumes "rapl_rounds t s = Some r"
  shows "denominator (fst r) = denominator (fst (snd s))"
proof (rule rapl_rounds.raw_induct [OF _ assms, where P = "\<lambda>t s r. denominator (fst r) = denominator (fst (snd s))"])
  fix loop t s r
  assume IH: "\<And>t s r. loop t s = Some r \<Longrightarrow> denominator (fst r) = denominator (fst (snd s))"
    and body: "(if fst s < num_events (snd (snd s)) then rapl_round t s \<bind> loop t else Some (snd s)) = Some r"
  then show "denominator (fst r) = denominator (fst (snd s))"
    by (auto simp: Option.bind_eq_Some_conv split: if_split_asm dest!: IH rapl_round_denominator)
qed

lemma rapl_sample_denominator:
  "mf_RAPL_power_sample m (st, d) = Some (st', d') \<Longrightarrow> denominator st' = denominator st"
  by (auto simp: mf_RAPL_power_sample_def Let_def Option.bind_eq_Some_conv split: if_split_asm dest!: rapl_rounds_denominator)

text \<open>
  C30. The plugin does not report the average power the comment of its sampling function
  announces: when \<open>total_power\<close> and then \<open>dram_power\<close> are requested and two successive samples
  read the same counters, that is, the same energy used in each interval (the counters are reset
  after every reading), the second reports 0 mW for every package and every memory, however
  large the energy: it subtracts the energies of the two intervals from each other.
\<close>

theorem RAPL_constant_power_reports_zero:
  assumes "mf_RAPL_power_init m0 evs (rapl_start, metrics_start) = Some (1, st, d)" "num_sockets st = int n" "n \<le> 4"
    "rapl_requested evs = [''total_power'', ''dram_power'']"
    "rapl_counters m1 = Some vs" "rapl_counters m2 = Some vs" "length vs = 2 * n"
    "fp_sub binary64 (seconds (rapl_clock m2)) (seconds (rapl_clock m1)) = Fin False q" "0 < q" "j < n"
  shows "\<exists>st1 d1 st2 d2. mf_RAPL_power_sample m1 (st, d) = Some (st1, d1) \<and> mf_RAPL_power_sample m2 (st1, d1) = Some (st2, d2) \<and>
    events d2 ! j = ''package'' @ show_nat j @ '':total_power'' \<and> values d2 ! j = Some fp_zero \<and>
    events d2 ! (n + j) = ''package'' @ show_nat j @ '':dram_power'' \<and> values d2 ! (n + j) = Some fp_zero"
proof -
  have "rapl_wf n [''total_power'', ''dram_power''] st d" and den: "denominator st \<in> {lit64 (153 / 10), lit64 1}"
    using rapl_init_wf [OF assms(1)] assms(2-4) by (simp_all add: MAX_SOCKETS_def)
  then have ready: "rapl_ready n st d" by (intro rapl_wf_ready)
  obtain st1 d1 where 1: "mf_RAPL_power_sample m1 (st, d) = Some (st1, d1)" "rapl_ready n st1 d1"
    and b: "epackage_before st1 ! j = package_energy (vs ! (2 * j))" "edram_before st1 ! j = dram_energy (denominator st) (vs ! (2 * j + 1))"
    using RAPL_sample [OF ready assms(5,7)] assms(10) by blast
  note now = rapl_sample_before [OF 1(1)] rapl_sample_denominator [OF 1(1)]
  obtain st2 d2 where 2: "mf_RAPL_power_sample m2 (st1, d1) = Some (st2, d2)" "rapl_ready n st2 d2"
    and v: "values d2 ! j = Some (power_over (fp_sub binary32 (package_energy (vs ! (2 * j))) (epackage_before st1 ! j))
        (fp_sub binary64 (seconds (rapl_clock m2)) (rapl_before st1)))"
      "values d2 ! (n + j) = Some (power_over (fp_sub binary32 (dram_energy (denominator st1) (vs ! (2 * j + 1))) (edram_before st1 ! j))
        (fp_sub binary64 (seconds (rapl_clock m2)) (rapl_before st1)))"
    using RAPL_sample [OF 1(2) assms(6,7)] assms(10) by blast
  have "fp_sub binary32 (package_energy (vs ! (2 * j))) (package_energy (vs ! (2 * j))) = fp_zero"
    using package_energy_Fin [of "vs ! (2 * j)"] fp_sub_self by metis
  moreover have "fp_sub binary32 (dram_energy (denominator st) (vs ! (2 * j + 1))) (dram_energy (denominator st) (vs ! (2 * j + 1))) = fp_zero"
    using dram_energy_Fin [OF den, of "vs ! (2 * j + 1)"] fp_sub_self by metis
  moreover have "events d2 ! j = ''package'' @ show_nat j @ '':total_power''" "events d2 ! (n + j) = ''package'' @ show_nat j @ '':dram_power''"
    using 2(2) assms(10) by (simp_all add: rapl_ready_def nth_append)
  ultimately show ?thesis using 1(1) 2(1) v b now assms(8,9) by (simp add: power_over_def)
qed

subsection \<open>Concrete runs\<close>

definition sample_rapl :: "int \<Rightarrow> rapl_machine" where
  "sample_rapl t = \<lparr>papi_loaded = True, papi_components = [(''rapl'', False)], sockets = Some 1,
     eventset_created = True, eventset_started = True, rapl_counters = Some [7, 8], cpuid_eax = 0,
     rapl_clock = \<lparr>sec = t, nsec = 0\<rparr>\<rparr>"

lemma sample_rapl_init:
  assumes "evs \<in> {[''total_power''], [''total_power'', ''dram_power'']}"
  obtains st d where "mf_RAPL_power_init (sample_rapl 1) evs (rapl_start, metrics_start) = Some (1, st, d)" "num_sockets st = 1"
proof -
  have s: "socket_events 1 ''total_power'' = [''package0:total_power'']" "socket_events 1 ''dram_power'' = [''package0:dram_power'']"
    "rapl_named_events 1 = [''PACKAGE_ENERGY:PACKAGE0'', ''DRAM_ENERGY:PACKAGE0'']" "strstr ''rapl'' ''rapl'' \<noteq> None"
    by code_simp+
  have "\<exists>st d. mf_RAPL_power_init (sample_rapl 1) evs (rapl_start, metrics_start) = Some (1, st, d) \<and> num_sockets st = 1"
    using assms s
    by (elim insertE emptyE; hypsubst)
      (simp_all add: mf_RAPL_power_init_def rapl_init_def sample_rapl_def hardware_sockets_count_def rapl_metric_def
        add_event_def metrics_start_def MAX_EVENTS_NUMBER_def MAX_EVENTS_LEN_def rapl_stat_read_def Let_def
        store_energies_def rapl_start_def MAX_SOCKETS_def c_store_def)
  then show ?thesis using that by blast
qed

lemma sample_rapl_readable: "rapl_counters (sample_rapl t) = Some [7, 8]" "rapl_readable 1 (sample_rapl t)"
  by (simp_all add: sample_rapl_def rapl_readable_def)

lemma requested_both: "rapl_requested [''total_power'', ''dram_power''] = [''total_power'', ''dram_power'']"
  by (simp add: rapl_requested_def)

theorem RAPL_sample_terminates_witness:
  "\<exists>st d st' d'. mf_RAPL_power_init (sample_rapl 1) [''total_power'', ''dram_power''] (rapl_start, metrics_start) = Some (1, st, d) \<and>
     foldM mf_RAPL_power_sample [sample_rapl 7, sample_rapl 9] (st, d) = Some (st', d')"
proof -
  obtain st d where i: "mf_RAPL_power_init (sample_rapl 1) [''total_power'', ''dram_power''] (rapl_start, metrics_start) = Some (1, st, d)"
    "num_sockets st = 1" using sample_rapl_init by blast
  from RAPL_sample_terminates [OF i(1), of "[sample_rapl 7, sample_rapl 9]"] i sample_rapl_readable(2)
  show ?thesis by (auto simp: requested_both)
qed

theorem RAPL_constant_power_reports_zero_witness:
  "\<exists>st d st1 d1 st2 d2. mf_RAPL_power_init (sample_rapl 1) [''total_power'', ''dram_power''] (rapl_start, metrics_start) = Some (1, st, d) \<and>
     mf_RAPL_power_sample (sample_rapl 7) (st, d) = Some (st1, d1) \<and> mf_RAPL_power_sample (sample_rapl 9) (st1, d1) = Some (st2, d2) \<and>
     values d2 ! 0 = Some fp_zero"
proof -
  obtain st d where i: "mf_RAPL_power_init (sample_rapl 1) [''total_power'', ''dram_power''] (rapl_start, metrics_start) = Some (1, st, d)"
    "num_sockets st = 1" using sample_rapl_init by blast
  have "fp_sub binary64 (seconds (rapl_clock (sample_rapl 9))) (seconds (rapl_clock (sample_rapl 7))) = Fin False (of_nat 2)"
    using seconds_whole [of 9] seconds_whole [of 7] fp_sub_nat [of 7 9] by (simp add: sample_rapl_def)
  from RAPL_constant_power_reports_zero [OF i(1) _ _ requested_both sample_rapl_readable(1) sample_rapl_readable(1) _ this, of 1 0] i
  show ?thesis by auto
qed

theorem RAPL_total_last_undefined_witness:
  "\<exists>st d. mf_RAPL_power_init (sample_rapl 1) [''total_power''] (rapl_start, metrics_start) = Some (1, st, d) \<and>
     mf_RAPL_power_sample (sample_rapl 9) (st, d) = None"
proof -
  obtain st d where i: "mf_RAPL_power_init (sample_rapl 1) [''total_power''] (rapl_start, metrics_start) = Some (1, st, d)"
    "num_sockets st = 1" using sample_rapl_init by blast
  from RAPL_total_last_undefined [OF i(1), of "sample_rapl 9"] i sample_rapl_readable(2)
  show ?thesis by (auto simp: rapl_requested_def)
qed

end
