(* ===== verification/NVML.thy ===== *)
theory NVML
  imports CPU_Perf
begin

text \<open>
  The NVML connector, \<^verbatim>\<open>plugins/NVML/src/mf_NVML_connector.c\<close>: usage, memory, PCIe
  traffic, temperature and power of each GPU. The NVML library is a parameter: an \<open>nvml\<close> holds
  what its calls return, \<open>None\<close> standing for any code other than \<open>NVML_SUCCESS\<close>.
\<close>

record nvml =
  nvml_loaded :: bool
  nvml_device_count :: "nat option"
  nvml_handle :: "nat \<Rightarrow> int option"
  nvml_utilization :: "int \<Rightarrow> (32 word \<times> 32 word) option"
  nvml_memory :: "int \<Rightarrow> (u64 \<times> u64) option"
  nvml_pcie_tx :: "int \<Rightarrow> 32 word option"
  nvml_pcie_rx :: "int \<Rightarrow> 32 word option"
  nvml_temperature :: "int \<Rightarrow> 32 word option"
  nvml_power :: "int \<Rightarrow> 32 word option"

definition NVML_EVENTS_NUM :: nat where "NVML_EVENTS_NUM = 7"

definition NVML_metrics :: "cstr list" where
  "NVML_metrics = [''gpu_usage_rate'', ''mem_usage_rate'', ''mem_allocated'',
     ''PCIe_snd_throughput'', ''PCIe_rcv_throughput'', ''temperature'', ''power'']"

record nvml_state =
  devices_count :: nat
  devices :: "int list"

definition nvml_start :: nvml_state where
  "nvml_start = \<lparr>devices_count = 0, devices = []\<rparr>"

text \<open>The check of the requested metrics is the loop of the CPU_perf connector.\<close>

definition NVML_events_are_all_not_valid :: "cstr list \<Rightarrow> bool" where
  "NVML_events_are_all_not_valid evs = events_are_all_not_valid NVML_metrics evs"

subsection \<open>Initialisation\<close>

definition nvml_event_name :: "nat \<Rightarrow> nat \<Rightarrow> cstr" where
  "nvml_event_name i j = ''GPU'' @ show_nat i @ '':'' @ NVML_metrics ! j"

text \<open>The handles up to the first failure, and whether there was none.\<close>

fun get_handles :: "nvml \<Rightarrow> nat list \<Rightarrow> int list \<Rightarrow> bool \<times> int list" where
  "get_handles m [] hs = (True, hs)"
| "get_handles m (i # is) hs =
     (case nvml_handle m i of None \<Rightarrow> (False, hs) | Some h \<Rightarrow> get_handles m is (hs @ [h]))"

definition mf_NVML_init ::
  "nvml \<Rightarrow> cstr list \<Rightarrow> nvml_state \<times> Plugin_metrics \<Rightarrow> (int \<times> nvml_state \<times> Plugin_metrics) option" where
  "mf_NVML_init m evs = (\<lambda>(st, d).
     if NVML_events_are_all_not_valid evs then Some (0, st, d)
     else if \<not> nvml_loaded m then Some (0, st, d)
     else case nvml_device_count m of None \<Rightarrow> Some (0, st, d)
     | Some n \<Rightarrow> do {
         d1 \<leftarrow> foldM add_event (map (\<lambda>(i, j). nvml_event_name i j) (List.product [0..<n] [0..<NVML_EVENTS_NUM])) d;
         (let (ok, hs) = get_handles m [0..<n] [] in
          Some (if ok then 1 else 0, st\<lparr>devices_count := n, devices := hs\<rparr>, d1\<lparr>num_events := length (events d1)\<rparr>))
       })"

subsection \<open>Sampling\<close>

definition FAILED :: cfp where "FAILED = Fin True 1"

text \<open>\<open>(float) x * 1.0\<close> and \<open>(float) x / 0.020\<close> of an \<open>unsigned int\<close>, stored as a \<open>float\<close>.\<close>

definition as_float :: "32 word \<Rightarrow> cfp" where
  "as_float x = fp_conv binary32 (fp_mul binary64 (fp_of_int binary32 (uint x)) (lit64 1))"

definition per_second_20ms :: "32 word \<Rightarrow> cfp" where
  "per_second_20ms x = fp_conv binary32 (fp_div binary64 (fp_of_int binary32 (uint x)) (lit64 (2 / 100)))"

definition mem_allocated :: "u64 \<Rightarrow> u64 \<Rightarrow> cfp" where
  "mem_allocated used tot = fp_conv binary32
     (fp_div binary64 (fp_mul binary64 (fp_of_u64 binary32 used) (lit64 100)) (fp_of_u64 binary64 tot))"

text \<open>The seven values of one device; \<open>nvml_memory\<close> gives the total and the used memory.\<close>

definition nvml_values :: "nvml \<Rightarrow> int \<Rightarrow> cfp list" where
  "nvml_values m h =
     (case nvml_utilization m h of None \<Rightarrow> [FAILED, FAILED] | Some (gpu, memory) \<Rightarrow> [as_float gpu, as_float memory]) @
     [case nvml_memory m h of None \<Rightarrow> FAILED | Some (tot, used) \<Rightarrow> mem_allocated used tot,
      case nvml_pcie_tx m h of None \<Rightarrow> FAILED | Some b \<Rightarrow> per_second_20ms b,
      case nvml_pcie_rx m h of None \<Rightarrow> FAILED | Some b \<Rightarrow> per_second_20ms b,
      case nvml_temperature m h of None \<Rightarrow> FAILED | Some t \<Rightarrow> as_float t,
      case nvml_power m h of None \<Rightarrow> FAILED | Some p \<Rightarrow> as_float p]"

definition nvml_device :: "nvml \<Rightarrow> nvml_state \<Rightarrow> nat \<Rightarrow> nat \<times> Plugin_metrics \<Rightarrow> (nat \<times> Plugin_metrics) option" where
  "nvml_device m st i = (\<lambda>(j, d).
     if length (devices st) \<le> i then None else put_values (nvml_values m (devices st ! i)) j d)"

definition mf_NVML_sample ::
  "nvml \<Rightarrow> nvml_state \<times> Plugin_metrics \<Rightarrow> (nvml_state \<times> Plugin_metrics) option" where
  "mf_NVML_sample m = (\<lambda>(st, d). do {
     (_, d') \<leftarrow> foldM (nvml_device m st) [0..<devices_count st] (0, d);
     Some (st, d')
   })"

text \<open>
  An event is selected by the part of its name after the first colon, which every name that
  \<open>mf_NVML_init\<close> makes has.
\<close>

definition nvml_matches :: "cstr \<Rightarrow> cstr \<Rightarrow> bool" where
  "nvml_matches name e = (case strstr name '':'' of None \<Rightarrow> False | Some sub_part \<Rightarrow> tl sub_part = e)"

definition mf_NVML_to_json :: "timestamp \<Rightarrow> Plugin_metrics \<Rightarrow> cstr list \<Rightarrow> cstr option" where
  "mf_NVML_to_json t d evs = do {
     json \<leftarrow> json_begin ''NVML'' (milliseconds t);
     json_selected nvml_matches (\<lambda>v. fp_le fp_zero v) d evs json
   }"


subsection \<open>Values and names agree\<close>

lemma length_nvml_values [simp]: "length (nvml_values m h) = NVML_EVENTS_NUM"
  by (auto simp: nvml_values_def NVML_EVENTS_NUM_def split: option.split)

lemma get_handles_all:
  "get_handles m is hs = (True, hs') \<Longrightarrow> hs' = hs @ map (the \<circ> nvml_handle m) is \<and> (\<forall>i \<in> set is. nvml_handle m i \<noteq> None)"
  by (induction m "is" hs rule: get_handles.induct) (auto split: option.split_asm)

lemma nvml_devices_values:
  assumes "n \<le> length (devices st)" "j + 7 * n \<le> length (values d)"
  shows "\<exists>d'. foldM (nvml_device m st) [0..<n] (j, d) = Some (j + 7 * n, d') \<and> same_events d d' \<and>
    (\<forall>i < n. \<forall>k < 7. values d' ! (j + 7 * i + k) = Some (nvml_values m (devices st ! i) ! k))"
  using assms
proof (induction n)
  case (Suc n)
  then obtain d1 where d1: "foldM (nvml_device m st) [0..<n] (j, d) = Some (j + 7 * n, d1)" "same_events d d1"
    "\<forall>i < n. \<forall>k < 7. values d1 ! (j + 7 * i + k) = Some (nvml_values m (devices st ! i) ! k)" by auto
  obtain d2 where d2: "put_values (nvml_values m (devices st ! n)) (j + 7 * n) d1 = Some (j + 7 * n + 7, d2)"
    using put_values_fits [of "j + 7 * n" "nvml_values m (devices st ! n)" d1] Suc.prems d1(2)
    by (auto simp: NVML_EVENTS_NUM_def same_events_def)
  have step: "foldM (nvml_device m st) [0..<Suc n] (j, d) = Some (j + 7 * Suc n, d2)"
    using d1(1) d2 Suc.prems by (simp add: foldM_append nvml_device_def)
  have "values d2 ! (j + 7 * i + k) = Some (nvml_values m (devices st ! i) ! k)" if "i < Suc n" "k < 7" for i k
  proof (cases "i = n")
    case True
    then show ?thesis using put_values_spec [OF d2] that by (simp add: NVML_EVENTS_NUM_def)
  next
    case False
    then have "j + 7 * i + k < j + 7 * n" using that by simp
    then show ?thesis using put_values_spec [OF d2] d1(3) that False by simp
  qed
  moreover have "same_events d d2" using d1(2) put_values_spec [OF d2] same_events_trans by blast
  ultimately show ?case using step by blast
qed simp

lemma nvml_device_same: "nvml_device m st i (j, d) = Some (j', d') \<Longrightarrow> same_events d d'"
  using put_values_spec by (fastforce simp: nvml_device_def split: if_split_asm)

lemma nvml_devices_same:
  "foldM (nvml_device m st) is (j, d) = Some (j', d') \<Longrightarrow> same_events d d'"
proof (induction "is" arbitrary: j d)
  case (Cons i js)
  then obtain k e where "nvml_device m st i (j, d) = Some (k, e)" "foldM (nvml_device m st) js (k, e) = Some (j', d')"
    by (auto simp: Option.bind_eq_Some_conv)
  with Cons.IH nvml_device_same same_events_trans show ?case by blast
qed simp

interpretation nvml: connector mf_NVML_sample
  by unfold_locales (auto simp: mf_NVML_sample_def Option.bind_eq_Some_conv dest: nvml_devices_same)

lemma product_index_7:
  "i < n \<Longrightarrow> k < 7 \<Longrightarrow> List.product [0..<n] [0..<NVML_EVENTS_NUM] ! (7 * i + k) = (i, k)"
  by (subst product_nth) (simp_all add: NVML_EVENTS_NUM_def)

lemma nvml_init_facts:
  assumes "mf_NVML_init m evs (st0, metrics_start) = Some (1, st, d)"
  obtains n where "nvml_device_count m = Some n" "devices_count st = n" "devices st = map (the \<circ> nvml_handle m) [0..<n]"
    "\<forall>i < n. nvml_handle m i \<noteq> None" "7 * n \<le> MAX_EVENTS_NUMBER"
    "events d = map (\<lambda>(i, j). nvml_event_name i j) (List.product [0..<n] [0..<NVML_EVENTS_NUM])"
    "num_events d = 7 * n" "length (values d) = MAX_EVENTS_NUMBER"
proof -
  obtain n where n: "nvml_device_count m = Some n"
    using assms by (auto simp: mf_NVML_init_def split: if_split_asm option.split_asm)
  obtain ok hs where h: "get_handles m [0..<n] [] = (ok, hs)" by (cases "get_handles m [0..<n] []")
  let ?names = "map (\<lambda>(i, j). nvml_event_name i j) (List.product [0..<n] [0..<NVML_EVENTS_NUM])"
  obtain d1 where d1: "foldM add_event ?names metrics_start = Some d1" and ok: "ok"
    and st: "st = st0\<lparr>devices_count := n, devices := hs\<rparr>" and d: "d = d1\<lparr>num_events := length (events d1)\<rparr>"
    using assms n h by (auto simp: mf_NVML_init_def Let_def Option.bind_eq_Some_conv split: if_split_asm)
  have e: "events d1 = ?names" "values d1 = values metrics_start"
    using add_events_Some [OF d1] by (simp_all add: metrics_start_def)
  have "length (events d1) \<le> MAX_EVENTS_NUMBER"
    using add_events_length [OF d1] by (simp add: metrics_start_def)
  then have "7 * n \<le> MAX_EVENTS_NUMBER" using e(1) by (simp add: NVML_EVENTS_NUM_def)
  then show ?thesis using that n st d e get_handles_all [of m "[0..<n]" "[]" hs] h ok
    by (simp add: NVML_EVENTS_NUM_def metrics_start_def)
qed

subsection \<open>What each metric should report\<close>

text \<open>
  The value of a metric by its name: a percentage, a temperature or a power as the \<open>float\<close>
  nearest to the number the library gives, the share of the used memory in percent, the bytes of
  20 ms times 50, and -1 for a query that failed.
\<close>

definition gauge :: "32 word option \<Rightarrow> cfp" where
  "gauge r = (case r of None \<Rightarrow> Fin True 1 | Some x \<Rightarrow> fp_of_int binary32 (uint x))"

definition traffic :: "32 word option \<Rightarrow> cfp" where
  "traffic r = (case r of None \<Rightarrow> Fin True 1
     | Some b \<Rightarrow> fp_conv binary32 (fp_div binary64 (fp_of_int binary32 (uint b)) (lit64 (20 / 1000))))"

definition memory_share :: "(u64 \<times> u64) option \<Rightarrow> cfp" where
  "memory_share r = (case r of None \<Rightarrow> Fin True 1
     | Some (tot, used) \<Rightarrow> fp_conv binary32 (fp_div binary64 (fp_mul binary64 (fp_of_u64 binary32 used) (lit64 100)) (fp_of_u64 binary64 tot)))"

definition gpu_reading :: "nvml \<Rightarrow> int \<Rightarrow> cstr \<Rightarrow> cfp" where
  "gpu_reading m h name =
     (if name = ''gpu_usage_rate'' then gauge (map_option fst (nvml_utilization m h))
      else if name = ''mem_usage_rate'' then gauge (map_option snd (nvml_utilization m h))
      else if name = ''mem_allocated'' then memory_share (nvml_memory m h)
      else if name = ''PCIe_snd_throughput'' then traffic (nvml_pcie_tx m h)
      else if name = ''PCIe_rcv_throughput'' then traffic (nvml_pcie_rx m h)
      else if name = ''temperature'' then gauge (nvml_temperature m h)
      else gauge (nvml_power m h))"

lemma as_float_nearest: "as_float x = fp_of_int binary32 (uint x)"
proof -
  define r where "r = (of_int (uint x) :: rat)"
  let ?q = "rnd binary32 r"
  have "0 \<le> uint x" "uint x \<le> 2 ^ 32" using unsigned_less [of x, where ?'a = int] by simp_all
  then have "0 \<le> r" "r \<le> of_int (2 ^ 32)" unfolding r_def by (simp_all only: of_int_0_le_iff of_int_le_iff)
  then have x: "0 \<le> r" "r \<le> 2 ^ 32" by simp_all
  have "fp_repr binary32 (2 ^ 32)"
    unfolding fp_repr_def by (rule exI [of _ 1], rule exI [of _ 32]) (simp add: pow2_def binary32_def)
  then have q: "0 \<le> ?q" "?q \<le> 2 ^ 32" using r32.below x by (simp_all add: rnd_nonneg)
  have f: "fp_of_int binary32 (uint x) = Fin False ?q"
    using fp_round32 [OF x(1)] x unfolding fp_of_int_def fp_of_rat_def r_def [symmetric] by simp
  have "below_max64 ?q" by (rule below_max64I [OF q]) simp
  then have "fp_round binary64 False ?q = Fin False ?q"
    using fp_round64 rnd_repr [OF rnd32_in_64 [OF x(1)]] by simp
  moreover have "fp_round binary32 False ?q = Fin False ?q"
    using fp_round32 [OF q(1)] q(2) rnd_repr [OF rnd_exact [OF wf_binary(1) x(1)]] by simp
  moreover have "lit64 1 = Fin False 1" using lit64_Fin [of 1] r64.exact_id [OF fp_repr_nat64 [of 1]] by simp
  ultimately show ?thesis by (simp add: as_float_def f)
qed

lemma reading_by_name:
  assumes "name \<in> {''gpu_usage_rate'', ''mem_usage_rate'', ''mem_allocated'', ''PCIe_snd_throughput'',
    ''PCIe_rcv_throughput'', ''temperature'', ''power''}"
  shows "\<exists>k < 7. NVML_metrics ! k = name \<and> (\<forall>m h. nvml_values m h ! k = gpu_reading m h name)"
proof -
  have e: "lit64 (2 / 100) = lit64 (20 / 1000)" by simp
  have g: "gauge r = (case r of None \<Rightarrow> FAILED | Some x \<Rightarrow> as_float x)" for r
    by (simp add: gauge_def as_float_nearest FAILED_def split: option.split)
  have t: "traffic r = (case r of None \<Rightarrow> FAILED | Some x \<Rightarrow> per_second_20ms x)" for r
    by (simp only: traffic_def per_second_20ms_def FAILED_def e)
  have s: "memory_share r = (case r of None \<Rightarrow> FAILED | Some (tot, used) \<Rightarrow> mem_allocated used tot)" for r
    by (simp only: memory_share_def mem_allocated_def FAILED_def)
  have v: "nvml_values m h = [gauge (map_option fst (nvml_utilization m h)), gauge (map_option snd (nvml_utilization m h)),
      memory_share (nvml_memory m h), traffic (nvml_pcie_tx m h), traffic (nvml_pcie_rx m h), gauge (nvml_temperature m h), gauge (nvml_power m h)]" for m h
    by (auto simp: nvml_values_def g t s split: option.split)
  show ?thesis using assms unfolding v
    by (elim insertE emptyE; hypsubst)
      (rule exI [of _ 0], simp add: NVML_metrics_def gpu_reading_def, rule exI [of _ 1], simp add: NVML_metrics_def gpu_reading_def,
       rule exI [of _ 2], simp add: NVML_metrics_def gpu_reading_def, rule exI [of _ 3], simp add: NVML_metrics_def gpu_reading_def,
       rule exI [of _ 4], simp add: NVML_metrics_def gpu_reading_def, rule exI [of _ 5], simp add: NVML_metrics_def gpu_reading_def,
       rule exI [of _ 6], simp add: NVML_metrics_def gpu_reading_def)
qed

text \<open>
  C31. Initialisation succeeds with at most four GPUs. A sample afterwards stores, for every GPU
  and each of the seven metrics, at the index of the event \<open>GPU<i>:<metric>\<close> the value that
  metric should have by its name: the GPU and the memory part of the utilisation, the share of
  the memory in use, the bytes sent and the bytes received per second, the temperature and the
  power, each from that GPU's query, and -1 when the query fails.
\<close>

theorem NVML_sample_correct:
  assumes "mf_NVML_init m0 evs (st0, metrics_start) = Some (1, st, d)" "i < devices_count st"
    "name \<in> {''gpu_usage_rate'', ''mem_usage_rate'', ''mem_allocated'', ''PCIe_snd_throughput'',
      ''PCIe_rcv_throughput'', ''temperature'', ''power''}"
  shows "devices_count st \<le> 4 \<and> (\<exists>d'. mf_NVML_sample m (st, d) = Some (st, d') \<and> same_events d d' \<and>
    (\<exists>n < num_events d. events d' ! n = ''GPU'' @ show_nat i @ '':'' @ name \<and>
      values d' ! n = Some (gpu_reading m (the (nvml_handle m0 i)) name)))"
proof -
  from assms(1) obtain n where n: "devices_count st = n" "devices st = map (the \<circ> nvml_handle m0) [0..<n]"
    "7 * n \<le> MAX_EVENTS_NUMBER" "events d = map (\<lambda>(i, j). nvml_event_name i j) (List.product [0..<n] [0..<NVML_EVENTS_NUM])"
    "length (values d) = MAX_EVENTS_NUMBER" "num_events d = 7 * n"
    by (rule nvml_init_facts)
  obtain k where k: "k < 7" "NVML_metrics ! k = name" "\<And>h. nvml_values m h ! k = gpu_reading m h name"
    using reading_by_name [OF assms(3)] by blast
  obtain d' where d': "foldM (nvml_device m st) [0..<n] (0, d) = Some (7 * n, d')" "same_events d d'"
    "\<forall>i < n. \<forall>k < 7. values d' ! (7 * i + k) = Some (nvml_values m (devices st ! i) ! k)"
    using nvml_devices_values [of n st 0 d m] n by auto
  have l: "7 * i + k < n * 7" using assms(2) k(1) n(1) by simp
  then have "events d' ! (7 * i + k) = nvml_event_name i k"
    using d'(2) n(1,4) assms(2) k(1) product_index_7 [of i n k] by (simp add: same_events_def NVML_EVENTS_NUM_def)
  moreover have "devices st ! i = the (nvml_handle m0 i)" using n(1,2) assms(2) by simp
  ultimately have "events d' ! (7 * i + k) = ''GPU'' @ show_nat i @ '':'' @ name"
    "values d' ! (7 * i + k) = Some (gpu_reading m (the (nvml_handle m0 i)) name)"
    using d'(3) n(1) assms(2) k by (simp_all add: nvml_event_name_def)
  moreover have "mf_NVML_sample m (st, d) = Some (st, d')" using d'(1) n(1) by (simp add: mf_NVML_sample_def)
  moreover have "7 * i + k < num_events d" using l n(6) by simp
  moreover have "devices_count st \<le> 4" using n(1,3) by (simp add: MAX_EVENTS_NUMBER_def)
  ultimately show ?thesis using d'(2) by blast
qed

text \<open>
  More than four GPUs overflow the 32 event names: initialisation, which never compares the
  number of events with the size of the array, leaves the language.
\<close>

theorem NVML_five_GPUs_overflow:
  assumes "\<not> NVML_events_are_all_not_valid evs" "nvml_loaded m" "nvml_device_count m = Some n" "4 < n"
  shows "mf_NVML_init m evs (st, metrics_start) = None"
proof (rule ccontr)
  let ?names = "map (\<lambda>(i, j). nvml_event_name i j) (List.product [0..<n] [0..<NVML_EVENTS_NUM])"
  assume "mf_NVML_init m evs (st, metrics_start) \<noteq> None"
  then obtain d1 where d1: "foldM add_event ?names metrics_start = Some d1"
    using assms by (auto simp: mf_NVML_init_def Option.bind_eq_Some_conv)
  have "length (events d1) \<le> MAX_EVENTS_NUMBER"
    using add_events_length [OF d1] by (simp add: metrics_start_def)
  moreover have "length (events d1) = 7 * n"
    using add_events_Some [OF d1] by (simp add: metrics_start_def NVML_EVENTS_NUM_def)
  ultimately show False using assms(4) by (simp add: MAX_EVENTS_NUMBER_def)
qed

subsection \<open>Concrete runs\<close>

definition sample_nvml :: "nat \<Rightarrow> nvml" where
  "sample_nvml n = \<lparr>nvml_loaded = True, nvml_device_count = Some n, nvml_handle = (\<lambda>i. Some (int i)),
     nvml_utilization = (\<lambda>_. None), nvml_memory = (\<lambda>_. Some (8, 4)), nvml_pcie_tx = (\<lambda>_. Some 5),
     nvml_pcie_rx = (\<lambda>_. None), nvml_temperature = (\<lambda>_. Some 60), nvml_power = (\<lambda>_. Some 9)\<rparr>"

lemma power_valid: "\<not> NVML_events_are_all_not_valid [''power'']"
  by code_simp

theorem NVML_sample_correct_witness:
  "\<exists>st d d'. mf_NVML_init (sample_nvml 1) [''power''] (nvml_start, metrics_start) = Some (1, st, d) \<and>
     mf_NVML_sample (sample_nvml 1) (st, d) = Some (st, d') \<and>
     (\<exists>n. events d' ! n = ''GPU0:PCIe_rcv_throughput'' \<and> values d' ! n = Some (Fin True 1))"
proof -
  have l: "\<forall>j \<in> {0, 1, 2, 3, 4, 5, 6}. length (nvml_event_name 0 j) < 32" by code_simp
  have u: "[0..<NVML_EVENTS_NUM] = [0, 1, 2, 3, 4, 5, 6]" by (simp add: NVML_EVENTS_NUM_def upt_rec numeral_eq_Suc)
  obtain d1 where d1: "foldM add_event (map (\<lambda>(i, j). nvml_event_name i j) (List.product [0..<1] [0..<NVML_EVENTS_NUM])) metrics_start = Some d1"
    using l by (simp add: u add_event_def metrics_start_def MAX_EVENTS_NUMBER_def MAX_EVENTS_LEN_def)
  have h: "get_handles (sample_nvml 1) [0..<1] [] = (True, [0])" by (simp add: sample_nvml_def)
  obtain st d where i: "mf_NVML_init (sample_nvml 1) [''power''] (nvml_start, metrics_start) = Some (1, st, d)"
    using d1 h power_valid by (simp add: mf_NVML_init_def Let_def) (simp add: sample_nvml_def)
  have "0 < devices_count st" by (rule nvml_init_facts [OF i]) (simp add: sample_nvml_def)
  have nm: "''GPU'' @ show_nat 0 @ '':'' @ ''PCIe_rcv_throughput'' = ''GPU0:PCIe_rcv_throughput''" by code_simp
  have g: "gpu_reading (sample_nvml 1) h ''PCIe_rcv_throughput'' = Fin True 1" for h
    by (simp add: gpu_reading_def traffic_def sample_nvml_def)
  from NVML_sample_correct [OF i \<open>0 < devices_count st\<close>, of "''PCIe_rcv_throughput''" "sample_nvml 1"] i g nm show ?thesis by fastforce
qed

theorem NVML_five_GPUs_overflow_witness:
  "mf_NVML_init (sample_nvml 5) [''power''] (nvml_start, metrics_start) = None"
  by (rule NVML_five_GPUs_overflow [OF power_valid, of _ 5]) (simp_all add: sample_nvml_def)

end
