(* ===== verification/Board_Power.thy ===== *)
theory Board_Power
  imports Plugin_Metrics
begin

text \<open>
  The Board_power connector, \<^verbatim>\<open>plugins/Board_power/src/mf_Board_power_connector.c\<close>: current,
  voltage and power of the devices of an ACME board. The IIO library is a parameter: the devices
  and channels of the context it opens, the results of its calls, and the samples each refilled
  buffer delivers to the callback \<open>print_sample\<close>.
\<close>

record iio_channel =
  ch_ref :: int
  ch_id :: cstr
  ch_scale :: "cstr option"

text \<open>
  \<open>dev_frequency\<close> is the result of reading \<open>in_sampling_frequency\<close>: the code and the text it
  has put into the buffer when the code is positive.
\<close>

record iio_device =
  dev_name :: cstr
  dev_id :: cstr
  dev_oversampling :: int
  dev_frequency :: "int \<times> cstr"
  dev_channels :: "iio_channel list"
  dev_buffer :: bool

record iio =
  iio_context :: "cstr \<Rightarrow> iio_device option list option"

definition MAX_DEVICES :: nat where "MAX_DEVICES = 8"
definition MAX_CHANNELS :: nat where "MAX_CHANNELS = 5"

record my_channel =
  chn_label :: cstr
  chn_unit :: cstr
  chn_scale :: cfp
  chn_value :: cfp
  chn_iio :: "int option"

record board_state =
  devices :: "iio_device list"
  nb_devices :: nat
  nb_channels :: nat
  sampling_freq :: "nat \<Rightarrow> int"
  nb_samples :: "nat \<Rightarrow> int"
  my_chn :: "nat \<Rightarrow> nat \<Rightarrow> my_channel"

definition board_start :: board_state where
  "board_start = \<lparr>devices = [], nb_devices = 0, nb_channels = 0, sampling_freq = (\<lambda>_. 0), nb_samples = (\<lambda>_. 0),
     my_chn = (\<lambda>_ _. \<lparr>chn_label = [], chn_unit = [], chn_scale = fp_zero, chn_value = fp_zero, chn_iio = None\<rparr>)\<rparr>"

subsection \<open>Initialisation\<close>

definition channel_label :: "nat \<Rightarrow> cstr \<Rightarrow> my_channel \<Rightarrow> my_channel" where
  "channel_label device_idx ident c =
     (let dev = ''device'' @ show_nat device_idx in
      if strncmp_eq ident ''power'' 5 then c\<lparr>chn_label := dev @ '':power'', chn_unit := ''mW''\<rparr>
      else if strncmp_eq ident ''current'' 6 then c\<lparr>chn_label := dev @ '':current'', chn_unit := ''mA''\<rparr>
      else if strncmp_eq ident ''voltage1'' 8 then c\<lparr>chn_label := dev @ '':vbus'', chn_unit := ''mV''\<rparr>
      else if strncmp_eq ident ''voltage0'' 8 then c\<lparr>chn_label := dev @ '':vshunt'', chn_unit := ''mV''\<rparr>
      else c)"

definition init_channel :: "nat \<Rightarrow> nat \<times> iio_channel \<Rightarrow> board_state \<Rightarrow> board_state option" where
  "init_channel device_idx = (\<lambda>(i, ch) st. do {
     s \<leftarrow> (case ch_scale ch of None \<Rightarrow> Some (lit64 1) | Some t \<Rightarrow> atof t);
     (let c = channel_label device_idx (ch_id ch)
            ((my_chn st device_idx i)\<lparr>chn_value := fp_zero, chn_iio := Some (ch_ref ch), chn_scale := s\<rparr>) in
      Some (st\<lparr>my_chn := (my_chn st)(device_idx := (my_chn st device_idx)(i := c))\<rparr>))
   })"

definition init_ina2xx_channels :: "iio_device \<Rightarrow> nat \<Rightarrow> board_state \<Rightarrow> board_state call option" where
  "init_ina2xx_channels dev device_idx st =
     (if dev_name dev \<noteq> ''ina226'' then Some (Exit (- 1))
      else let n = length (dev_channels dev);
               st1 = st\<lparr>nb_samples := (nb_samples st)(device_idx := 0), nb_channels := n\<rparr> in
        if MAX_CHANNELS < n then Some (Exit (- 1))
        else map_option Return (foldM (init_channel device_idx) (enumerate 0 (dev_channels dev)) st1))"

text \<open>
  One round of the loop over the devices; \<open>Return (False, st)\<close> is the return with \<open>FAILURE\<close>.
  The buffer for the sampling frequency is filled with 1024 characters \<open>0\<close> and no NUL, so
  after a failed read (a negative code, which the test \<open>if (c)\<close> lets pass) \<open>atoi\<close> runs past
  its end.
\<close>

fun init_devices ::
  "nat \<Rightarrow> iio_device option list \<Rightarrow> board_state \<Rightarrow> (bool \<times> board_state) call option" where
  "init_devices device_idx [] st = Some (Return (True, st))"
| "init_devices device_idx (None # ds) st = Some (Return (False, st))"
| "init_devices device_idx (Some dev # ds) st =
     (let st1 = st\<lparr>devices := devices st @ [dev]\<rparr>; c = fst (dev_frequency dev) in
      if dev_oversampling dev \<le> 0 then Some (Return (False, st1))
      else if c = 0 then Some (Return (False, st1))
      else if c < 0 then None
      else let st2 = st1\<lparr>sampling_freq := (sampling_freq st1)(device_idx := atoi (snd (dev_frequency dev)))\<rparr> in
        case init_ina2xx_channels dev device_idx st2 of
          None \<Rightarrow> None
        | Some (Exit e) \<Rightarrow> Some (Exit e)
        | Some (Return st3) \<Rightarrow>
            if \<not> dev_buffer dev then Some (Return (False, st3)) else init_devices (device_idx + 1) ds st3)"

definition mf_acme_is_enabled :: "iio \<Rightarrow> cstr \<Rightarrow> board_state \<Rightarrow> (bool \<times> board_state) call option" where
  "mf_acme_is_enabled m acme_name st =
     (case iio_context m acme_name of None \<Rightarrow> Some (Return (False, st))
      | Some ds \<Rightarrow>
          (let st1 = st\<lparr>nb_devices := length ds, devices := []\<rparr> in
           if MAX_DEVICES < length ds then Some (Return (False, st1)) else init_devices 0 ds st1))"

text \<open>
  The search of \<open>create_EventSets\<close> and \<open>filter\<close>: the first device, and in it the first
  channel, with the label.
\<close>

definition find_label :: "board_state \<Rightarrow> cstr \<Rightarrow> (nat \<times> nat) option" where
  "find_label st e =
     find (\<lambda>(i, j). chn_label (my_chn st i j) = e) (List.product [0..<nb_devices st] [0..<nb_channels st])"

fun create_EventSets :: "board_state \<Rightarrow> cstr list \<Rightarrow> Plugin_metrics \<Rightarrow> (int \<times> Plugin_metrics) option" where
  "create_EventSets st [] d = Some (1, d\<lparr>num_events := length (events d)\<rparr>)"
| "create_EventSets st (e # evs) d =
     (case find_label st e of None \<Rightarrow> Some (0, d)
      | Some _ \<Rightarrow> do { d' \<leftarrow> add_event e d; create_EventSets st evs d' })"

definition mf_Board_power_init ::
  "iio \<Rightarrow> cstr list \<Rightarrow> cstr \<Rightarrow> board_state \<times> Plugin_metrics \<Rightarrow> (int \<times> board_state \<times> Plugin_metrics) call option" where
  "mf_Board_power_init m evs acme_name = (\<lambda>(st, d).
     case mf_acme_is_enabled m acme_name st of
       None \<Rightarrow> None
     | Some (Exit e) \<Rightarrow> Some (Exit e)
     | Some (Return (ok, st')) \<Rightarrow>
         if \<not> ok then Some (Return (0, st', d))
         else do { (rc, d') \<leftarrow> create_EventSets st' evs d; Some (Return (rc, st', d')) })"

subsection \<open>Sampling\<close>

text \<open>A sample of a buffer: the device of its channel, the channel, and the 16 bits read.\<close>

record iio_sample =
  smp_device :: cstr
  smp_channel :: int
  smp_bits :: "16 word"

definition chan_device :: "board_state \<Rightarrow> cstr \<Rightarrow> nat option" where
  "chan_device st device_id = find (\<lambda>i. device_id = ''iio:device'' @ show_nat i) [0..<nb_devices st]"

definition chan_index :: "board_state \<Rightarrow> nat \<Rightarrow> int \<Rightarrow> nat option" where
  "chan_index st device_idx chn = find (\<lambda>i. chn_iio (my_chn st device_idx i) = Some chn) [0..<nb_channels st]"

text \<open>An unknown device or channel is the index -1.\<close>

definition print_sample :: "iio_sample \<Rightarrow> board_state \<Rightarrow> board_state option" where
  "print_sample s st = do {
     i \<leftarrow> chan_device st (smp_device s);
     j \<leftarrow> chan_index st i (smp_channel s);
     (let n = (if j = 0 then nb_samples st i + 1 else nb_samples st i);
          vabs = \<bar>sint (smp_bits s)\<bar>;
          c = my_chn st i j;
          v = fp_add binary64 (chn_value c)
            (fp_div binary64 (fp_sub binary64 (fp_of_int binary64 vabs) (chn_value c)) (fp_of_int binary64 n)) in
      Some (st\<lparr>nb_samples := (nb_samples st)(i := n),
        my_chn := (my_chn st)(i := (my_chn st i)(j := c\<lparr>chn_value := v\<rparr>))\<rparr>))
   }"

definition filter_event :: "board_state \<Rightarrow> nat \<Rightarrow> Plugin_metrics \<Rightarrow> Plugin_metrics option" where
  "filter_event st idx d =
     (if length (events d) \<le> idx then None
      else case find_label st (events d ! idx) of None \<Rightarrow> Some d
      | Some (i, j) \<Rightarrow>
          set_value idx (fp_conv binary32 (fp_mul binary64 (chn_value (my_chn st i j)) (chn_scale (my_chn st i j)))) d)"

definition filter_metrics :: "board_state \<Rightarrow> Plugin_metrics \<Rightarrow> Plugin_metrics option" where
  "filter_metrics st d = foldM (filter_event st) [0..<num_events d] d"

definition reset_my_channels_value :: "board_state \<Rightarrow> board_state" where
  "reset_my_channels_value st = st\<lparr>
     nb_samples := (\<lambda>i. if i < nb_devices st then 0 else nb_samples st i),
     my_chn := (\<lambda>i j. if i < nb_devices st \<and> j < nb_channels st then (my_chn st i j)\<lparr>chn_value := fp_zero\<rparr> else my_chn st i j)\<rparr>"

text \<open>
  \<open>refills i\<close> is the refill of the buffer of device \<open>i\<close>: its samples, or \<open>None\<close> for an error,
  which ends the call with \<open>FAILURE\<close>.
\<close>

fun refill_buffers ::
  "(nat \<Rightarrow> iio_sample list option) \<Rightarrow> nat list \<Rightarrow> board_state \<Rightarrow> (bool \<times> board_state) option" where
  "refill_buffers refills [] st = Some (True, st)"
| "refill_buffers refills (i # is) st =
     (case refills i of None \<Rightarrow> Some (False, st)
      | Some smps \<Rightarrow> do { st' \<leftarrow> foldM print_sample smps st; refill_buffers refills is st' })"

definition mf_Board_power_sample ::
  "(nat \<Rightarrow> iio_sample list option) \<Rightarrow> board_state \<times> Plugin_metrics \<Rightarrow> (board_state \<times> Plugin_metrics) option" where
  "mf_Board_power_sample refills = (\<lambda>(st, d). do {
     (ok, st') \<leftarrow> refill_buffers refills [0..<nb_devices st] st;
     if \<not> ok then Some (st', d)
     else do { d' \<leftarrow> filter_metrics st' d; Some (reset_my_channels_value st', d') }
   })"

definition mf_Board_power_to_json :: "timestamp \<Rightarrow> Plugin_metrics \<Rightarrow> cstr list \<Rightarrow> cstr option" where
  "mf_Board_power_to_json t d evs = do {
     json \<leftarrow> json_begin ''Board_power'' (milliseconds t);
     json_selected (\<lambda>name e. e = name) (\<lambda>_. True) d evs json
   }"


subsection \<open>The running mean of a constant signal\<close>

definition nat_fp :: "nat \<Rightarrow> cfp" where "nat_fp n = Fin False (of_nat n)"

lemma nat_fp_0: "nat_fp 0 = fp_zero" by (simp add: nat_fp_def)

lemma first_mean:
  assumes "v < 2 ^ 31"
  shows "fp_add binary64 fp_zero (fp_div binary64 (fp_sub binary64 (nat_fp v) fp_zero) (fp_of_int binary64 1)) = nat_fp v"
proof -
  have r: "fp_round binary64 False (of_nat v) = Fin False (of_nat v)" using assms by (intro fp_round64_nat) simp
  have one: "fp_of_int binary64 1 = Fin False 1" using fp_of_int_small [of 1] by simp
  have sub: "fp_sub binary64 (nat_fp v) fp_zero = nat_fp v"
    using r by (cases "v = 0") (simp_all add: nat_fp_def fp_sub_def signed_def fp_of_rat_def Let_def)
  have dv: "fp_div binary64 (nat_fp v) (Fin False 1) = nat_fp v" using r by (simp add: nat_fp_def)
  show ?thesis unfolding one sub dv using r
    by (cases "v = 0") (simp_all add: nat_fp_def signed_def fp_of_rat_def Let_def)
qed

lemma next_mean:
  assumes "v < 2 ^ 31" "0 < n" "n < 2 ^ 31"
  shows "fp_add binary64 (nat_fp v) (fp_div binary64 (fp_sub binary64 (nat_fp v) (nat_fp v)) (fp_of_int binary64 (int n))) = nat_fp v"
proof -
  have r: "fp_round binary64 False (of_nat v) = Fin False (of_nat v)" using assms(1) by (intro fp_round64_nat) simp
  have n: "fp_of_int binary64 (int n) = Fin False (of_nat n)" using assms(3) by (rule fp_of_int_small)
  have sub: "fp_sub binary64 (nat_fp v) (nat_fp v) = fp_zero"
    by (simp add: nat_fp_def fp_sub_def signed_def)
  have dv: "fp_div binary64 fp_zero (Fin False (of_nat n)) = fp_zero" using assms(2) by simp
  show ?thesis unfolding n sub dv using r
    by (cases "v = 0") (simp_all add: nat_fp_def signed_def fp_of_rat_def Let_def)
qed

text \<open>
  What a buffer delivers: \<open>K\<close> scans, each with one sample of every channel, in their order.
\<close>

definition scan :: "nat \<Rightarrow> (nat \<Rightarrow> int) \<Rightarrow> (nat \<Rightarrow> 16 word) \<Rightarrow> nat \<Rightarrow> iio_sample list" where
  "scan i ref bits n = map (\<lambda>j. \<lparr>smp_device = ''iio:device'' @ show_nat i, smp_channel = ref j, smp_bits = bits j\<rparr>) [0..<n]"

definition signal :: "16 word \<Rightarrow> nat" where "signal w = nat \<bar>sint w\<bar>"

lemma signal_bound: "signal w < 2 ^ 31" "\<bar>sint w\<bar> = int (signal w)"
  using sint_ge [of w] sint_lt [of w] by (simp_all add: signal_def)

text \<open>The channels of device \<open>i\<close> carry the references \<open>ref\<close>.\<close>

definition wired :: "board_state \<Rightarrow> nat \<Rightarrow> (nat \<Rightarrow> int) \<Rightarrow> bool" where
  "wired st i ref \<longleftrightarrow> i < nb_devices st \<and> inj_on ref {..<nb_channels st} \<and>
     (\<forall>j < nb_channels st. chn_iio (my_chn st i j) = Some (ref j))"

text \<open>The state with the first \<open>m\<close> channels of device \<open>i\<close> at the given values.\<close>

definition with_values :: "board_state \<Rightarrow> nat \<Rightarrow> nat \<Rightarrow> (nat \<Rightarrow> cfp) \<Rightarrow> int \<Rightarrow> board_state" where
  "with_values st i m v n = st\<lparr>nb_samples := (nb_samples st)(i := n),
     my_chn := (my_chn st)(i := (\<lambda>j. if j < m then (my_chn st i j)\<lparr>chn_value := v j\<rparr> else my_chn st i j))\<rparr>"

lemma find_upt: "i < n \<Longrightarrow> P i \<Longrightarrow> (\<And>j. j < i \<Longrightarrow> \<not> P j) \<Longrightarrow> find P [0..<n] = Some i"
  unfolding find_Some_iff by (rule exI [of _ i]) simp

lemma find_in_set: "find P xs = Some x \<Longrightarrow> x \<in> set xs"
  by (auto simp: find_Some_iff)

lemma show_nat_inj: "show_nat i = show_nat j \<longleftrightarrow> i = j"
  by (metis digits_val_show_nat)

lemma chan_device_self: "i < nb_devices st \<Longrightarrow> chan_device st (''iio:device'' @ show_nat i) = Some i"
  unfolding chan_device_def by (rule find_upt) (simp_all add: show_nat_inj)

lemma chan_index_self:
  "wired st i ref \<Longrightarrow> j < nb_channels st \<Longrightarrow> chan_index st i (ref j) = Some j"
  unfolding chan_index_def by (rule find_upt) (auto simp: wired_def inj_on_def)

lemma scan_values:
  assumes w: "wired st i ref" and m: "m \<le> nb_channels st"
    and start: "(nb_samples st i = 0 \<and> (\<forall>j < nb_channels st. chn_value (my_chn st i j) = fp_zero)) \<or>
      (\<exists>k. 0 < k \<and> k + 1 < 2 ^ 31 \<and> nb_samples st i = int k \<and>
        (\<forall>j < nb_channels st. chn_value (my_chn st i j) = nat_fp (signal (bits j))))"
  shows "foldM print_sample (scan i ref bits m) st =
    Some (with_values st i m (\<lambda>j. nat_fp (signal (bits j))) (if m = 0 then nb_samples st i else nb_samples st i + 1))"
  using m
proof (induction m)
  case 0
  then show ?case by (simp add: scan_def with_values_def)
next
  case (Suc m)
  let ?v = "\<lambda>j. nat_fp (signal (bits j))"
  let ?s = "with_values st i m ?v (if m = 0 then nb_samples st i else nb_samples st i + 1)"
  let ?x = "\<lparr>smp_device = ''iio:device'' @ show_nat i, smp_channel = ref m, smp_bits = bits m\<rparr>"
  have dev: "chan_device ?s (smp_device ?x) = Some i"
    using chan_device_self [of i ?s] w by (simp add: wired_def with_values_def)
  have "wired ?s i ref" using w by (simp add: wired_def with_values_def)
  then have chn: "chan_index ?s i (smp_channel ?x) = Some m"
    using chan_index_self [of ?s i ref m] Suc.prems by (simp add: with_values_def)
  have old: "chn_value (my_chn ?s i m) = chn_value (my_chn st i m)" by (simp add: with_values_def)
  have n: "(if m = 0 then nb_samples ?s i + 1 else nb_samples ?s i) = nb_samples st i + 1" by (simp add: with_values_def)
  have b: "signal (bits m) < 2 ^ 31" "\<bar>sint (bits m)\<bar> = int (signal (bits m))" using signal_bound by auto
  have iv: "fp_of_int binary64 (int (signal (bits m))) = ?v m" using fp_of_int_small [OF b(1)] by (simp add: nat_fp_def)
  have v: "fp_add binary64 (chn_value (my_chn st i m))
      (fp_div binary64 (fp_sub binary64 (fp_of_int binary64 \<bar>sint (smp_bits ?x)\<bar>) (chn_value (my_chn st i m)))
        (fp_of_int binary64 (nb_samples st i + 1))) = ?v m"
    using start
  proof
    assume z: "nb_samples st i = 0 \<and> (\<forall>j < nb_channels st. chn_value (my_chn st i j) = fp_zero)"
    then have "chn_value (my_chn st i m) = fp_zero" using Suc.prems by simp
    then show ?thesis using z first_mean [OF b(1)] by (simp only: iio_sample.select_convs b(2) iv) simp
  next
    assume "\<exists>k. 0 < k \<and> k + 1 < 2 ^ 31 \<and> nb_samples st i = int k \<and>
        (\<forall>j < nb_channels st. chn_value (my_chn st i j) = nat_fp (signal (bits j)))"
    then obtain k where k: "0 < k" "k + 1 < 2 ^ 31" "nb_samples st i = int k" "chn_value (my_chn st i m) = ?v m"
      using Suc.prems by auto
    have "nb_samples st i + 1 = int (k + 1)" using k(3) by simp
    then show ?thesis using next_mean [OF b(1), of "k + 1"] k by (simp only: iio_sample.select_convs b(2) iv)
  qed
  have "print_sample ?x ?s = Some (with_values st i (Suc m) ?v (nb_samples st i + 1))"
    unfolding print_sample_def dev chn Option.bind.simps Let_def n old v
    by (auto simp: with_values_def fun_eq_iff less_Suc_eq)
  moreover have "foldM print_sample (scan i ref bits m) st = Some ?s" using Suc by simp
  ultimately show ?case by (simp add: scan_def foldM_append)
qed

lemma with_values_twice: "with_values (with_values st i m v n) i m v n' = with_values st i m v n'"
  by (auto simp: with_values_def fun_eq_iff)

lemma repeated_scans:
  assumes "wired st i ref" "0 < nb_channels st" "Suc K < 2 ^ 31"
    and "nb_samples st i = 0" "\<forall>j < nb_channels st. chn_value (my_chn st i j) = fp_zero"
  shows "foldM print_sample (concat (replicate (Suc K) (scan i ref bits (nb_channels st)))) st =
    Some (with_values st i (nb_channels st) (\<lambda>j. nat_fp (signal (bits j))) (int (Suc K)))"
  using assms(3)
proof (induction K)
  case 0
  then show ?case using scan_values [OF assms(1) order_refl, of bits] assms(2,4,5) by simp
next
  case (Suc K)
  let ?v = "\<lambda>j. nat_fp (signal (bits j))"
  let ?s = "with_values st i (nb_channels st) ?v (int (Suc K))"
  have "foldM print_sample (scan i ref bits (nb_channels st)) ?s =
      Some (with_values ?s i (nb_channels st) ?v (if nb_channels st = 0 then nb_samples ?s i else nb_samples ?s i + 1))"
  proof (rule scan_values)
    show "wired ?s i ref" using assms(1) by (simp add: wired_def with_values_def)
    show "nb_channels st \<le> nb_channels ?s" by (simp add: with_values_def)
    show "(nb_samples ?s i = 0 \<and> (\<forall>j < nb_channels ?s. chn_value (my_chn ?s i j) = fp_zero)) \<or>
      (\<exists>k. 0 < k \<and> k + 1 < 2 ^ 31 \<and> nb_samples ?s i = int k \<and>
        (\<forall>j < nb_channels ?s. chn_value (my_chn ?s i j) = ?v j))"
      using Suc.prems by (intro disjI2 exI [of _ "Suc K"]) (simp add: with_values_def)
  qed
  moreover have "nb_samples ?s i + 1 = int (Suc (Suc K))" by (simp add: with_values_def)
  ultimately have step: "foldM print_sample (scan i ref bits (nb_channels st)) ?s =
      Some (with_values st i (nb_channels st) ?v (int (Suc (Suc K))))"
    using assms(2) by (simp only: with_values_twice if_False less_irrefl neq0_conv not_gr0) simp
  have "concat (replicate (Suc (Suc K)) (scan i ref bits (nb_channels st))) =
      concat (replicate (Suc K) (scan i ref bits (nb_channels st))) @ scan i ref bits (nb_channels st)"
    using replicate_append_same [of "Suc K" "scan i ref bits (nb_channels st)"]
    by (metis concat.simps concat_append append_Nil2 replicate_Suc)
  then show ?case using Suc step by (simp only: foldM_append) simp
qed

lemma refill_append:
  "refill_buffers r (xs @ ys) st = do { (ok, st') \<leftarrow> refill_buffers r xs st;
     if ok then refill_buffers r ys st' else Some (False, st') }"
proof (induction r xs st rule: refill_buffers.induct)
  case (2 r i "is" st)
  then show ?case by (cases "r i") (auto split: Option.bind_split)
qed simp

text \<open>The state after the first \<open>n\<close> devices have delivered.\<close>

definition all_values :: "board_state \<Rightarrow> nat \<Rightarrow> (nat \<Rightarrow> nat \<Rightarrow> cfp) \<Rightarrow> int \<Rightarrow> board_state" where
  "all_values st n v k = st\<lparr>nb_samples := (\<lambda>i. if i < n then k else nb_samples st i),
     my_chn := (\<lambda>i j. if i < n \<and> j < nb_channels st then (my_chn st i j)\<lparr>chn_value := v i j\<rparr> else my_chn st i j)\<rparr>"

definition board_clean :: "board_state \<Rightarrow> bool" where
  "board_clean st \<longleftrightarrow> (\<forall>i < nb_devices st. nb_samples st i = 0 \<and>
     (\<forall>j < nb_channels st. chn_value (my_chn st i j) = fp_zero))"

lemma refill_all:
  assumes "board_clean st" "\<forall>i < nb_devices st. wired st i (ref i)" "0 < nb_channels st" "Suc K < 2 ^ 31"
    and "\<forall>i < nb_devices st. r i = Some (concat (replicate (Suc K) (scan i (ref i) (bits i) (nb_channels st))))"
    and "n \<le> nb_devices st"
  shows "refill_buffers r [0..<n] st = Some (True, all_values st n (\<lambda>i j. nat_fp (signal (bits i j))) (int (Suc K)))"
  using assms(6)
proof (induction n)
  case 0
  then show ?case by (simp add: all_values_def)
next
  case (Suc n)
  let ?v = "\<lambda>i j. nat_fp (signal (bits i j))"
  let ?s = "all_values st n ?v (int (Suc K))"
  have "foldM print_sample (concat (replicate (Suc K) (scan n (ref n) (bits n) (nb_channels ?s)))) ?s =
      Some (with_values ?s n (nb_channels ?s) (?v n) (int (Suc K)))"
  proof (rule repeated_scans)
    show "wired ?s n (ref n)" using assms(2) Suc.prems by (simp add: wired_def all_values_def)
    show "0 < nb_channels ?s" "Suc K < 2 ^ 31" using assms(3,4) by (simp_all add: all_values_def)
    show "nb_samples ?s n = 0" "\<forall>j < nb_channels ?s. chn_value (my_chn ?s n j) = fp_zero"
      using assms(1) Suc.prems by (simp_all add: all_values_def board_clean_def)
  qed
  moreover have "with_values ?s n (nb_channels ?s) (?v n) (int (Suc K)) = all_values st (Suc n) ?v (int (Suc K))"
    by (auto simp: with_values_def all_values_def fun_eq_iff less_Suc_eq)
  moreover have "nb_channels ?s = nb_channels st" by (simp add: all_values_def)
  moreover have "r n = Some (concat (replicate (Suc K) (scan n (ref n) (bits n) (nb_channels st))))"
    using assms(5) Suc.prems by simp
  ultimately have "refill_buffers r [n] ?s = Some (True, all_values st (Suc n) ?v (int (Suc K)))"
    by (simp del: replicate_Suc)
  then show ?case using Suc by (simp add: refill_append)
qed

lemma find_label_values [simp]: "find_label (all_values st n v k) e = find_label st e"
proof -
  have "(\<lambda>(i, j). chn_label (my_chn (all_values st n v k) i j) = e) = (\<lambda>(i, j). chn_label (my_chn st i j) = e)"
    by (auto simp: all_values_def fun_eq_iff)
  then show ?thesis unfolding find_label_def by (simp add: all_values_def)
qed

definition label_value :: "board_state \<Rightarrow> nat \<times> nat \<Rightarrow> cfp" where
  "label_value st = (\<lambda>(i, j). fp_conv binary32 (fp_mul binary64 (chn_value (my_chn st i j)) (chn_scale (my_chn st i j))))"

lemma filter_values:
  assumes "n \<le> length (events d)" "n \<le> length (values d)"
  shows "\<exists>d'. foldM (filter_event st) [0..<n] d = Some d' \<and> same_events d d' \<and>
    (\<forall>idx < n. values d' ! idx = (case find_label st (events d ! idx) of None \<Rightarrow> values d ! idx
       | Some p \<Rightarrow> Some (label_value st p))) \<and> (\<forall>idx \<ge> n. values d' ! idx = values d ! idx)"
  using assms
proof (induction n)
  case (Suc n)
  then obtain d1 where d1: "foldM (filter_event st) [0..<n] d = Some d1" "same_events d d1"
    "\<forall>idx < n. values d1 ! idx = (case find_label st (events d ! idx) of None \<Rightarrow> values d ! idx | Some p \<Rightarrow> Some (label_value st p))"
    "\<forall>idx \<ge> n. values d1 ! idx = values d ! idx" by auto
  show ?case
  proof (cases "find_label st (events d ! n)")
    case None
    then have "filter_event st n d1 = Some d1" using d1(2) Suc.prems by (simp add: filter_event_def same_events_def)
    then show ?thesis using d1 None Suc.prems by (intro exI [of _ d1]) (auto simp: foldM_append less_Suc_eq)
  next
    case (Some p)
    obtain i j where p: "p = (i, j)" by (cases p)
    let ?d2 = "d1\<lparr>values := (values d1)[n := Some (label_value st p)]\<rparr>"
    have "filter_event st n d1 = Some ?d2"
      using d1(2) Suc.prems Some by (simp add: filter_event_def same_events_def label_value_def p)
    then show ?thesis using d1 Some Suc.prems
      by (intro exI [of _ ?d2]) (auto simp: foldM_append less_Suc_eq same_events_def nth_list_update)
  qed
qed simp

text \<open>
  C33. A constant signal is reported as it is: when every buffer holds one or more scans in which
  each channel always reads the same value, a sample stores at each event the absolute value of
  its channel times the channel's scale, without any rounding in the running mean; and it leaves
  all means and counts at zero, so the next sample averages its own interval only.
\<close>

theorem Board_power_constant_signal:
  assumes "board_clean st" "\<forall>i < nb_devices st. wired st i (ref i)" "0 < nb_channels st" "Suc K < 2 ^ 31"
    "\<forall>i < nb_devices st. refills i = Some (concat (replicate (Suc K) (scan i (ref i) (bits i) (nb_channels st))))"
    "num_events d \<le> length (events d)" "num_events d \<le> length (values d)"
    "idx < num_events d" "find_label st (events d ! idx) = Some (i, j)"
  shows "\<exists>st' d'. mf_Board_power_sample refills (st, d) = Some (st', d') \<and> same_events d d' \<and> board_clean st' \<and>
    values d' ! idx = Some (fp_conv binary32 (fp_mul binary64 (nat_fp (signal (bits i j))) (chn_scale (my_chn st i j))))"
proof -
  let ?s = "all_values st (nb_devices st) (\<lambda>i j. nat_fp (signal (bits i j))) (int (Suc K))"
  have r: "refill_buffers refills [0..<nb_devices st] st = Some (True, ?s)"
    by (rule refill_all [OF assms(1-5) order_refl])
  obtain d' where d': "filter_metrics ?s d = Some d'" "same_events d d'" "values d' ! idx = Some (label_value ?s (i, j))"
    using filter_values [OF assms(6,7), of ?s] assms(8,9) by (auto simp: filter_metrics_def)
  have ij: "i < nb_devices st" "j < nb_channels st"
    using find_in_set [OF assms(9) [unfolded find_label_def]] by simp_all
  have "label_value ?s (i, j) = fp_conv binary32 (fp_mul binary64 (nat_fp (signal (bits i j))) (chn_scale (my_chn st i j)))"
    using ij by (simp add: label_value_def all_values_def)
  moreover have "board_clean (reset_my_channels_value ?s)"
    by (simp add: board_clean_def reset_my_channels_value_def all_values_def)
  ultimately show ?thesis using r d' by (simp add: mf_Board_power_sample_def)
qed

lemma filter_event_same: "filter_event st idx d = Some d' \<Longrightarrow> same_events d d'"
  by (auto simp: filter_event_def dest: set_value_same split: if_split_asm option.split_asm)

interpretation board: connector mf_Board_power_sample
proof
  fix refills st d st' d'
  assume s: "mf_Board_power_sample refills (st, d) = Some (st', d')"
  have "same_events d x" if "foldM (filter_event b) is d = Some x" for b "is" x
    using that by (rule foldM_invariant [where P = "same_events d"]) (auto intro: same_events_trans filter_event_same)
  then show "same_events d d'" using s
    by (auto simp: mf_Board_power_sample_def filter_metrics_def Option.bind_eq_Some_conv split: if_split_asm)
qed

definition sample_board :: board_state where
  "sample_board = board_start\<lparr>nb_devices := 1, nb_channels := 1,
     my_chn := (\<lambda>i j. \<lparr>chn_label = ''device0:power'', chn_unit = ''mW'', chn_scale = lit64 25, chn_value = fp_zero, chn_iio = Some 7\<rparr>)\<rparr>"

definition board_data :: Plugin_metrics where
  "board_data = \<lparr>events = [''device0:power''], values = replicate 32 None, num_events = 1\<rparr>"

theorem Board_power_constant_signal_witness:
  "\<exists>st' d'. mf_Board_power_sample (\<lambda>i. Some (concat (replicate (Suc 2) (scan i (\<lambda>_. 7) (\<lambda>_. - 12) 1)))) (sample_board, board_data) =
      Some (st', d') \<and> values d' ! 0 = Some (fp_conv binary32 (fp_mul binary64 (nat_fp 12) (lit64 25)))"
proof -
  have "signal (- 12) = 12" by (simp add: signal_def)
  moreover have "find_label sample_board (events board_data ! 0) = Some (0, 0)"
    by (simp add: find_label_def sample_board_def board_data_def)
  moreover have "board_clean sample_board" by (simp add: board_clean_def sample_board_def board_start_def)
  ultimately show ?thesis
    using Board_power_constant_signal [of sample_board "\<lambda>i j. 7" 2 "\<lambda>i. Some (concat (replicate (Suc 2) (scan i (\<lambda>_. 7) (\<lambda>_. - 12) 1)))"
        "\<lambda>i j. - 12" board_data 0 0 0]
    by (auto simp: wired_def inj_on_def sample_board_def board_data_def)
qed

end
