(* ===== verification/CPU_Temperature.thy ===== *)
theory CPU_Temperature
  imports Plugin_Metrics
begin

text \<open>
  The CPU_temperature connector,
  \<^verbatim>\<open>plugins/CPU_temperature/src/mf_CPU_temperature_connector.c\<close>: the temperatures of the
  cores that are configured as \<open>CPU<chip>:core<core>\<close>. The sensors library is a parameter:
  the chips it detects with their features and subfeatures, and the result of
  \<open>sensors_get_value\<close>, where \<open>None\<close> is a failure that leaves the caller's variable alone.
\<close>

record subfeature =
  sub_number :: int
  sub_is_temp_input :: bool

record feature =
  feat_is_temp :: bool
  feat_label :: cstr
  subfeatures :: "subfeature list"

record chip =
  chip_prefix :: cstr
  features :: "feature list"

record sensors =
  sensors_ready :: bool
  detected_chips :: "chip list"
  sensor_value :: "nat \<Rightarrow> int \<Rightarrow> cfp option"

text \<open>The two arrays of \<open>features_list\<close>; a chip is given by its position.\<close>

record temp_state =
  feat_chip :: "nat list"
  feat_subfeature :: "int list"

definition temp_start :: temp_state where
  "temp_start = \<lparr>feat_chip = [], feat_subfeature = []\<rparr>"

definition has_prefix :: "cstr \<Rightarrow> cstr \<Rightarrow> bool" where
  "has_prefix pre s = strncmp_eq pre s (length pre)"

text \<open>
  \<open>strncpy(arr, label + k, strlen(label) - k)\<close> into an array of characters: it copies exactly
  the rest of the label, so no NUL is written after it. A label shorter than \<open>k\<close> makes the
  \<open>size_t\<close> difference wrap.
\<close>

definition strncpy_rest :: "nat \<Rightarrow> cstr \<Rightarrow> string \<Rightarrow> string option" where
  "strncpy_rest k label arr =
     (if length label < k \<or> length arr < length label - k then None
      else Some (drop k label @ drop (length label - k) arr))"

text \<open>The string an array holds, when it is terminated.\<close>

definition array_string :: "string \<Rightarrow> cstr option" where
  "array_string arr = (if NUL \<in> set arr then Some (c_string arr) else None)"

subsection \<open>Initialisation\<close>

definition chipnum_feature :: "feature \<Rightarrow> string \<Rightarrow> string option" where
  "chipnum_feature f chipnum =
     (if \<not> feat_is_temp f then Some chipnum
      else if \<not> has_prefix ''Physical id'' (feat_label f) then Some chipnum
      else strncpy_rest 12 (feat_label f) chipnum)"

text \<open>
  The loop over the subfeatures of one feature: the first one that yields a configured label is
  recorded and ends the loop. \<open>c\<close> is the position of the chip.
\<close>

definition temp_label :: "string \<Rightarrow> feature \<Rightarrow> cstr option" where
  "temp_label chipnum f = do {
     core_arr \<leftarrow> strncpy_rest 5 (feat_label f) (replicate 3 NUL);
     chip_s \<leftarrow> array_string chipnum;
     core_s \<leftarrow> array_string core_arr;
     c_store 16 (''CPU'' @ chip_s @ '':core'' @ core_s)
   }"

fun temp_subfeatures ::
  "cstr list \<Rightarrow> nat \<Rightarrow> string \<Rightarrow> feature \<Rightarrow> subfeature list \<Rightarrow> temp_state \<times> Plugin_metrics \<Rightarrow>
   (temp_state \<times> Plugin_metrics) option" where
  "temp_subfeatures evs c chipnum f [] s = Some s"
| "temp_subfeatures evs c chipnum f (sub # subs) s =
     (if \<not> sub_is_temp_input sub then temp_subfeatures evs c chipnum f subs s
      else if \<not> has_prefix ''Core'' (feat_label f) then temp_subfeatures evs c chipnum f subs s
      else do {
        my_label \<leftarrow> temp_label chipnum f;
        if my_label \<notin> set evs then temp_subfeatures evs c chipnum f subs s
        else do {
          d \<leftarrow> add_event my_label (snd s);
          Some ((fst s)\<lparr>feat_chip := feat_chip (fst s) @ [c], feat_subfeature := feat_subfeature (fst s) @ [sub_number sub]\<rparr>, d)
        }
      })"

definition temp_feature ::
  "cstr list \<Rightarrow> nat \<Rightarrow> string \<Rightarrow> feature \<Rightarrow> temp_state \<times> Plugin_metrics \<Rightarrow> (temp_state \<times> Plugin_metrics) option" where
  "temp_feature evs c chipnum f s =
     (if \<not> feat_is_temp f then Some s else temp_subfeatures evs c chipnum f (subfeatures f) s)"

definition temp_chip ::
  "cstr list \<Rightarrow> nat \<times> chip \<Rightarrow> temp_state \<times> Plugin_metrics \<Rightarrow> (temp_state \<times> Plugin_metrics) option" where
  "temp_chip evs = (\<lambda>(c, ch) s.
     if chip_prefix ch \<noteq> ''coretemp'' then Some s
     else do {
       chipnum \<leftarrow> foldM chipnum_feature (features ch) (replicate 2 NUL);
       foldM (temp_feature evs c chipnum) (features ch) s
     })"

definition mf_CPU_temperature_init ::
  "sensors \<Rightarrow> cstr list \<Rightarrow> temp_state \<times> Plugin_metrics \<Rightarrow> (int \<times> temp_state \<times> Plugin_metrics) option" where
  "mf_CPU_temperature_init m evs = (\<lambda>(st, d).
     if \<not> sensors_ready m then Some (0, st, d)
     else do {
       (st', d') \<leftarrow> foldM (temp_chip evs) (enumerate 0 (detected_chips m)) (temp_start, d);
       if events d' = [] then Some (0, st', d') else Some (1, st', d'\<lparr>num_events := length (events d')\<rparr>)
     })"

subsection \<open>Sampling\<close>

text \<open>
  The variable \<open>value\<close> is declared outside the loop: when a reading fails, it keeps the value
  of the sensor before, and for the first sensor it is indeterminate.
\<close>

definition temp_sample_one ::
  "sensors \<Rightarrow> temp_state \<Rightarrow> nat \<Rightarrow> cfp option \<times> Plugin_metrics \<Rightarrow> (cfp option \<times> Plugin_metrics) option" where
  "temp_sample_one m st i = (\<lambda>(old, d).
     if length (feat_chip st) \<le> i \<or> length (feat_subfeature st) \<le> i then None
     else let new = (case sensor_value m (feat_chip st ! i) (feat_subfeature st ! i) of None \<Rightarrow> old | Some v \<Rightarrow> Some v) in do {
       v \<leftarrow> new;
       d' \<leftarrow> set_value i (fp_conv binary32 v) d;
       Some (new, d')
     })"

definition mf_CPU_temperature_sample ::
  "sensors \<Rightarrow> temp_state \<times> Plugin_metrics \<Rightarrow> (temp_state \<times> Plugin_metrics) option" where
  "mf_CPU_temperature_sample m = (\<lambda>(st, d). do {
     (_, d') \<leftarrow> foldM (temp_sample_one m st) [0..<num_events d] (None, d);
     Some (st, d')
   })"

text \<open>Every event is written, whatever its value.\<close>

definition json_any :: "Plugin_metrics \<Rightarrow> nat \<Rightarrow> cstr \<Rightarrow> cstr option" where
  "json_any d i json = do { (e, v) \<leftarrow> event_value d i; json_add (json_metric e v) json }"

definition mf_CPU_temperature_to_json :: "timestamp \<Rightarrow> Plugin_metrics \<Rightarrow> cstr option" where
  "mf_CPU_temperature_to_json t d = do {
     json \<leftarrow> json_begin ''CPU_temperature'' (milliseconds t);
     foldM (json_any d) [0..<num_events d] json
   }"


subsection \<open>One sensor per event\<close>

definition temp_aligned :: "temp_state \<times> Plugin_metrics \<Rightarrow> bool" where
  "temp_aligned s \<longleftrightarrow> length (feat_chip (fst s)) = length (events (snd s)) \<and>
     length (feat_subfeature (fst s)) = length (events (snd s)) \<and>
     length (events (snd s)) \<le> MAX_EVENTS_NUMBER \<and> length (values (snd s)) = MAX_EVENTS_NUMBER"

text \<open>
  What the label of an event means: \<open>CPU<p>:core<k>\<close> is the input of the temperature feature
  \<open>Core <k>\<close> of a \<open>coretemp\<close> chip whose \<open>Physical id\<close> feature has the number \<open>p\<close> (the last
  such feature with a number, if there are several). The labels are C strings of libsensors.
\<close>

definition physical_id :: "feature list \<Rightarrow> cstr" where
  "physical_id fs = fold (\<lambda>f p. if feat_is_temp f \<and> prefix ''Physical id'' (feat_label f) \<and> drop 12 (feat_label f) \<noteq> []
     then drop 12 (feat_label f) else p) fs []"

definition core_sensor :: "chip list \<Rightarrow> cstr \<Rightarrow> nat \<Rightarrow> int \<Rightarrow> bool" where
  "core_sensor chips l c n \<longleftrightarrow> c < length chips \<and> chip_prefix (chips ! c) = ''coretemp'' \<and>
     (\<exists>f \<in> set (features (chips ! c)). \<exists>sub \<in> set (subfeatures f).
        feat_is_temp f \<and> prefix ''Core'' (feat_label f) \<and> sub_is_temp_input sub \<and> sub_number sub = n \<and>
        l = ''CPU'' @ physical_id (features (chips ! c)) @ '':core'' @ drop 5 (feat_label f))"

definition c_labels :: "chip list \<Rightarrow> bool" where
  "c_labels chips \<longleftrightarrow> (\<forall>ch \<in> set chips. \<forall>f \<in> set (features ch). NUL \<notin> set (feat_label f))"

definition temp_inv :: "chip list \<Rightarrow> cstr list \<Rightarrow> temp_state \<times> Plugin_metrics \<Rightarrow> bool" where
  "temp_inv chips evs s \<longleftrightarrow> temp_aligned s \<and> (\<forall>i < length (events (snd s)).
     events (snd s) ! i \<in> set evs \<and> core_sensor chips (events (snd s) ! i) (feat_chip (fst s) ! i) (feat_subfeature (fst s) ! i))"

lemma has_prefix_iff: "NUL \<notin> set pre \<Longrightarrow> has_prefix pre s \<longleftrightarrow> prefix pre s"
  by (auto simp: has_prefix_def strncmp_eq_def prefix_def) (metis append_take_drop_id)

lemma c_string_append_NUL: "NUL \<notin> set p \<Longrightarrow> c_string (p @ replicate n NUL) = p"
  by (induction p) (cases n, auto simp: c_string_def)

text \<open>The array \<open>chipnum\<close>: when it is terminated, it holds the number of the chip.\<close>

lemma chipnum_physical:
  assumes "foldM chipnum_feature fs (replicate 2 NUL) = Some arr" "\<forall>f \<in> set fs. NUL \<notin> set (feat_label f)" "array_string arr = Some t"
  shows "t = physical_id fs"
proof -
  have "length arr = 2 \<and> NUL \<notin> set (physical_id fs) \<and> length (physical_id fs) \<le> 2 \<and>
      (NUL \<in> set arr \<longrightarrow> arr = physical_id fs @ replicate (2 - length (physical_id fs)) NUL)"
    using assms(1,2)
  proof (induction fs arbitrary: arr rule: rev_induct)
    case (snoc f fs)
    then obtain a where a: "foldM chipnum_feature fs (replicate 2 NUL) = Some a" "chipnum_feature f a = Some arr"
      by (auto simp: foldM_append Option.bind_eq_Some_conv)
    let ?p = "physical_id fs" and ?r = "drop 12 (feat_label f)"
    have IH: "length a = 2" "NUL \<notin> set ?p" "length ?p \<le> 2" "NUL \<in> set a \<longrightarrow> a = ?p @ replicate (2 - length ?p) NUL"
      using snoc.IH [OF a(1)] snoc.prems(2) by simp_all
    have r: "NUL \<notin> set ?r" using snoc.prems(2) in_set_dropD by fastforce
    show ?case
    proof (cases "feat_is_temp f \<and> prefix ''Physical id'' (feat_label f) \<and> ?r \<noteq> []")
      case True
      then have p: "physical_id (fs @ [f]) = ?r" by (simp add: physical_id_def)
      have arr: "arr = ?r @ drop (length ?r) a" "length ?r \<le> 2"
        using a(2) True IH(1) by (auto simp: chipnum_feature_def strncpy_rest_def has_prefix_iff split: if_split_asm)
      have "arr = ?r @ replicate (2 - length ?r) NUL" if "NUL \<in> set arr"
      proof (cases "length ?r = 2")
        case False
        moreover have "length ?r \<noteq> 0" using True by (metis length_0_conv)
        ultimately have l: "length ?r = 1" using arr(2) by linarith
        obtain x y where "a = [x, y]" using IH(1) by (auto simp: numeral_2_eq_2 length_Suc_conv)
        then show ?thesis using that arr(1) l r by simp
      qed (use that arr(1) IH(1) r in simp)
      then show ?thesis using p arr IH(1) r by simp
    next
      case False
      then have "physical_id (fs @ [f]) = ?p" by (auto simp: physical_id_def)
      moreover have "arr = a"
        using a(2) False by (auto simp: chipnum_feature_def strncpy_rest_def has_prefix_iff split: if_split_asm)
      ultimately show ?thesis using IH by simp
    qed
  qed (simp add: physical_id_def)
  moreover have "NUL \<in> set arr" "t = c_string arr" using assms(3) by (auto simp: array_string_def split: if_split_asm)
  ultimately show ?thesis by (auto simp: c_string_append_NUL)
qed

text \<open>The array \<open>corenum\<close> holds what follows the first five characters of the label.\<close>

lemma temp_label_text:
  assumes "temp_label chipnum f = Some l" "NUL \<notin> set (feat_label f)"
  shows "\<exists>p. array_string chipnum = Some p \<and> l = ''CPU'' @ p @ '':core'' @ drop 5 (feat_label f)"
proof -
  let ?r = "drop 5 (feat_label f)"
  have r: "NUL \<notin> set ?r" using assms(2) in_set_dropD by fastforce
  obtain p core where l: "array_string chipnum = Some p" "strncpy_rest 5 (feat_label f) (replicate 3 NUL) = Some core"
    and "l = ''CPU'' @ p @ '':core'' @ c_string core" "NUL \<in> set core"
    using assms(1) by (auto simp: temp_label_def array_string_def c_store_Some Option.bind_eq_Some_conv split: if_split_asm)
  moreover have core: "core = ?r @ replicate (3 - length ?r) NUL" "length ?r \<le> 3"
    using l(2) by (auto simp: strncpy_rest_def split: if_split_asm)
  moreover have "length ?r \<noteq> 3" using core r \<open>NUL \<in> set core\<close> by auto
  ultimately show ?thesis using r c_string_append_NUL [of ?r "3 - length ?r"] by auto
qed

lemma temp_subfeatures_inv:
  assumes "temp_subfeatures evs c chipnum f subs s = Some s'" "temp_inv chips evs s" "NUL \<notin> set (feat_label f)" "feat_is_temp f"
    "c < length chips" "chip_prefix (chips ! c) = ''coretemp''" "f \<in> set (features (chips ! c))" "set subs \<subseteq> set (subfeatures f)"
    "\<And>t. array_string chipnum = Some t \<Longrightarrow> t = physical_id (features (chips ! c))"
  shows "temp_inv chips evs s'"
  using assms
proof (induction evs c chipnum f subs s rule: temp_subfeatures.induct)
  case (2 evs c chipnum f sub subs s)
  show ?case
  proof (cases "sub_is_temp_input sub \<and> has_prefix ''Core'' (feat_label f)")
    case True
    then obtain l where l: "temp_label chipnum f = Some l" using 2(4) by (auto simp: Option.bind_eq_Some_conv)
    show ?thesis
    proof (cases "l \<in> set evs")
      case in_evs: True
      then obtain d where d: "add_event l (snd s) = Some d"
        "s' = ((fst s)\<lparr>feat_chip := feat_chip (fst s) @ [c], feat_subfeature := feat_subfeature (fst s) @ [sub_number sub]\<rparr>, d)"
        using 2(4) True l by (auto simp: Option.bind_eq_Some_conv)
      have "core_sensor chips l c (sub_number sub)"
        using temp_label_text [OF l 2(6)] 2(7-12) True by (auto simp: core_sensor_def has_prefix_iff)
      then show ?thesis using 2(5) in_evs add_event_Some [of l "snd s" d] d
        by (auto simp: temp_inv_def temp_aligned_def add_event_def nth_append less_Suc_eq split: if_split_asm)
    qed (use 2 True l in auto)
  qed (use 2 in \<open>auto split: if_split_asm\<close>)
qed simp

lemma temp_chip_inv:
  assumes "temp_chip evs x s = Some s'" "temp_inv chips evs s" "x \<in> set (enumerate 0 chips)" "c_labels chips"
  shows "temp_inv chips evs s'"
proof -
  obtain c ch where x: "x = (c, ch)" by (cases x)
  then have ch: "c < length chips" "chips ! c = ch" "ch \<in> set chips" using assms(3) by (auto simp: in_set_enumerate_eq)
  have nul: "\<forall>f \<in> set (features ch). NUL \<notin> set (feat_label f)" using assms(4) ch(3) by (simp add: c_labels_def)
  have "temp_inv chips evs s'"
    if m: "foldM (temp_feature evs c chipnum) (features ch) s = Some s'" and p: "chip_prefix ch = ''coretemp''"
      and n: "foldM chipnum_feature (features ch) (replicate 2 NUL) = Some chipnum" for chipnum
    using m assms(2)
  proof (rule foldM_invariant)
    fix f s s'
    assume f: "f \<in> set (features ch)" "temp_inv chips evs s" "temp_feature evs c chipnum f s = Some s'"
    show "temp_inv chips evs s'"
    proof (cases "feat_is_temp f")
      case True
      with f(3) have "temp_subfeatures evs c chipnum f (subfeatures f) s = Some s'" by (simp add: temp_feature_def)
      then show ?thesis
        by (rule temp_subfeatures_inv) (use f True ch p nul chipnum_physical [OF n nul] in auto)
    qed (use f in \<open>simp add: temp_feature_def\<close>)
  qed
  then show ?thesis using assms(1,2) by (auto simp: temp_chip_def x Option.bind_eq_Some_conv split: if_split_asm)
qed

lemma temp_init_inv:
  assumes "mf_CPU_temperature_init m evs (st0, metrics_start) = Some (1, st, d)" "c_labels (detected_chips m)"
  shows "temp_inv (detected_chips m) evs (st, d) \<and> num_events d = length (events d) \<and> events d \<noteq> []"
proof -
  obtain st' d' where f: "foldM (temp_chip evs) (enumerate 0 (detected_chips m)) (temp_start, metrics_start) = Some (st', d')"
    and e: "events d' \<noteq> []" "st = st'" "d = d'\<lparr>num_events := length (events d')\<rparr>"
    using assms(1) by (auto simp: mf_CPU_temperature_init_def Option.bind_eq_Some_conv split: if_split_asm)
  have "temp_inv (detected_chips m) evs (temp_start, metrics_start)"
    by (simp add: temp_inv_def temp_aligned_def temp_start_def metrics_start_def)
  with f have "temp_inv (detected_chips m) evs (st', d')" by (rule foldM_invariant) (rule temp_chip_inv [OF _ _ _ assms(2)])
  then show ?thesis using e by (simp add: temp_inv_def temp_aligned_def)
qed

text \<open>The last reading that succeeded among the sensors up to \<open>i\<close>.\<close>

fun last_reading :: "(nat \<Rightarrow> cfp option) \<Rightarrow> nat \<Rightarrow> cfp option" where
  "last_reading r 0 = r 0"
| "last_reading r (Suc i) = (case r (Suc i) of None \<Rightarrow> last_reading r i | Some v \<Rightarrow> Some v)"

definition temp_reading :: "sensors \<Rightarrow> temp_state \<Rightarrow> nat \<Rightarrow> cfp option" where
  "temp_reading m st i = sensor_value m (feat_chip st ! i) (feat_subfeature st ! i)"

lemma temp_sample_loop:
  assumes "temp_aligned (st, d)" "n \<le> length (events d)" "temp_reading m st 0 \<noteq> None"
  shows "\<exists>d'. foldM (temp_sample_one m st) [0..<n] (None, d) =
      Some (if n = 0 then None else last_reading (temp_reading m st) (n - 1), d') \<and> same_events d d' \<and>
    (\<forall>i < n. values d' ! i = map_option (fp_conv binary32) (last_reading (temp_reading m st) i))"
  using assms(2)
proof (induction n)
  case (Suc n)
  then obtain d1 where d1: "foldM (temp_sample_one m st) [0..<n] (None, d) =
      Some (if n = 0 then None else last_reading (temp_reading m st) (n - 1), d1)" "same_events d d1"
    "\<forall>i < n. values d1 ! i = map_option (fp_conv binary32) (last_reading (temp_reading m st) i)" by auto
  have l: "n < length (feat_chip st)" "n < length (feat_subfeature st)" "n < length (values d1)"
    using assms(1) Suc.prems d1(2) by (simp_all add: temp_aligned_def same_events_def)
  have new: "(case temp_reading m st n of None \<Rightarrow> if n = 0 then None else last_reading (temp_reading m st) (n - 1) | Some v \<Rightarrow> Some v)
      = last_reading (temp_reading m st) n"
    by (cases n) (auto split: option.split)
  have "last_reading (temp_reading m st) k \<noteq> None" for k
    using assms(3) by (induction k) (auto split: option.split)
  then obtain v where v: "last_reading (temp_reading m st) n = Some v" by blast
  have "temp_sample_one m st n (if n = 0 then None else last_reading (temp_reading m st) (n - 1), d1) =
      Some (Some v, d1\<lparr>values := (values d1)[n := Some (fp_conv binary32 v)]\<rparr>)"
    using l new v unfolding temp_sample_one_def prod.case temp_reading_def Let_def by simp
  then show ?case using d1 v l(3)
    by (auto simp: foldM_append same_events_def nth_list_update less_Suc_eq)
qed simp

lemma temp_sample_same:
  "mf_CPU_temperature_sample m (st, d) = Some (st', d') \<Longrightarrow> same_events d d'"
proof -
  have "same_events d (snd x)" if "foldM (temp_sample_one m st) is (None, d) = Some x" for "is" x
    using that by (rule foldM_invariant [where P = "\<lambda>x. same_events d (snd x)"])
      (auto simp: temp_sample_one_def Let_def Option.bind_eq_Some_conv split: if_split_asm
        intro: same_events_trans dest!: set_value_same)
  then show "mf_CPU_temperature_sample m (st, d) = Some (st', d') \<Longrightarrow> same_events d d'"
    by (fastforce simp: mf_CPU_temperature_sample_def Option.bind_eq_Some_conv)
qed

interpretation temp: connector mf_CPU_temperature_sample
  by unfold_locales (rule temp_sample_same)

text \<open>
  C32. After a successful initialisation every event is a configured one and has its own sensor:
  an event \<open>CPU<p>:core<k>\<close> the input of the feature \<open>Core <k>\<close> of a \<open>coretemp\<close> chip with
  physical id \<open>p\<close>. A sample in which the first sensor can be read stores at each event the
  temperature of its sensor, but for a sensor that cannot be read the temperature of the nearest
  one before it that could. (The labels the sensors library gives are C strings, without NUL.)
\<close>

theorem CPU_temperature_sample:
  assumes "mf_CPU_temperature_init m0 evs (st0, metrics_start) = Some (1, st, d)" "c_labels (detected_chips m0)"
    "temp_reading m st 0 \<noteq> None" "i < num_events d"
  shows "events d ! i \<in> set evs \<and> core_sensor (detected_chips m0) (events d ! i) (feat_chip st ! i) (feat_subfeature st ! i) \<and>
    (\<exists>d'. mf_CPU_temperature_sample m (st, d) = Some (st, d') \<and> same_events d d' \<and>
      (\<forall>v. sensor_value m (feat_chip st ! i) (feat_subfeature st ! i) = Some v \<longrightarrow> values d' ! i = Some (fp_conv binary32 v)) \<and>
      (sensor_value m (feat_chip st ! i) (feat_subfeature st ! i) = None \<longrightarrow> 0 < i \<and> values d' ! i = values d' ! (i - 1)))"
proof -
  have inv: "temp_inv (detected_chips m0) evs (st, d)" "num_events d = length (events d)" using temp_init_inv [OF assms(1,2)] by blast+
  then obtain x d' where d': "foldM (temp_sample_one m st) [0..<num_events d] (None, d) = Some (x, d')" "same_events d d'"
    "\<forall>i < num_events d. values d' ! i = map_option (fp_conv binary32) (last_reading (temp_reading m st) i)"
    using temp_sample_loop [of st d "num_events d" m] assms(3) by (auto simp: temp_inv_def)
  have "values d' ! i = Some (fp_conv binary32 v)" if "sensor_value m (feat_chip st ! i) (feat_subfeature st ! i) = Some v" for v
    using that d'(3) assms(4) by (cases i) (simp_all add: temp_reading_def)
  moreover have "0 < i \<and> values d' ! i = values d' ! (i - 1)" if "sensor_value m (feat_chip st ! i) (feat_subfeature st ! i) = None"
    using that d'(3) assms(3,4) by (cases i) (simp_all add: temp_reading_def)
  ultimately show ?thesis using inv assms(4) d'(1,2) by (auto simp: temp_inv_def mf_CPU_temperature_sample_def)
qed

subsection \<open>Concrete runs\<close>

definition core_feature :: "cstr \<Rightarrow> int \<Rightarrow> feature" where
  "core_feature l n = \<lparr>feat_is_temp = True, feat_label = l, subfeatures = [\<lparr>sub_number = n, sub_is_temp_input = True\<rparr>]\<rparr>"

definition sample_sensors :: sensors where
  "sample_sensors = \<lparr>sensors_ready = True,
     detected_chips = [\<lparr>chip_prefix = ''acpi'', features = []\<rparr>,
       \<lparr>chip_prefix = ''coretemp'', features = [core_feature ''Physical id 0'' 1, core_feature ''Core 0'' 2, core_feature ''Core 1'' 3]\<rparr>],
     sensor_value = (\<lambda>c n. if n = 2 then Some (Fin False 50) else None)\<rparr>"

lemma sample_sensors_init:
  obtains d where "mf_CPU_temperature_init sample_sensors [''CPU0:core1'', ''CPU0:core0''] (temp_start, metrics_start) =
      Some (1, \<lparr>feat_chip = [1, 1], feat_subfeature = [2, 3]\<rparr>, d)" "num_events d = 2"
proof -
  have "\<exists>d. mf_CPU_temperature_init sample_sensors [''CPU0:core1'', ''CPU0:core0''] (temp_start, metrics_start) =
      Some (1, \<lparr>feat_chip = [1, 1], feat_subfeature = [2, 3]\<rparr>, d) \<and> num_events d = 2"
    by (simp add: mf_CPU_temperature_init_def sample_sensors_def temp_chip_def core_feature_def chipnum_feature_def
        temp_feature_def temp_label_def has_prefix_def strncmp_eq_def strncpy_rest_def array_string_def c_string_def
        add_event_def metrics_start_def temp_start_def MAX_EVENTS_NUMBER_def MAX_EVENTS_LEN_def numeral_eq_Suc)
  then show ?thesis using that by blast
qed

theorem CPU_temperature_sample_witness:
  "\<exists>st d d'. mf_CPU_temperature_init sample_sensors [''CPU0:core1'', ''CPU0:core0''] (temp_start, metrics_start) = Some (1, st, d) \<and>
     mf_CPU_temperature_sample sample_sensors (st, d) = Some (st, d') \<and> values d' ! 0 = Some (fp_conv binary32 (Fin False 50)) \<and>
     core_sensor (detected_chips sample_sensors) (events d ! 1) 1 3"
proof -
  obtain d where i: "mf_CPU_temperature_init sample_sensors [''CPU0:core1'', ''CPU0:core0''] (temp_start, metrics_start) =
      Some (1, \<lparr>feat_chip = [1, 1], feat_subfeature = [2, 3]\<rparr>, d)" "num_events d = 2"
    using sample_sensors_init .
  have r: "temp_reading sample_sensors \<lparr>feat_chip = [1, 1], feat_subfeature = [2, 3]\<rparr> 0 \<noteq> None"
    "sensor_value sample_sensors 1 2 = Some (Fin False 50)"
    by (simp_all add: temp_reading_def sample_sensors_def)
  have c: "c_labels (detected_chips sample_sensors)"
    by (auto simp: c_labels_def sample_sensors_def core_feature_def)
  show ?thesis using CPU_temperature_sample [OF i(1) c r(1), of 0] CPU_temperature_sample [OF i(1) c r(1), of 1] i r(2)
    by (auto simp del: fp_conv.simps)
qed

end
