(* ===== verification/Plugin_Glue.thy ===== *)
theory Plugin_Glue
  imports Plugin_Discover Linux_Sys_Power RAPL_Power NVML Board_Power CPU_Temperature
begin

text \<open>
  The entry points of the seven plugins, \<^verbatim>\<open>plugins/*/src/mf_plugin_*.c\<close>: an init function,
  which reads the metrics that are switched on, initialises the connector and registers the
  hook, and the hook, which samples and returns the JSON text. The files are the same but for
  names, parameters and the connector they call; their common text is \<open>plugin_init\<close> and
  \<open>plugin_hook\<close>, which each plugin's functions instantiate.

  The four static variables of a plugin are \<open>plugin_vars\<close>. The array of keys is allocated
  without being cleared, so it is defined only when the configuration has been parsed.
\<close>

record 's plugin_vars =
  conf_keys :: "cstr list"
  connector_state :: 's
  monitoring_data :: Plugin_metrics
  is_initialized :: bool

definition plugin_vars_start :: "'s \<Rightarrow> 's plugin_vars" where
  "plugin_vars_start s = \<lparr>conf_keys = [], connector_state = s, monitoring_data = metrics_start, is_initialized = False\<rparr>"

type_synonym 's initialiser = "cstr list \<Rightarrow> 's \<times> Plugin_metrics \<Rightarrow> (int \<times> 's \<times> Plugin_metrics) option"

text \<open>What the init functions of one agent share: the configuration and how its tables are visited.\<close>

record config =
  conf :: mfp_state
  conf_order :: "table \<Rightarrow> cstr list"

definition metrics_on :: "config \<Rightarrow> cstr \<Rightarrow> cstr list option" where
  "metrics_on c section =
     (if \<not> ht_initialized (conf c) then None
      else map_option keys (mfp_get_data_filtered_by_value (conf_order c) (conf c) section (Some ''on'') \<lparr>keys = [], vals = []\<rparr>))"

definition plugin_finish ::
  "('q, 'h) ecq \<Rightarrow> cstr \<Rightarrow> 'h \<Rightarrow> cstr list \<Rightarrow> int \<times> 's \<times> Plugin_metrics \<Rightarrow> 's plugin_vars \<Rightarrow> 'q plugin_manager \<Rightarrow>
   int \<times> 's plugin_vars \<times> 'q plugin_manager" where
  "plugin_finish Q section h ks = (\<lambda>(ret, st, d) v mgr.
     (let v1 = v\<lparr>conf_keys := ks, connector_state := st, monitoring_data := d\<rparr> in
      if ret = 0 then (ret, v1, mgr)
      else (ret, v1\<lparr>is_initialized := True\<rparr>, PluginManager_register_hook Q mgr section h)))"

definition plugin_init ::
  "('q, 'h) ecq \<Rightarrow> config \<Rightarrow> cstr \<Rightarrow> 'h \<Rightarrow> 's initialiser \<Rightarrow> 's plugin_vars \<Rightarrow> 'q plugin_manager \<Rightarrow>
   (int \<times> 's plugin_vars \<times> 'q plugin_manager) option" where
  "plugin_init Q c section h connector_init v mgr = do {
     ks \<leftarrow> metrics_on c section;
     r \<leftarrow> connector_init ks (connector_state v, metrics_start);
     Some (plugin_finish Q section h ks r v mgr)
   }"

text \<open>The hook: a JSON text, or null (\<open>None\<close>) before a successful initialisation.\<close>

definition plugin_hook ::
  "('s \<times> Plugin_metrics \<Rightarrow> ('s \<times> Plugin_metrics) option) \<Rightarrow> ('s \<Rightarrow> Plugin_metrics \<Rightarrow> cstr list \<Rightarrow> cstr option) \<Rightarrow>
   's plugin_vars \<Rightarrow> (cstr option \<times> 's plugin_vars) option" where
  "plugin_hook sample to_json v =
     (if \<not> is_initialized v then Some (None, v)
      else do {
        (st, d) \<leftarrow> sample (connector_state v, monitoring_data v);
        json \<leftarrow> to_json st d (conf_keys v);
        Some (Some json, v\<lparr>connector_state := st, monitoring_data := d\<rparr>)
      })"

subsection \<open>The seven plugins\<close>

definition init_mf_plugin_Linux_resources where
  "init_mf_plugin_Linux_resources Q c h m v mgr =
     plugin_init Q c ''mf_plugin_Linux_resources'' h (mf_Linux_resources_init m) v mgr"

definition mf_plugin_Linux_resources_hook where
  "mf_plugin_Linux_resources_hook m v =
     plugin_hook (mf_Linux_resources_sample m) (\<lambda>st d _. mf_Linux_resources_to_json st d) v"

definition init_mf_plugin_Linux_sys_power where
  "init_mf_plugin_Linux_sys_power Q c h m v mgr =
     plugin_init Q c ''mf_plugin_Linux_sys_power'' h (mf_Linux_sys_power_init m) v mgr"

definition mf_plugin_Linux_sys_power_hook where
  "mf_plugin_Linux_sys_power_hook m v =
     plugin_hook (mf_Linux_sys_power_sample m) (\<lambda>st d _. mf_Linux_sys_power_to_json st d) v"

definition init_mf_plugin_RAPL_power where
  "init_mf_plugin_RAPL_power Q c h m v mgr =
     plugin_init Q c ''mf_plugin_RAPL_power'' h (mf_RAPL_power_init m) v mgr"

definition mf_plugin_RAPL_power_hook where
  "mf_plugin_RAPL_power_hook m v =
     plugin_hook (mf_RAPL_power_sample m) (\<lambda>st d _. mf_RAPL_power_to_json st d) v"

definition init_mf_plugin_NVML where
  "init_mf_plugin_NVML Q c h m v mgr = plugin_init Q c ''mf_plugin_NVML'' h (mf_NVML_init m) v mgr"

definition mf_plugin_NVML_hook where
  "mf_plugin_NVML_hook m t v = plugin_hook (mf_NVML_sample m) (\<lambda>st d evs. mf_NVML_to_json t d evs) v"

definition init_mf_plugin_CPU_temperature where
  "init_mf_plugin_CPU_temperature Q c h m v mgr =
     plugin_init Q c ''mf_plugin_CPU_temperature'' h (mf_CPU_temperature_init m) v mgr"

definition mf_plugin_CPU_temperature_hook where
  "mf_plugin_CPU_temperature_hook m t v =
     plugin_hook (mf_CPU_temperature_sample m) (\<lambda>st d _. mf_CPU_temperature_to_json t d) v"

text \<open>
  The number of cores is a static variable of the CPU_perf plugin: it is the first component of
  its connector state. The hook ignores the code of the sample.
\<close>

definition perf_plugin_init :: "papi \<Rightarrow> int \<Rightarrow> (int \<times> perf_state) initialiser" where
  "perf_plugin_init m n ks = (\<lambda>((_, st), d). map_option (\<lambda>(rc, st', d'). (rc, (n, st'), d')) (mf_CPU_perf_init m ks n (st, d)))"

definition init_mf_plugin_CPU_perf where
  "init_mf_plugin_CPU_perf Q c h m v mgr = do {
     str_num_cores \<leftarrow> mfp_get_value (conf c) ''mf_plugin_CPU_perf'' ''MAX_CPU_CORES'' 10 [];
     plugin_init Q c ''mf_plugin_CPU_perf'' h (perf_plugin_init m (atoi str_num_cores)) v mgr
   }"

definition perf_plugin_sample ::
  "papi \<Rightarrow> (int \<times> perf_state) \<times> Plugin_metrics \<Rightarrow> ((int \<times> perf_state) \<times> Plugin_metrics) option" where
  "perf_plugin_sample m = (\<lambda>((n, st), d). map_option (\<lambda>(rc, st', d'). ((n, st'), d')) (mf_CPU_perf_sample m n (st, d)))"

definition mf_plugin_CPU_perf_hook where
  "mf_plugin_CPU_perf_hook m t v = plugin_hook (perf_plugin_sample m) (\<lambda>st d evs. mf_CPU_perf_to_json t d evs) v"

text \<open>The Board_power connector may end the process.\<close>

definition init_mf_plugin_Board_power where
  "init_mf_plugin_Board_power Q c h m v mgr = do {
     ks \<leftarrow> metrics_on c ''mf_plugin_Board_power'';
     acme_name \<leftarrow> mfp_get_value (conf c) ''mf_plugin_Board_power'' ''ACME_BOARD_NAME'' 16 [];
     r \<leftarrow> mf_Board_power_init m ks acme_name (connector_state v, metrics_start);
     Some (case r of Exit e \<Rightarrow> Exit e
       | Return x \<Rightarrow> Return (plugin_finish Q ''mf_plugin_Board_power'' h ks x v mgr))
   }"

definition mf_plugin_Board_power_hook where
  "mf_plugin_Board_power_hook refills t v =
     plugin_hook (mf_Board_power_sample refills) (\<lambda>st d evs. mf_Board_power_to_json t d evs) v"


subsection \<open>The contract of a plugin\<close>

text \<open>
  What the common text relies on in a connector: its init function returns 0 or 1, and its
  sampling keeps the events. Inside the locale: the init function of the plugin then registers
  its hook exactly when it succeeds, and calling the hook changes neither the events nor the
  other static variables.
\<close>

locale plugin_connector = connector sample
  for sample :: "'e \<Rightarrow> 's \<times> Plugin_metrics \<Rightarrow> ('s \<times> Plugin_metrics) option" +
  fixes connector_init :: "'m \<Rightarrow> 's initialiser"
  assumes init_code: "connector_init m ks x = Some (rc, y) \<Longrightarrow> rc = 0 \<or> rc = 1"
begin

lemma init_registers:
  assumes "plugin_init Q c section h (connector_init m) v mgr = Some (rc, v', mgr')"
  shows "(rc = 0 \<or> rc = 1) \<and> (is_initialized v' \<longleftrightarrow> is_initialized v \<or> rc = 1) \<and>
    mgr' = (if rc = 1 then PluginManager_register_hook Q mgr section h else mgr)"
proof -
  obtain ks st d where r: "connector_init m ks (connector_state v, metrics_start) = Some (rc, st, d)"
    and f: "plugin_finish Q section h ks (rc, st, d) v mgr = (rc, v', mgr')"
    using assms by (auto simp: plugin_init_def plugin_finish_def Let_def Option.bind_eq_Some_conv split: if_split_asm)
  then show ?thesis using init_code [OF r] by (auto simp: plugin_finish_def Let_def split: if_split_asm)
qed

lemma hook_keeps:
  assumes "plugin_hook (sample e) to_json v = Some (r, v')"
  shows "same_events (monitoring_data v) (monitoring_data v') \<and> is_initialized v' = is_initialized v \<and>
    conf_keys v' = conf_keys v \<and> (r = None \<longleftrightarrow> \<not> is_initialized v)"
  using assms sample_events
  by (auto simp: plugin_hook_def Option.bind_eq_Some_conv split: if_split_asm)

end

text \<open>
  A plugin whose text always fits: besides, an invariant holds after a successful
  initialisation, sampling keeps it, and when it holds the JSON text of a sample is \<open>text\<close>.
\<close>

locale reporting_plugin = plugin_connector sample connector_init
  for sample :: "'e \<Rightarrow> 's \<times> Plugin_metrics \<Rightarrow> ('s \<times> Plugin_metrics) option"
    and connector_init :: "'m \<Rightarrow> 's initialiser" +
  fixes start :: 's
    and ready :: "'s \<times> Plugin_metrics \<Rightarrow> bool"
    and clock_ok :: "'e \<Rightarrow> bool"
    and to_json :: "'s \<Rightarrow> Plugin_metrics \<Rightarrow> cstr list \<Rightarrow> cstr option"
    and json_text :: "'s \<Rightarrow> Plugin_metrics \<Rightarrow> cstr"
  assumes init_ready: "connector_init m ks (start, metrics_start) = Some (1, x) \<Longrightarrow> ready x"
    and sample_ready: "ready x \<Longrightarrow> sample e x = Some y \<Longrightarrow> ready y"
    and sample_text: "ready x \<Longrightarrow> clock_ok e \<Longrightarrow> sample e x = Some (st, d) \<Longrightarrow> to_json st d ks = Some (json_text st d)"
begin

definition plugin_ready :: "'s plugin_vars \<Rightarrow> bool" where
  "plugin_ready v \<longleftrightarrow> is_initialized v \<and> ready (connector_state v, monitoring_data v)"

lemma init_plugin_ready:
  assumes "plugin_init Q c section h (connector_init m) (plugin_vars_start start) mgr = Some (1, v, mgr')"
  shows "plugin_ready v"
proof -
  obtain ks st d where r: "connector_init m ks (start, metrics_start) = Some (1, st, d)"
    and "plugin_finish Q section h ks (1, st, d) (plugin_vars_start start) mgr = (1, v, mgr')"
    using assms by (auto simp: plugin_init_def plugin_finish_def plugin_vars_start_def Let_def Option.bind_eq_Some_conv split: if_split_asm)
  then show ?thesis using init_ready [OF r] by (auto simp: plugin_ready_def plugin_finish_def Let_def)
qed

lemma hooks_ready:
  assumes "plugin_ready v" "foldM (\<lambda>e v. map_option snd (plugin_hook (sample e) to_json v)) es v = Some v'"
  shows "plugin_ready v'"
  using assms(2,1)
  by (rule foldM_invariant)
    (auto simp: plugin_ready_def plugin_hook_def Option.bind_eq_Some_conv intro: sample_ready split: if_split_asm)

lemma hook_reports:
  assumes "plugin_ready v" "clock_ok e" "sample e (connector_state v, monitoring_data v) = Some (st, d)"
  shows "plugin_hook (sample e) to_json v = Some (Some (json_text st d), v\<lparr>connector_state := st, monitoring_data := d\<rparr>)"
  using assms sample_text [of "(connector_state v, monitoring_data v)" e st d "conf_keys v"]
  by (simp add: plugin_ready_def plugin_hook_def)

end

subsection \<open>The connectors keep the contract\<close>

lemma lin_init_code: "mf_Linux_resources_init m ks x = Some (rc, y) \<Longrightarrow> rc = 0 \<or> rc = 1"
  by (cases x) (auto simp: mf_Linux_resources_init_def Option.bind_eq_Some_conv split: if_split_asm prod.split_asm)

lemma power_init_code: "mf_Linux_sys_power_init m ks x = Some (rc, y) \<Longrightarrow> rc = 0 \<or> rc = 1"
  by (cases x) (auto simp: mf_Linux_sys_power_init_def Option.bind_eq_Some_conv split: if_split_asm prod.split_asm)

lemma rapl_init_code: "mf_RAPL_power_init m ks x = Some (rc, y) \<Longrightarrow> rc = 0 \<or> rc = 1"
  by (cases x) (auto simp: mf_RAPL_power_init_def Let_def Option.bind_eq_Some_conv split: if_split_asm)

lemma nvml_init_code: "mf_NVML_init m ks x = Some (rc, y) \<Longrightarrow> rc = 0 \<or> rc = 1"
  by (cases x) (auto simp: mf_NVML_init_def Let_def split_def Option.bind_eq_Some_conv split: if_split_asm option.split_asm)

lemma temp_init_code: "mf_CPU_temperature_init m ks x = Some (rc, y) \<Longrightarrow> rc = 0 \<or> rc = 1"
  by (cases x) (auto simp: mf_CPU_temperature_init_def Let_def split_def Option.bind_eq_Some_conv split: if_split_asm)

lemma perf_init_code: "perf_plugin_init m n ks x = Some (rc, y) \<Longrightarrow> rc = 0 \<or> rc = 1"
  by (cases x) (auto simp: perf_plugin_init_def mf_CPU_perf_init_def Let_def split_def Option.bind_eq_Some_conv split: if_split_asm)

interpretation lin_plugin: plugin_connector mf_Linux_resources_sample mf_Linux_resources_init
  by unfold_locales (rule lin_init_code)

interpretation rapl_plugin: plugin_connector mf_RAPL_power_sample mf_RAPL_power_init
  by unfold_locales (rule rapl_init_code)

interpretation nvml_plugin: plugin_connector mf_NVML_sample mf_NVML_init
  by unfold_locales (rule nvml_init_code)

interpretation temp_plugin: plugin_connector mf_CPU_temperature_sample mf_CPU_temperature_init
  by unfold_locales (rule temp_init_code)

interpretation perf_plugin: plugin_connector perf_plugin_sample "\<lambda>(m, n). perf_plugin_init m n"
proof
  fix m and st :: "int \<times> perf_state" and d st' d'
  assume "perf_plugin_sample m (st, d) = Some (st', d')"
  then show "same_events d d'"
    using perf.sample_events [of "(m, fst st)" "snd st" d _ d']
    by (cases st) (fastforce simp: perf_plugin_sample_def)
qed (auto dest: perf_init_code)

interpretation power_plugin: reporting_plugin mf_Linux_sys_power_sample mf_Linux_sys_power_init power_start
  "\<lambda>(st, d). power_ready st d" "\<lambda>m. \<exists>a. seconds (realtime (base m)) = Fin False a \<and> 0 \<le> a \<and> a \<le> 10 ^ 12"
  "\<lambda>st d _. mf_Linux_sys_power_to_json st d" power_text
proof
  show "mf_Linux_sys_power_init m ks x = Some (rc, y) \<Longrightarrow> rc = 0 \<or> rc = 1" for m ks x rc y
    by (rule power_init_code)
  show "mf_Linux_sys_power_init m ks (power_start, metrics_start) = Some (1, x) \<Longrightarrow> (case x of (st, d) \<Rightarrow> power_ready st d)" for m ks x
    using power_init_ready [of m ks 1] by (cases x) auto
  show "(case x of (st, d) \<Rightarrow> power_ready st d) \<Longrightarrow> mf_Linux_sys_power_sample e x = Some y \<Longrightarrow> (case y of (st, d) \<Rightarrow> power_ready st d)" for x e y
    using power_ready_step by (cases x; cases y) auto
  fix x e st d ks
  assume r: "case x of (st, d) \<Rightarrow> power_ready st d" and s: "mf_Linux_sys_power_sample e x = Some (st, d)"
    and "\<exists>a. seconds (realtime (base e)) = Fin False a \<and> 0 \<le> a \<and> a \<le> 10 ^ 12"
  then obtain a where a: "seconds (realtime (base e)) = Fin False a" "0 \<le> a" "a \<le> 10 ^ 12" by blast
  obtain st0 d0 where x: "x = (st0, d0)" by (cases x)
  have "after st = seconds (realtime (base e))"
    using s unfolding x by (rule power_sample_after)
  then show "mf_Linux_sys_power_to_json st d = Some (power_text st d)"
    using power_json_fits power_ready_step power_sample_printable r s a unfolding x by (metis (no_types) prod.case)
qed


subsection \<open>What the plugins guarantee\<close>

text \<open>
  The outcome of an init function: it fails and registers nothing, or succeeds and registers
  exactly the hook; \<open>None\<close> is an initialisation that leaves the language.
\<close>

definition registers ::
  "('q, 'h) ecq \<Rightarrow> cstr \<Rightarrow> 'h \<Rightarrow> 's plugin_vars \<Rightarrow> 'q plugin_manager \<Rightarrow>
   (int \<times> 's plugin_vars \<times> 'q plugin_manager) option \<Rightarrow> bool" where
  "registers Q section h v mgr r \<longleftrightarrow> (case r of None \<Rightarrow> True
     | Some (rc, v', mgr') \<Rightarrow>
         (rc = 0 \<and> is_initialized v' = is_initialized v \<and> mgr' = mgr) \<or>
         (rc = 1 \<and> is_initialized v' \<and> mgr' = PluginManager_register_hook Q mgr section h))"

context plugin_connector begin

lemma plugin_init_registers: "registers Q section h v mgr (plugin_init Q c section h (connector_init m) v mgr)"
proof (cases "plugin_init Q c section h (connector_init m) v mgr")
  case (Some r)
  then obtain rc v' mgr' where "plugin_init Q c section h (connector_init m) v mgr = Some (rc, v', mgr')" by (cases r) auto
  with init_registers [OF this] Some show ?thesis by (auto simp: registers_def)
qed (simp add: registers_def)

end

lemma bind_registers: "(\<And>x. registers Q s h v mgr (f x)) \<Longrightarrow> registers Q s h v mgr (Option.bind r f)"
  by (cases r) (auto simp: registers_def)

lemma create_EventSets_code: "create_EventSets st evs d = Some (rc, d') \<Longrightarrow> rc = 0 \<or> rc = 1"
  by (induction st evs d rule: create_EventSets.induct) (auto simp: Option.bind_eq_Some_conv split: option.split_asm)

lemma board_init_code: "mf_Board_power_init m ks a x = Some (Return (rc, y)) \<Longrightarrow> rc = 0 \<or> rc = 1"
  by (cases x) (auto simp: mf_Board_power_init_def Option.bind_eq_Some_conv dest: create_EventSets_code
      split: option.split_asm call.split_asm if_split_asm)

text \<open>What a function returns when it returns at all: a call that ends the process has no result.\<close>

definition returned :: "'a call option \<Rightarrow> 'a option" where
  "returned r = (case r of Some (Return x) \<Rightarrow> Some x | _ \<Rightarrow> None)"

lemma board_registers:
  "registers Q ''mf_plugin_Board_power'' h v mgr (returned (init_mf_plugin_Board_power Q c h m v mgr))"
proof (cases "returned (init_mf_plugin_Board_power Q c h m v mgr)")
  case (Some r)
  then obtain x where "init_mf_plugin_Board_power Q c h m v mgr = Some (Return r)"
    by (auto simp: returned_def split: option.split_asm call.split_asm)
  then obtain ks a x where "mf_Board_power_init m ks a (connector_state v, metrics_start) = Some x"
    and "(case x of Exit e \<Rightarrow> Exit e | Return y \<Rightarrow> Return (plugin_finish Q ''mf_plugin_Board_power'' h ks y v mgr)) = Return r"
    by (auto simp: init_mf_plugin_Board_power_def Option.bind_eq_Some_conv)
  then obtain rc st d where i: "mf_Board_power_init m ks a (connector_state v, metrics_start) = Some (Return (rc, st, d))"
    and r: "r = plugin_finish Q ''mf_plugin_Board_power'' h ks (rc, st, d) v mgr"
    by (cases x) auto
  then show ?thesis using board_init_code [OF i] Some
    by (auto simp: registers_def plugin_finish_def Let_def)
qed (simp add: registers_def)






text \<open>
  C20. After a successful initialisation the hook of the Linux_sys_power plugin, called any
  number of times, always returns the complete JSON text of its sample: the 1024 characters
  allocated for it are never exceeded, whatever the machine reports, while the clock is within
  10^12 seconds of the epoch.
\<close>

theorem Linux_sys_power_hook_json:
  assumes "init_mf_plugin_Linux_sys_power Q c h m0 (plugin_vars_start power_start) mgr = Some (1, v0, mgr')"
    "foldM (\<lambda>m v. map_option snd (mf_plugin_Linux_sys_power_hook m v)) ms v0 = Some v"
    "mf_Linux_sys_power_sample m (connector_state v, monitoring_data v) = Some (st, d)"
    "seconds (realtime (base m)) = Fin False a" "0 \<le> a" "a \<le> 10 ^ 12"
  shows "mf_plugin_Linux_sys_power_hook m v =
    Some (Some (power_text st d), v\<lparr>connector_state := st, monitoring_data := d\<rparr>)"
proof -
  have "power_plugin.plugin_ready v0"
    by (rule power_plugin.init_plugin_ready [OF assms(1) [unfolded init_mf_plugin_Linux_sys_power_def]])
  then have "power_plugin.plugin_ready v"
    using assms(2) unfolding mf_plugin_Linux_sys_power_hook_def by (rule power_plugin.hooks_ready)
  then show ?thesis
    unfolding mf_plugin_Linux_sys_power_hook_def using assms(3-) by (intro power_plugin.hook_reports) blast+
qed

definition power_config :: config where
  "power_config = \<lparr>conf = \<lparr>ht_initialized = True, mp_alive = True, ht_config = [''mf_plugin_Linux_sys_power'' \<mapsto>
     [''estimated_total_power'' \<mapsto> ''on'', ''estimated_CPU_power'' \<mapsto> ''on'']]\<rparr>, conf_order = (\<lambda>_. wanted_power)\<rparr>"

lemma power_config_on: "metrics_on power_config ''mf_plugin_Linux_sys_power'' = Some wanted_power"
  by code_simp

text \<open>
  A board name of sixteen or more characters overflows the array of the Board_power plugin,
  whatever else the configuration holds.
\<close>

theorem Board_power_name_overflow:
  assumes "ht_initialized (conf c)" "mp_alive (conf c)"
    "mfp_lookup (conf c) ''mf_plugin_Board_power'' ''ACME_BOARD_NAME'' = Some name" "16 \<le> length name"
  shows "init_mf_plugin_Board_power Q c h m v mgr = None"
proof -
  have "mfp_get_value (conf c) ''mf_plugin_Board_power'' ''ACME_BOARD_NAME'' 16 [] = None"
    using assms(3,4) by (simp add: mfp_get_value_lookup [OF assms(1,2)] c_store_def)
  then show ?thesis by (simp add: init_mf_plugin_Board_power_def Option.bind_eq_None_conv)
qed


lemma quiet_init:
  obtains st d x where "mf_Linux_sys_power_init quiet_machine wanted_power (power_start, metrics_start) = Some (1, st, d)"
    "mf_Linux_sys_power_sample quiet_machine (st, d) = Some x"
proof -
  obtain k w where kw: "flag_init_power wanted_power 0 = (k, w)" by (cases "flag_init_power wanted_power 0")
  then have "has_stat w 0" using wanted_power_flag [of 0] by simp
  then have "w \<noteq> 0" by (auto simp: has_stat_def)
  with kw have w: "flag_init_power wanted_power 0 = (1, w)" by (auto simp: flag_init_power_def Let_def)
  have f: "has_stat w ii \<longleftrightarrow> ii = 0 \<or> ii = 4" for ii using wanted_power_flag [of ii] w by simp
  have p0: "pflag power_start = 0" by (simp add: power_start_def)
  have "\<exists>st d. mf_Linux_sys_power_init quiet_machine wanted_power (power_start, metrics_start) = Some (1, st, d) \<and>
    pflag st = w \<and> length (values d) = 32"
    by (simp add: mf_Linux_sys_power_init_def p0 w f power_init_total_def start_cpu_def start_memory_def
        start_net_def start_io_def quiet_CPU_energy create_perf_stat_counter_def part_events_def
        has_memory_or_disk_def add_event_def MAX_EVENTS_NUMBER_def MAX_EVENTS_LEN_def metrics_start_def)
      (simp add: quiet_machine_def wifi_stat_read_def power_IO_stat_read_def sys_IO_stat_read_def)
  then obtain st d where i: "mf_Linux_sys_power_init quiet_machine wanted_power (power_start, metrics_start) = Some (1, st, d)"
    and st: "pflag st = w" "length (values d) = 32" by blast
  have "\<exists>x. mf_Linux_sys_power_sample quiet_machine (st, d) = Some x"
    by (simp add: mf_Linux_sys_power_sample_def power_sample_total_def cpu_energy_def net_energy_def
        memory_disk_energy_def quiet_CPU_energy st f has_memory_or_disk_def Let_def)
      (simp add: quiet_machine_def wifi_stat_read_def power_IO_stat_read_def sys_IO_stat_read_def st)
  with i that show ?thesis by blast
qed

lemma quiet_vars:
  obtains v mgr st d where "init_mf_plugin_Linux_sys_power list_ecq power_config (0::nat) quiet_machine (plugin_vars_start power_start)
      (PluginManager_new list_ecq) = Some (1, v, mgr)"
    "mf_Linux_sys_power_sample quiet_machine (connector_state v, monitoring_data v) = Some (st, d)"
proof -
  obtain st d st' d' where i: "mf_Linux_sys_power_init quiet_machine wanted_power (power_start, metrics_start) = Some (1, st, d)"
    and s: "mf_Linux_sys_power_sample quiet_machine (st, d) = Some (st', d')"
    using quiet_init by (metis surj_pair)
  obtain v mgr where "init_mf_plugin_Linux_sys_power list_ecq power_config (0::nat) quiet_machine (plugin_vars_start power_start)
      (PluginManager_new list_ecq) = Some (1, v, mgr)" "connector_state v = st" "monitoring_data v = d"
    using i by (simp add: init_mf_plugin_Linux_sys_power_def plugin_init_def power_config_on plugin_finish_def
        plugin_vars_start_def)
  with s that show ?thesis by blast
qed

lemma quiet_clock: "seconds (realtime (base quiet_machine)) = Fin False 7"
  using seconds_whole [of 7] by (simp add: quiet_machine_def)

theorem Linux_sys_power_hook_json_witness:
  "\<exists>v mgr v' text. init_mf_plugin_Linux_sys_power list_ecq power_config (0::nat) quiet_machine (plugin_vars_start power_start)
      (PluginManager_new list_ecq) = Some (1, v, mgr) \<and> mf_plugin_Linux_sys_power_hook quiet_machine v = Some (Some text, v')"
proof -
  obtain v mgr st d where v: "init_mf_plugin_Linux_sys_power list_ecq power_config (0::nat) quiet_machine (plugin_vars_start power_start)
      (PluginManager_new list_ecq) = Some (1, v, mgr)"
    and s: "mf_Linux_sys_power_sample quiet_machine (connector_state v, monitoring_data v) = Some (st, d)"
    by (rule quiet_vars)
  have "mf_plugin_Linux_sys_power_hook quiet_machine v = Some (Some (power_text st d), v\<lparr>connector_state := st, monitoring_data := d\<rparr>)"
    using s by (intro Linux_sys_power_hook_json [OF v, of "[]" v quiet_machine st d 7] quiet_clock) simp_all
  with v show ?thesis by blast
qed

definition jetson :: config where
  "jetson = \<lparr>conf = \<lparr>ht_initialized = True, mp_alive = True, ht_config = [''mf_plugin_Board_power'' \<mapsto>
     [''ACME_BOARD_NAME'' \<mapsto> ''power-jetson.local'']]\<rparr>, conf_order = (\<lambda>_. [''ACME_BOARD_NAME''])\<rparr>"

theorem Board_power_name_overflow_witness:
  "init_mf_plugin_Board_power list_ecq jetson (0::nat) \<lparr>iio_context = (\<lambda>_. None)\<rparr> (plugin_vars_start board_start) (PluginManager_new list_ecq) = None"
  by (rule Board_power_name_overflow [of jetson "''power-jetson.local''"]) (simp_all add: jetson_def mfp_lookup_def)




end
