(* ===== verification/Agent_Plugins.thy ===== *)
theory Agent_Plugins
  imports Plugin_Glue
begin

text \<open>
  The agent with the plugins of this repository: \<open>discover_plugins\<close> of
  \<^verbatim>\<open>agent/plugin_discover.c\<close>, run over a directory of plugin objects whose init functions
  are those of \<open>Plugin_Glue\<close>. Here the loader, a parameter of \<open>Plugin_Discover\<close>, is
  instantiated: an object is one of the seven plugins, its path is the directory, a slash, its
  file name and \<open>.so\<close>, and its only symbol the agent asks for is its init function. A hook is
  named by the plugin it belongs to.
\<close>

datatype agent_plugin =
    mf_plugin_Linux_resources | mf_plugin_Linux_sys_power | mf_plugin_RAPL_power | mf_plugin_NVML
  | mf_plugin_CPU_temperature | mf_plugin_CPU_perf | mf_plugin_Board_power

definition all_plugins :: "agent_plugin list" where
  "all_plugins = [mf_plugin_Linux_resources, mf_plugin_Linux_sys_power, mf_plugin_RAPL_power, mf_plugin_NVML,
     mf_plugin_CPU_temperature, mf_plugin_CPU_perf, mf_plugin_Board_power]"

fun plugin_file :: "agent_plugin \<Rightarrow> cstr" where
  "plugin_file mf_plugin_Linux_resources = ''mf_plugin_Linux_resources''"
| "plugin_file mf_plugin_Linux_sys_power = ''mf_plugin_Linux_sys_power''"
| "plugin_file mf_plugin_RAPL_power = ''mf_plugin_RAPL_power''"
| "plugin_file mf_plugin_NVML = ''mf_plugin_NVML''"
| "plugin_file mf_plugin_CPU_temperature = ''mf_plugin_CPU_temperature''"
| "plugin_file mf_plugin_CPU_perf = ''mf_plugin_CPU_perf''"
| "plugin_file mf_plugin_Board_power = ''mf_plugin_Board_power''"

text \<open>What the plugins read of the machine, each through its library.\<close>

record agent_machine =
  on_linux :: machine
  on_power :: power_machine
  on_rapl :: rapl_machine
  on_nvml :: nvml
  on_sensors :: sensors
  on_papi :: papi
  on_iio :: iio

text \<open>The first call of a plugin's init function: its code and the plugin manager.\<close>

definition outcome :: "(int \<times> 'v \<times> 'm) option \<Rightarrow> (int \<times> 'm) option" where
  "outcome r = map_option (\<lambda>(rc, _, mgr). (rc, mgr)) r"

fun plugin_call ::
  "('q, agent_plugin) ecq \<Rightarrow> config \<Rightarrow> agent_machine \<Rightarrow> agent_plugin \<Rightarrow> 'q plugin_manager \<Rightarrow>
   (int \<times> 'q plugin_manager) option" where
  "plugin_call Q c m mf_plugin_Linux_resources mgr = outcome
     (init_mf_plugin_Linux_resources Q c mf_plugin_Linux_resources (on_linux m) (plugin_vars_start lin_start) mgr)"
| "plugin_call Q c m mf_plugin_Linux_sys_power mgr = outcome
     (init_mf_plugin_Linux_sys_power Q c mf_plugin_Linux_sys_power (on_power m) (plugin_vars_start power_start) mgr)"
| "plugin_call Q c m mf_plugin_RAPL_power mgr = outcome
     (init_mf_plugin_RAPL_power Q c mf_plugin_RAPL_power (on_rapl m) (plugin_vars_start rapl_start) mgr)"
| "plugin_call Q c m mf_plugin_NVML mgr = outcome
     (init_mf_plugin_NVML Q c mf_plugin_NVML (on_nvml m) (plugin_vars_start nvml_start) mgr)"
| "plugin_call Q c m mf_plugin_CPU_temperature mgr = outcome
     (init_mf_plugin_CPU_temperature Q c mf_plugin_CPU_temperature (on_sensors m) (plugin_vars_start temp_start) mgr)"
| "plugin_call Q c m mf_plugin_CPU_perf mgr = outcome
     (init_mf_plugin_CPU_perf Q c mf_plugin_CPU_perf (on_papi m) (plugin_vars_start (1, perf_start)) mgr)"
| "plugin_call Q c m mf_plugin_Board_power mgr = outcome
     (returned (init_mf_plugin_Board_power Q c mf_plugin_Board_power (on_iio m) (plugin_vars_start board_start) mgr))"

definition agent_loader ::
  "('q, agent_plugin) ecq \<Rightarrow> config \<Rightarrow> agent_machine \<Rightarrow> cstr \<Rightarrow> ('q, agent_plugin) loader" where
  "agent_loader Q c m dirname = \<lparr>
     dlopen = (\<lambda>path. find (\<lambda>p. path = dirname @ ''/'' @ plugin_file p @ ''.so'') all_plugins),
     dlsym = (\<lambda>p sym. if sym = ''init_'' @ plugin_file p then Some (\<lambda>mgr. the (plugin_call Q c m p mgr)) else None)\<rparr>"

subsection \<open>An init function is a code and a registration\<close>

definition registered :: "('q, agent_plugin) ecq \<Rightarrow> agent_plugin \<Rightarrow> 'q plugin_manager \<Rightarrow> int \<Rightarrow> int \<times> 'q plugin_manager" where
  "registered Q p mgr rc = (rc, if 0 < rc then PluginManager_register_hook Q mgr (plugin_file p) p else mgr)"

text \<open>The code of an init function, which the plugin manager has no part in.\<close>

definition plugin_code :: "config \<Rightarrow> agent_machine \<Rightarrow> agent_plugin \<Rightarrow> int option" where
  "plugin_code c m p = map_option fst (plugin_call list_ecq c m p (PluginManager_new list_ecq))"


lemma finish_code: "fst (plugin_finish Q s h ks r v mgr) = fst r"
  by (cases r) (simp add: plugin_finish_def Let_def)

lemma plugin_init_code:
  "map_option fst (plugin_init Q c s h ci v mgr) =
   do { ks \<leftarrow> metrics_on c s; r \<leftarrow> ci ks (connector_state v, metrics_start); Some (fst r) }"
  by (auto simp: plugin_init_def finish_code split: Option.bind_split)

lemma perf_code:
  "map_option fst (init_mf_plugin_CPU_perf Q c h m v mgr) = do {
     n \<leftarrow> mfp_get_value (conf c) ''mf_plugin_CPU_perf'' ''MAX_CPU_CORES'' 10 [];
     ks \<leftarrow> metrics_on c ''mf_plugin_CPU_perf'';
     r \<leftarrow> perf_plugin_init m (atoi n) ks (connector_state v, metrics_start); Some (fst r) }"
  by (cases "mfp_get_value (conf c) ''mf_plugin_CPU_perf'' ''MAX_CPU_CORES'' 10 []")
    (simp_all add: init_mf_plugin_CPU_perf_def plugin_init_code)

lemma board_code:
  "map_option fst (returned (init_mf_plugin_Board_power Q c h m v mgr)) = do {
     ks \<leftarrow> metrics_on c ''mf_plugin_Board_power'';
     a \<leftarrow> mfp_get_value (conf c) ''mf_plugin_Board_power'' ''ACME_BOARD_NAME'' 16 [];
     r \<leftarrow> returned (mf_Board_power_init m ks a (connector_state v, metrics_start)); Some (fst r) }"
  by (auto simp: init_mf_plugin_Board_power_def returned_def plugin_finish_def Let_def split: Option.bind_split option.split call.split)

lemma code_outcome: "map_option fst (outcome r) = map_option fst r"
  by (cases r) (auto simp: outcome_def)

lemma plugin_call_code: "map_option fst (plugin_call Q c m p mgr) = plugin_code c m p"
  unfolding plugin_code_def
  by (cases p) (simp_all only: plugin_call.simps code_outcome init_mf_plugin_Linux_resources_def
      init_mf_plugin_Linux_sys_power_def init_mf_plugin_RAPL_power_def init_mf_plugin_NVML_def
      init_mf_plugin_CPU_temperature_def plugin_init_code perf_code board_code)

lemma outcome_registered:
  "registers Q (plugin_file p) p v mgr r \<Longrightarrow> outcome r = map_option (registered Q p mgr) (map_option fst (outcome r))"
  by (cases r) (auto simp: registers_def outcome_def registered_def)

lemma perf_registers:
  "registers Q ''mf_plugin_CPU_perf'' h v mgr (init_mf_plugin_CPU_perf Q c h m v mgr)"
  unfolding init_mf_plugin_CPU_perf_def
  by (intro bind_registers perf_plugin.plugin_init_registers [where m = "(m, n)" for m n, simplified])

lemmas plugin_registers = lin_plugin.plugin_init_registers power_plugin.plugin_init_registers
  rapl_plugin.plugin_init_registers nvml_plugin.plugin_init_registers temp_plugin.plugin_init_registers
  perf_registers board_registers

lemma plugin_call_registered:
  "plugin_call Q c m p mgr = map_option (registered Q p mgr) (plugin_code c m p)"
proof -
  have "plugin_call Q c m p mgr = map_option (registered Q p mgr) (map_option fst (plugin_call Q c m p mgr))"
    by (cases p; simp only: plugin_call.simps; rule outcome_registered; unfold plugin_file.simps
        init_mf_plugin_Linux_resources_def init_mf_plugin_Linux_sys_power_def init_mf_plugin_RAPL_power_def
        init_mf_plugin_NVML_def init_mf_plugin_CPU_temperature_def; rule plugin_registers)
  then show ?thesis by (simp only: plugin_call_code)
qed

lemma outcome_code: "registers Q s h v mgr r \<Longrightarrow> map_option fst (outcome r) = Some rc \<Longrightarrow> rc = 0 \<or> rc = 1"
  by (cases r) (auto simp: registers_def outcome_def)

lemma plugin_code_01: "plugin_code c m p = Some rc \<Longrightarrow> rc = 0 \<or> rc = 1"
  unfolding plugin_code_def
  by (cases p; simp only: plugin_call.simps; erule outcome_code [rotated]; (unfold
        init_mf_plugin_Linux_resources_def init_mf_plugin_Linux_sys_power_def init_mf_plugin_RAPL_power_def
        init_mf_plugin_NVML_def init_mf_plugin_CPU_temperature_def)?; rule plugin_registers)

subsection \<open>What a directory of plugins becomes\<close>

text \<open>The plugin of a directory entry, if it is one of the seven.\<close>

definition entry_plugin :: "cstr \<Rightarrow> agent_plugin option" where
  "entry_plugin e = find (\<lambda>p. e = plugin_file p @ ''.so'') all_plugins"

text \<open>The specification: the plugins of the directory, in its order, that the configuration does not switch off and that succeed.\<close>

definition selected :: "config \<Rightarrow> agent_machine \<Rightarrow> agent_plugin \<Rightarrow> bool" where
  "selected c m p \<longleftrightarrow> mfp_lookup (conf c) ''plugins'' (plugin_file p) \<noteq> Some ''off'' \<and> plugin_code c m p = Some 1"

definition selected_plugins :: "config \<Rightarrow> agent_machine \<Rightarrow> cstr list \<Rightarrow> agent_plugin list" where
  "selected_plugins c m names = filter (selected c m) (List.map_filter entry_plugin names)"

lemma plugin_name_file: "plugin_name (plugin_file p @ ''.so'') = Some (plugin_file p)"
  by (cases p; simp only: plugin_file.simps; code_simp)

lemma agent_contract:
  assumes "\<forall>p. plugin_code c m p \<noteq> None"
  shows "plugin_contract Q (agent_loader Q c m dirname) (\<lambda>p. the (plugin_code c m p)) plugin_file id"
  unfolding plugin_contract_def
proof (intro allI impI)
  fix d sym f pm
  assume f: "dlsym (agent_loader Q c m dirname) d sym = Some f"
  obtain rc where "plugin_code c m d = Some rc" using assms by blast
  then show "f pm = (the (plugin_code c m d),
      if 0 < the (plugin_code c m d) then PluginManager_register_hook Q pm (plugin_file d) (id d) else pm)"
    using f by (auto simp: agent_loader_def plugin_call_registered registered_def split: if_split_asm)
qed

lemma agent_plugin_of:
  assumes "\<forall>p. plugin_code c m p \<noteq> None"
  shows "plugin_of (agent_loader Q c m dirname) (\<lambda>p. the (plugin_code c m p)) (conf c) dirname e =
    (case entry_plugin e of None \<Rightarrow> None | Some p \<Rightarrow> if selected c m p then Some (plugin_file p, p) else None)"
proof -
  have o: "dlopen (agent_loader Q c m dirname) (dirname @ ''/'' @ e) = entry_plugin e"
    by (simp add: agent_loader_def entry_plugin_def)
  show ?thesis
  proof (cases "entry_plugin e")
    case None
    then show ?thesis using o by (auto simp: plugin_of_def split: Option.bind_split)
  next
    case (Some p)
    then have "e = plugin_file p @ ''.so''" by (auto simp: entry_plugin_def find_Some_iff)
    then have "plugin_name e = Some (plugin_file p)" using plugin_name_file by simp
    moreover obtain rc where "plugin_code c m p = Some rc" "rc = 0 \<or> rc = 1" using assms plugin_code_01 by blast
    ultimately show ?thesis using Some o
      by (auto simp: plugin_of_def selected_def agent_loader_def)
  qed
qed

lemma agent_loaded:
  assumes "\<forall>p. plugin_code c m p \<noteq> None"
  shows "loaded_plugins (agent_loader Q c m dirname) (\<lambda>p. the (plugin_code c m p)) (conf c) dirname names =
    map (\<lambda>p. (plugin_file p, p)) (selected_plugins c m names)"
  unfolding loaded_plugins_def selected_plugins_def
  by (induction names) (simp_all add: map_filter_simps agent_plugin_of [OF assms] split: option.split)

text \<open>
  C5. The agent loads exactly those plugins of the directory that the configuration does not
  switch off and whose init function succeeds, in directory order; the \<open>t\<close>-th hook is that of
  the plugin whose name is the \<open>t\<close>-th name, so thread \<open>t\<close> runs each plugin at the interval the
  configuration gives for it.
\<close>

theorem agent_plugins_loaded:
  assumes "fifo_queue Q items" "ht_initialized (conf c)" "mp_alive (conf c)" "\<forall>p. plugin_code c m p \<noteq> None"
    "dirs dirname = Some names" "\<forall>e \<in> set names. entry_fits (conf c) dirname e" "length names < 256"
  shows "\<exists>s. discover_plugins (agent_loader Q c m dirname) dirs (conf c) dirname
        \<lparr>pm = PluginManager_new Q, plugins_name = Map.empty, pluginCount = 0, handle_list = [], closed = []\<rparr> =
      Some (selected_plugins c m names \<noteq> [], s) \<and>
    pluginCount s = length (selected_plugins c m names) \<and>
    map (plugins_name s) [0..<pluginCount s] = map (\<lambda>p. Some (plugin_file p)) (selected_plugins c m names) \<and>
    fst (get_hooks Q (pluginCount s) (pm s)) = map Some (selected_plugins c m names)"
proof -
  let ?L = "map (\<lambda>p. (plugin_file p, p)) (selected_plugins c m names)"
  have "length (selected_plugins c m names) \<le> length names"
    unfolding selected_plugins_def
    by (induction names) (auto simp: map_filter_simps split: option.split)
  then have "length ?L < 256" using assms(7) by simp
  then have l: "length (loaded_plugins (agent_loader Q c m dirname) (\<lambda>p. the (plugin_code c m p)) (conf c) dirname names) < 256"
    by (simp only: agent_loaded [OF assms(4)])
  have e: "map (\<lambda>(n, d). Some n) ?L = map (\<lambda>p. Some (plugin_file p)) (selected_plugins c m names)"
    "map (\<lambda>(n, d). Some (id d)) ?L = map Some (selected_plugins c m names)"
    "(?L \<noteq> []) = (selected_plugins c m names \<noteq> [])" "length ?L = length (selected_plugins c m names)" by simp_all
  note d = discover_aligned [where dirs = dirs, OF assms(1) agent_contract [OF assms(4)] assms(2,3,5,6) l]
  show ?thesis using d unfolding agent_loaded [OF assms(4)] e by blast
qed


definition bare_machine :: agent_machine where
  "bare_machine = \<lparr>on_linux = base quiet_machine, on_power = quiet_machine,
     on_rapl = \<lparr>papi_loaded = False, papi_components = [], sockets = None, eventset_created = False, eventset_started = False,
       rapl_counters = None, cpuid_eax = 0, rapl_clock = \<lparr>sec = 0, nsec = 0\<rparr>\<rparr>,
     on_nvml = sample_nvml 0, on_sensors = \<lparr>sensors_ready = False, detected_chips = [], sensor_value = (\<lambda>_ _. None)\<rparr>,
     on_papi = \<lparr>papi_initialized = True, papi_init_ok = False, papi_max_cpus = 0, papi_setup = (\<lambda>_ _. False),
       papi_eventset = (\<lambda>_. 0), papi_available = (\<lambda>_. False), papi_start = (\<lambda>_. False), papi_read = (\<lambda>_. None), papi_nsec = 0\<rparr>,
     on_iio = \<lparr>iio_context = (\<lambda>_. None)\<rparr>\<rparr>"

lemma bare_off:
  "metrics_on power_config ''mf_plugin_Linux_resources'' = Some []" "metrics_on power_config ''mf_plugin_RAPL_power'' = Some []"
  "metrics_on power_config ''mf_plugin_NVML'' = Some []" "metrics_on power_config ''mf_plugin_CPU_temperature'' = Some []"
  "metrics_on power_config ''mf_plugin_CPU_perf'' = Some []" "metrics_on power_config ''mf_plugin_Board_power'' = Some []"
  "mfp_get_value (conf power_config) ''mf_plugin_CPU_perf'' ''MAX_CPU_CORES'' 10 [] = Some []"
  "mfp_get_value (conf power_config) ''mf_plugin_Board_power'' ''ACME_BOARD_NAME'' 16 [] = Some []"
  by code_simp+

lemma bare_machine_simps:
  "\<not> papi_loaded (on_rapl bare_machine)" "\<not> sensors_ready (on_sensors bare_machine)"
  "iio_context (on_iio bare_machine) = (\<lambda>_. None)" "on_power bare_machine = quiet_machine"
  by (simp_all add: bare_machine_def)

lemma bare_codes: "plugin_code power_config bare_machine p = Some (if p = mf_plugin_Linux_sys_power then 1 else 0)"
proof -
  have f: "fst (flag_init [] 0) = 0" by code_simp
  have g: "events_are_all_not_valid ms []" for ms by (simp add: events_are_all_not_valid_def)
  note start = plugin_code_def code_outcome plugin_init_code bare_off bare_machine_simps plugin_vars_start_def split_def f g
  have "plugin_code power_config bare_machine mf_plugin_Linux_resources = Some 0"
    by (simp add: start init_mf_plugin_Linux_resources_def
        mf_Linux_resources_init_def flag_init_def mark_events_def lin_start_def)
  moreover have "plugin_code power_config bare_machine mf_plugin_RAPL_power = Some 0"
    by (simp add: start init_mf_plugin_RAPL_power_def mf_RAPL_power_init_def rapl_init_def)
  moreover have "plugin_code power_config bare_machine mf_plugin_NVML = Some 0"
    by (simp add: start init_mf_plugin_NVML_def mf_NVML_init_def NVML_events_are_all_not_valid_def)
  moreover have "plugin_code power_config bare_machine mf_plugin_CPU_temperature = Some 0"
    by (simp add: start init_mf_plugin_CPU_temperature_def mf_CPU_temperature_init_def)
  moreover have "plugin_code power_config bare_machine mf_plugin_CPU_perf = Some 0"
    by (simp add: start perf_code perf_plugin_init_def mf_CPU_perf_init_def)
  moreover have "plugin_code power_config bare_machine mf_plugin_Board_power = Some 0"
    by (simp add: start init_mf_plugin_Board_power_def mf_Board_power_init_def mf_acme_is_enabled_def returned_def
        outcome_def plugin_finish_def)
  moreover have "plugin_code power_config bare_machine mf_plugin_Linux_sys_power = Some 1"
  proof -
    obtain st d where "mf_Linux_sys_power_init quiet_machine wanted_power (power_start, metrics_start) = Some (1, st, d)"
      using quiet_init by metis
    then show ?thesis
      by (simp add: plugin_code_def code_outcome plugin_init_code bare_machine_simps plugin_vars_start_def
          init_mf_plugin_Linux_sys_power_def power_config_on)
  qed
  ultimately show ?thesis by (cases p) simp_all
qed

theorem agent_plugins_loaded_witness:
  "\<exists>s. discover_plugins (agent_loader list_ecq power_config bare_machine ''p'')
        (\<lambda>_. Some [''mf_plugin_Linux_resources.so'', ''README'', ''mf_plugin_Linux_sys_power.so'']) (conf power_config) ''p''
        \<lparr>pm = PluginManager_new list_ecq, plugins_name = Map.empty, pluginCount = 0, handle_list = [], closed = []\<rparr> =
      Some (True, s) \<and> map (plugins_name s) [0..<pluginCount s] = [Some ''mf_plugin_Linux_sys_power''] \<and>
    fst (get_hooks list_ecq (pluginCount s) (pm s)) = [Some mf_plugin_Linux_sys_power]"
proof -
  let ?names = "[''mf_plugin_Linux_resources.so'', ''README'', ''mf_plugin_Linux_sys_power.so'']"
  have ok: "ht_initialized (conf power_config)" "mp_alive (conf power_config)" "\<forall>e \<in> set ?names. entry_fits (conf power_config) ''p'' e"
    by code_simp+
  have e: "List.map_filter entry_plugin ?names = [mf_plugin_Linux_resources, mf_plugin_Linux_sys_power]" by code_simp
  have l: "mfp_lookup (conf power_config) ''plugins'' x = None" for x
    by (simp add: mfp_lookup_def power_config_def)
  have L: "selected_plugins power_config bare_machine ?names = [mf_plugin_Linux_sys_power]"
    unfolding selected_plugins_def e by (simp add: selected_def bare_codes l)
  have d: "\<forall>p. plugin_code power_config bare_machine p \<noteq> None" by (simp add: bare_codes)
  note r = agent_plugins_loaded [where dirs = "\<lambda>_. Some ?names", OF fifo_list_ecq ok(1,2) d refl ok(3)]
  show ?thesis
  proof (rule exE [OF r])
    show "length ?names < 256" by simp
  next
    fix s
    assume "discover_plugins (agent_loader list_ecq power_config bare_machine ''p'') (\<lambda>_. Some ?names) (conf power_config) ''p''
        \<lparr>pm = PluginManager_new list_ecq, plugins_name = Map.empty, pluginCount = 0, handle_list = [], closed = []\<rparr> =
      Some (selected_plugins power_config bare_machine ?names \<noteq> [], s) \<and>
      pluginCount s = length (selected_plugins power_config bare_machine ?names) \<and>
      map (plugins_name s) [0..<pluginCount s] = map (\<lambda>p. Some (plugin_file p)) (selected_plugins power_config bare_machine ?names) \<and>
      fst (get_hooks list_ecq (pluginCount s) (pm s)) = map Some (selected_plugins power_config bare_machine ?names)"
    then show ?thesis unfolding L
      by (elim conjE) (intro exI [of _ s] conjI; simp only: list.map list.distinct plugin_file.simps simp_thms)
  qed
qed

end
