(* ===== verification/Plugin_Clients.thy ===== *)
theory Plugin_Clients
  imports Plugin_Glue
begin

text \<open>
  The stand-alone clients of the seven plugins, \<^verbatim>\<open>plugins/*/src/utils/mf_*_client.c\<close>, and the
  shutdown functions of the connectors, which only the clients call. A client takes its metrics
  from the command line, samples once per pause, prints the JSON text and goes on for ever; the
  handler of SIGINT releases what the connector holds and ends the process.

  A run is given by the moment of the signal: during the initialisation, before it has changed
  anything, or in a pause, after a list of rounds, each with what the machine shows in it.
\<close>

datatype 'e interrupt = At_init | In_pause "'e list"

text \<open>What the shutdown functions release, in order.\<close>

datatype release = Stop_counters int | Cleanup_eventset int | Destroy_eventset int | Shutdown_papi
  | Free_handle nat | Free_devices | Shutdown_nvml
  | Free_chips | Free_subfeatures | Free_features_list | Cleanup_sensors
  | Destroy_buffer nat | Free_buffers | Destroy_context

subsection \<open>The shutdown functions\<close>

text \<open>
  They are given the state of an initialised connector, or \<open>None\<close> when initialisation has not
  begun: then the pointers are null and the counts zero.
\<close>

definition mf_CPU_perf_shutdown :: "int \<Rightarrow> perf_state option \<Rightarrow> release list option" where
  "mf_CPU_perf_shutdown num_cores st =
     (let sets = (case st of None \<Rightarrow> [] | Some s \<Rightarrow> EventSet s) in
      if length sets < nat num_cores then None
      else Some (concat (map (\<lambda>e. [Stop_counters e, Cleanup_eventset e, Destroy_eventset e]) (take (nat num_cores) sets)) @
        [Shutdown_papi]))"

definition mf_NVML_shutdown :: "nvml_state option \<Rightarrow> release list option" where
  "mf_NVML_shutdown st =
     (case st of None \<Rightarrow> Some [Free_devices, Shutdown_nvml]
      | Some s \<Rightarrow>
          if length (nvml_state.devices s) < devices_count s then None
          else Some (map Free_handle [0..<devices_count s] @ [Free_devices, Shutdown_nvml]))"

text \<open>\<open>features_list\<close> is a null pointer before the initialisation, and is dereferenced.\<close>

definition mf_CPU_temperature_shutdown :: "temp_state option \<Rightarrow> release list option" where
  "mf_CPU_temperature_shutdown st =
     (case st of None \<Rightarrow> None
      | Some _ \<Rightarrow> Some [Free_chips, Free_subfeatures, Free_features_list, Cleanup_sensors])"

definition mf_Board_power_shutdown :: "board_state option \<Rightarrow> release list option" where
  "mf_Board_power_shutdown st =
     (case st of None \<Rightarrow> Some [Free_buffers, Free_devices]
      | Some s \<Rightarrow>
          if length (board_state.devices s) < nb_devices s then None
          else Some (map Destroy_buffer (filter (\<lambda>i. dev_buffer (board_state.devices s ! i)) [0..<nb_devices s]) @
            [Free_buffers, Free_devices, Destroy_context]))"

subsection \<open>The common text of the clients\<close>

definition usage_text :: string where "usage_text = ''Error: No metrics required for monitoring.''"
definition failed_text :: string where "failed_text = ''Error: Plugin init function failed.'' @ [NL]"
definition bye_text :: string where "bye_text = ''Bye bye!'' @ [NL, NL]"

fun client_rounds ::
  "('e \<Rightarrow> 's \<times> Plugin_metrics \<Rightarrow> ('s \<times> Plugin_metrics) option) \<Rightarrow> ('e \<Rightarrow> 's \<Rightarrow> Plugin_metrics \<Rightarrow> cstr option) \<Rightarrow>
   'e list \<Rightarrow> 's \<times> Plugin_metrics \<Rightarrow> (string \<times> 's \<times> Plugin_metrics) option" where
  "client_rounds sample to_json [] s = Some ([], s)"
| "client_rounds sample to_json (e # es) s = do {
     (st, d) \<leftarrow> sample e s;
     json \<leftarrow> to_json e st d;
     (out, s') \<leftarrow> client_rounds sample to_json es (st, d);
     Some (json @ NL # out, s')
   }"

text \<open>The result is what has been written to the standard output, the releases and the exit code.\<close>

definition client_main ::
  "(cstr list \<Rightarrow> 's \<times> Plugin_metrics \<Rightarrow> (int \<times> 's \<times> Plugin_metrics) call option) \<Rightarrow>
   ('e \<Rightarrow> 's \<times> Plugin_metrics \<Rightarrow> ('s \<times> Plugin_metrics) option) \<Rightarrow>
   ('e \<Rightarrow> 's \<Rightarrow> Plugin_metrics \<Rightarrow> cstr list \<Rightarrow> cstr option) \<Rightarrow>
   ('s option \<Rightarrow> release list option) \<Rightarrow> 's \<Rightarrow> cstr list \<Rightarrow> 'e interrupt \<Rightarrow>
   (string \<times> release list \<times> int) option" where
  "client_main init sample to_json shutdown s argv stop =
     (if length argv \<le> 1 then Some (usage_text, [], 0)
      else case stop of
        At_init \<Rightarrow> do { rs \<leftarrow> shutdown None; Some (bye_text, rs, 0) }
      | In_pause es \<Rightarrow>
          (case init (tl argv) (s, metrics_start) of None \<Rightarrow> None
           | Some (Exit e) \<Rightarrow> Some ([], [], e)
           | Some (Return (ret, st, d)) \<Rightarrow>
               if ret = 0 then Some (failed_text, [], 0)
               else do {
                 (out, st', d') \<leftarrow> client_rounds sample (\<lambda>e st d. to_json e st d (tl argv)) es (st, d);
                 rs \<leftarrow> shutdown (Some st');
                 Some (out @ bye_text, rs, 0)
               }))"

text \<open>An initialisation that cannot end the process, and a client without a shutdown function.\<close>

definition returning :: "(cstr list \<Rightarrow> 's \<times> Plugin_metrics \<Rightarrow> (int \<times> 's \<times> Plugin_metrics) option) \<Rightarrow>
  cstr list \<Rightarrow> 's \<times> Plugin_metrics \<Rightarrow> (int \<times> 's \<times> Plugin_metrics) call option" where
  "returning init ks s = map_option Return (init ks s)"

definition no_shutdown :: "'s option \<Rightarrow> release list option" where "no_shutdown st = Some []"

subsection \<open>The seven clients\<close>

definition mf_Linux_resources_client where
  "mf_Linux_resources_client m argv stop =
     client_main (returning (mf_Linux_resources_init m)) mf_Linux_resources_sample
       (\<lambda>_ st d _. mf_Linux_resources_to_json st d) no_shutdown lin_start argv stop"

definition mf_Linux_sys_power_client where
  "mf_Linux_sys_power_client m argv stop =
     client_main (returning (mf_Linux_sys_power_init m)) mf_Linux_sys_power_sample
       (\<lambda>_ st d _. mf_Linux_sys_power_to_json st d) no_shutdown power_start argv stop"

definition mf_RAPL_power_client where
  "mf_RAPL_power_client m argv stop =
     client_main (returning (mf_RAPL_power_init m)) mf_RAPL_power_sample
       (\<lambda>_ st d _. mf_RAPL_power_to_json st d) no_shutdown rapl_start argv stop"

text \<open>These four take the time stamp of the text at the time of the text, with each round.\<close>

definition mf_NVML_client where
  "mf_NVML_client m argv stop =
     client_main (returning (mf_NVML_init m)) (\<lambda>(e, t). mf_NVML_sample e)
       (\<lambda>(e, t) st d evs. mf_NVML_to_json t d evs) mf_NVML_shutdown nvml_start argv stop"

definition mf_CPU_temperature_client where
  "mf_CPU_temperature_client m argv stop =
     client_main (returning (mf_CPU_temperature_init m)) (\<lambda>(e, t). mf_CPU_temperature_sample e)
       (\<lambda>(e, t) st d _. mf_CPU_temperature_to_json t d) mf_CPU_temperature_shutdown temp_start argv stop"

definition num_cores :: int where "num_cores = 10"

definition mf_CPU_perf_client where
  "mf_CPU_perf_client m argv stop =
     client_main (returning (perf_plugin_init m num_cores)) (\<lambda>(e, t). perf_plugin_sample e)
       (\<lambda>(e, t) st d evs. mf_CPU_perf_to_json t d evs)
       (\<lambda>st. mf_CPU_perf_shutdown num_cores (map_option snd st)) (num_cores, perf_start) argv stop"

definition mf_Board_power_client where
  "mf_Board_power_client m argv stop =
     client_main (\<lambda>ks s. mf_Board_power_init m ks ''baylibre-acme.local'' s) (\<lambda>(refills, t). mf_Board_power_sample refills)
       (\<lambda>(refills, t) st d evs. mf_Board_power_to_json t d evs) mf_Board_power_shutdown board_start argv stop"


subsection \<open>A client and the agent's hook show the same texts\<close>

text \<open>The texts of consecutive calls of a hook, and the static variables after them.\<close>

fun hook_texts :: "('e \<Rightarrow> 'v \<Rightarrow> (cstr option \<times> 'v) option) \<Rightarrow> 'e list \<Rightarrow> 'v \<Rightarrow> (cstr option list \<times> 'v) option" where
  "hook_texts hk [] v = Some ([], v)"
| "hook_texts hk (e # es) v = do {
     (t, v1) \<leftarrow> hk e v;
     (ts, v') \<leftarrow> hook_texts hk es v1;
     Some (t # ts, v')
   }"

definition printed :: "cstr option list \<Rightarrow> string" where
  "printed ts = concat (map (\<lambda>t. the t @ [NL]) ts)"

text \<open>
  The agreement of a client (by its runs, for each command line) and a plugin (its init function
  applied to the initial variables, and its hook) under a configuration.
\<close>

definition agrees ::
  "(cstr list \<Rightarrow> 'e interrupt \<Rightarrow> (string \<times> release list \<times> int) option) \<Rightarrow> cstr list option \<Rightarrow>
   (int \<times> 's plugin_vars \<times> 'q plugin_manager) option \<Rightarrow> ('e \<Rightarrow> 's plugin_vars \<Rightarrow> (cstr option \<times> 's plugin_vars) option) \<Rightarrow>
   ('s option \<Rightarrow> release list option) \<Rightarrow> bool" where
  "agrees client requested init hk shutdown \<longleftrightarrow>
     (\<forall>ks v mgr prog es. requested = Some ks \<and> ks \<noteq> [] \<and> init = Some (1, v, mgr) \<longrightarrow>
        client (prog # ks) (In_pause es) = do {
          (ts, v') \<leftarrow> hook_texts hk es v;
          rs \<leftarrow> shutdown (Some (connector_state v'));
          Some (printed ts @ bye_text, rs, 0)
        })"

lemma agreesI:
  assumes "\<And>ks v mgr prog es. requested = Some ks \<Longrightarrow> ks \<noteq> [] \<Longrightarrow> init = Some (1, v, mgr) \<Longrightarrow>
    client (prog # ks) (In_pause es) = do {
      (ts, v') \<leftarrow> hook_texts hk es v;
      rs \<leftarrow> shutdown (Some (connector_state v'));
      Some (printed ts @ bye_text, rs, 0)
    }"
  shows "agrees client requested init hk shutdown"
  using assms unfolding agrees_def by blast

lemma rounds_hook_texts:
  "is_initialized v \<Longrightarrow>
     (do { (ts, v') \<leftarrow> hook_texts (\<lambda>e. plugin_hook (sample e) (to_json e)) es v; Some (printed ts, connector_state v') }) =
     (do { (out, st, d) \<leftarrow> client_rounds sample (\<lambda>e st d. to_json e st d (conf_keys v)) es (connector_state v, monitoring_data v);
           Some (out, st) })"
proof (induction es arbitrary: v)
  case (Cons e es)
  show ?case
  proof (cases "sample e (connector_state v, monitoring_data v)")
    case (Some r)
    obtain st d where r: "r = (st, d)" by (cases r)
    let ?v = "v\<lparr>connector_state := st, monitoring_data := d\<rparr>"
    show ?thesis
    proof (cases "to_json e st d (conf_keys v)")
      case json: (Some json)
      have "plugin_hook (sample e) (to_json e) v = Some (Some json, ?v)"
        using Some r json Cons.prems by (simp add: plugin_hook_def)
      then show ?thesis using Cons.IH [of ?v] Cons.prems Some r json
        by (cases "hook_texts (\<lambda>e. plugin_hook (sample e) (to_json e)) es ?v";
            cases "client_rounds sample (\<lambda>e st d. to_json e st d (conf_keys v)) es (st, d)")
          (auto simp: printed_def)
    qed (use Some r Cons.prems in \<open>simp add: plugin_hook_def\<close>)
  qed (use Cons.prems in \<open>simp add: plugin_hook_def\<close>)
qed (simp add: printed_def)

text \<open>The common lemma, for a plugin and a client made from the same connector.\<close>

lemma client_agrees:
  assumes "requested = metrics_on c section"
    and "init = plugin_init Q c section h connector_init (plugin_vars_start s) mgr"
    and "\<And>e. hk e = plugin_hook (sample e) (to_json e)"
  shows "agrees (client_main (returning connector_init) sample to_json shutdown s) requested init hk shutdown"
proof (rule agreesI)
  fix ks v mgr' prog es
  assume r: "requested = Some ks" "ks \<noteq> []" "init = Some (1, v, mgr')"
  then obtain st d where i: "connector_init ks (s, metrics_start) = Some (1, st, d)"
    and "plugin_finish Q section h ks (1, st, d) (plugin_vars_start s) mgr = (1, v, mgr')"
    using assms(1,2) by (auto simp: plugin_init_def plugin_finish_def plugin_vars_start_def Let_def Option.bind_eq_Some_conv split: if_split_asm)
  then have v: "is_initialized v" "conf_keys v = ks" "connector_state v = st" "monitoring_data v = d"
    by (auto simp: plugin_finish_def Let_def)
  have h: "hk = (\<lambda>e. plugin_hook (sample e) (to_json e))" using assms(3) by blast
  from rounds_hook_texts [OF v(1), of sample to_json es]
  show "client_main (returning connector_init) sample to_json shutdown s (prog # ks) (In_pause es) = do {
      (ts, v') \<leftarrow> hook_texts hk es v;
      rs \<leftarrow> shutdown (Some (connector_state v'));
      Some (printed ts @ bye_text, rs, 0)
    }"
    using i r(2) v
    by (cases "hook_texts (\<lambda>e. plugin_hook (sample e) (to_json e)) es v";
        cases "client_rounds sample (\<lambda>e st d. to_json e st d ks) es (st, d)")
      (auto simp: client_main_def returning_def h)
qed

text \<open>
  C11. For six of the plugins the stand-alone client and the plugin in the agent are two programs
  with the same observable texts: started with the metrics the configuration switches on, and
  shown the same machine, the client prints exactly the texts the hook returns, one to a line,
  and leaves the language exactly when the hook does (or the shutdown function after it). The
  client of CPU_perf corresponds to the plugin with ten configured cores.
\<close>

theorem clients_print_hook_texts:
  "agrees (mf_Linux_resources_client m1) (metrics_on c ''mf_plugin_Linux_resources'')
     (init_mf_plugin_Linux_resources Q c h m1 (plugin_vars_start lin_start) mgr) mf_plugin_Linux_resources_hook no_shutdown \<and>
   agrees (mf_Linux_sys_power_client m2) (metrics_on c ''mf_plugin_Linux_sys_power'')
     (init_mf_plugin_Linux_sys_power Q c h m2 (plugin_vars_start power_start) mgr) mf_plugin_Linux_sys_power_hook no_shutdown \<and>
   agrees (mf_RAPL_power_client m3) (metrics_on c ''mf_plugin_RAPL_power'')
     (init_mf_plugin_RAPL_power Q c h m3 (plugin_vars_start rapl_start) mgr) mf_plugin_RAPL_power_hook no_shutdown \<and>
   agrees (mf_NVML_client m4) (metrics_on c ''mf_plugin_NVML'')
     (init_mf_plugin_NVML Q c h m4 (plugin_vars_start nvml_start) mgr) (\<lambda>(e, t). mf_plugin_NVML_hook e t) mf_NVML_shutdown \<and>
   agrees (mf_CPU_temperature_client m5) (metrics_on c ''mf_plugin_CPU_temperature'')
     (init_mf_plugin_CPU_temperature Q c h m5 (plugin_vars_start temp_start) mgr)
     (\<lambda>(e, t). mf_plugin_CPU_temperature_hook e t) mf_CPU_temperature_shutdown \<and>
   (\<forall>str. mfp_get_value (conf c) ''mf_plugin_CPU_perf'' ''MAX_CPU_CORES'' 10 [] = Some str \<and> atoi str = num_cores \<longrightarrow>
     agrees (mf_CPU_perf_client m6) (metrics_on c ''mf_plugin_CPU_perf'')
       (init_mf_plugin_CPU_perf Q c h m6 (plugin_vars_start (num_cores, perf_start)) mgr)
       (\<lambda>(e, t). mf_plugin_CPU_perf_hook e t) (\<lambda>st. mf_CPU_perf_shutdown num_cores (map_option snd st)))"
  unfolding mf_Linux_resources_client_def mf_Linux_sys_power_client_def mf_RAPL_power_client_def mf_NVML_client_def
    mf_CPU_temperature_client_def mf_CPU_perf_client_def
  by (intro conjI allI impI client_agrees)
    (auto simp: init_mf_plugin_Linux_resources_def mf_plugin_Linux_resources_hook_def init_mf_plugin_Linux_sys_power_def
      mf_plugin_Linux_sys_power_hook_def init_mf_plugin_RAPL_power_def mf_plugin_RAPL_power_hook_def init_mf_plugin_NVML_def
      mf_plugin_NVML_hook_def init_mf_plugin_CPU_temperature_def mf_plugin_CPU_temperature_hook_def init_mf_plugin_CPU_perf_def
      mf_plugin_CPU_perf_hook_def split: prod.split)

theorem clients_print_hook_texts_witness:
  "\<exists>v mgr text v'. init_mf_plugin_Linux_sys_power list_ecq power_config (0::nat) quiet_machine (plugin_vars_start power_start)
       (PluginManager_new list_ecq) = Some (1, v, mgr) \<and>
     mf_plugin_Linux_sys_power_hook quiet_machine v = Some (Some text, v') \<and>
     mf_Linux_sys_power_client quiet_machine (''client'' # wanted_power) (In_pause [quiet_machine]) =
       Some (text @ [NL] @ bye_text, [], 0)"
proof -
  obtain v mgr st d where v: "init_mf_plugin_Linux_sys_power list_ecq power_config (0::nat) quiet_machine (plugin_vars_start power_start)
      (PluginManager_new list_ecq) = Some (1, v, mgr)"
    and s: "mf_Linux_sys_power_sample quiet_machine (connector_state v, monitoring_data v) = Some (st, d)"
    by (rule quiet_vars)
  have "power_plugin.plugin_ready v"
    by (rule power_plugin.init_plugin_ready [OF v [unfolded init_mf_plugin_Linux_sys_power_def]])
  then have h: "mf_plugin_Linux_sys_power_hook quiet_machine v =
      Some (Some (power_text st d), v\<lparr>connector_state := st, monitoring_data := d\<rparr>)"
    unfolding mf_plugin_Linux_sys_power_hook_def by (rule power_plugin.hook_reports) (use s quiet_clock in \<open>simp_all\<close>)
  have "agrees (mf_Linux_sys_power_client quiet_machine) (metrics_on power_config ''mf_plugin_Linux_sys_power'')
     (init_mf_plugin_Linux_sys_power list_ecq power_config (0::nat) quiet_machine (plugin_vars_start power_start) (PluginManager_new list_ecq))
     mf_plugin_Linux_sys_power_hook no_shutdown"
    using clients_print_hook_texts [where Q = list_ecq and c = power_config and h = 0 and mgr = "PluginManager_new list_ecq"] by blast
  moreover have "wanted_power \<noteq> []" by (simp add: wanted_power_def)
  ultimately have "mf_Linux_sys_power_client quiet_machine (''client'' # wanted_power) (In_pause [quiet_machine]) =
      do { (ts, v') \<leftarrow> hook_texts mf_plugin_Linux_sys_power_hook [quiet_machine] v; rs \<leftarrow> no_shutdown (Some (connector_state v'));
           Some (printed ts @ bye_text, rs, 0) }"
    using v unfolding agrees_def power_config_on by blast
  also have "\<dots> = Some (power_text st d @ [NL] @ bye_text, [], 0)" by (simp add: h no_shutdown_def printed_def)
  finally show ?thesis using v h by blast
qed

subsection \<open>Interrupted clients\<close>

text \<open>
  The handler is installed before the connector is initialised. A signal in between makes the
  handlers of two clients use pointers that are still null.
\<close>

theorem early_interrupt_undefined:
  assumes "1 < length argv"
  shows "mf_CPU_temperature_client m argv At_init = None \<and> mf_CPU_perf_client m' argv At_init = None"
  using assms by (simp add: mf_CPU_temperature_client_def mf_CPU_perf_client_def client_main_def
      mf_CPU_temperature_shutdown_def mf_CPU_perf_shutdown_def num_cores_def)

theorem early_interrupt_undefined_witness:
  "mf_CPU_temperature_client \<lparr>sensors_ready = True, detected_chips = [], sensor_value = (\<lambda>_ _. None)\<rparr> [''c'', ''e''] At_init = None"
  using early_interrupt_undefined [of "[''c'', ''e'']" "\<lparr>sensors_ready = True, detected_chips = [], sensor_value = (\<lambda>_ _. None)\<rparr>"] by simp

text \<open>A signal that arrives later, in a pause, always finds the sensors to release.\<close>

lemma temperature_shutdown_after_init:
  assumes "mf_CPU_temperature_client m argv (In_pause es) = Some (out, rs, rc)"
  shows "rc = 0 \<and> (rs = [] \<or> rs = [Free_chips, Free_subfeatures, Free_features_list, Cleanup_sensors])"
  using assms by (auto simp: mf_CPU_temperature_client_def client_main_def mf_CPU_temperature_shutdown_def returning_def
      Option.bind_eq_Some_conv split: if_split_asm option.split_asm call.split_asm)

text \<open>
  The client of CPU_perf is built for ten cores: with fewer, the initialisation creates fewer
  event sets and succeeds, and the handler stops sets that do not exist, also when the signal
  arrives before the first sample.
\<close>

theorem few_cores_undefined:
  assumes "\<not> papi_initialized p" "papi_max_cpus p < num_cores" "ks \<noteq> []"
    "mf_CPU_perf_init p ks num_cores (perf_start, metrics_start) = Some (1, st, d)"
  shows "mf_CPU_perf_client p (prog # ks) (In_pause []) = None"
proof -
  have "length (EventSet st) < nat num_cores"
    using init_facts(1) [OF assms(4,1)] assms(2) by (simp add: num_cores_def)
  then show ?thesis using assms(3,4)
    by (simp add: mf_CPU_perf_client_def client_main_def returning_def perf_plugin_init_def mf_CPU_perf_shutdown_def Let_def)
qed

end
