(* ===== verification/Agent_Pipeline.thy ===== *)
theory Agent_Pipeline
  imports Agent_Plugins Plugin_Clients Thread_Handler Clock
begin

text \<open>
  The agent from end to end: what a connector samples is what the thread of its plugin posts to
  the server. The hook of theory \<open>Plugin_Glue\<close>, called again and again with its static
  variables kept, is put behind the function pointer of \<open>gatherMetric\<close> (theory
  \<open>Thread_Handler\<close>), which until here was an arbitrary function.
\<close>

subsection \<open>The calls of a thread\<close>

text \<open>
  A round calls the hook until it has \<open>k\<close> samples or a sleep is interrupted; \<open>slept i\<close> is
  whether the sleep after the \<open>i\<close>-th call completes.
\<close>

fun round_calls :: "(nat \<Rightarrow> bool) \<Rightarrow> nat \<Rightarrow> nat \<Rightarrow> nat" where
  "round_calls slept 0 i = 0"
| "round_calls slept (Suc k) i = Suc (if slept i then round_calls slept k (i + 1) else 0)"

text \<open>How many calls the thread has made before round \<open>r\<close>.\<close>

fun calls_before :: "(nat \<Rightarrow> nat \<Rightarrow> bool) \<Rightarrow> nat \<Rightarrow> nat \<Rightarrow> nat" where
  "calls_before slept bulk 0 = 0"
| "calls_before slept bulk (Suc r) = calls_before slept bulk r + round_calls (slept r) bulk 0"

text \<open>
  What the \<open>i\<close>-th call of round \<open>r\<close> gives when the hook starts with the static variables
  \<open>v\<close> and its calls see the machines \<open>es\<close>, one after the other.
\<close>

definition thread_calls ::
  "('e \<Rightarrow> 'v \<Rightarrow> (cstr option \<times> 'v) option) \<Rightarrow> 'e list \<Rightarrow> 'v \<Rightarrow> (nat \<Rightarrow> nat \<Rightarrow> bool) \<Rightarrow> nat \<Rightarrow>
   nat \<Rightarrow> nat \<Rightarrow> cstr option \<times> bool" where
  "thread_calls hk es v slept bulk r i =
     (case hook_texts hk es v of None \<Rightarrow> (None, False)
      | Some (ts, _) \<Rightarrow> (ts ! (calls_before slept bulk r + i), slept r i))"

text \<open>The texts of consecutive calls, cut into the rounds of the thread.\<close>

fun cut_rounds :: "(nat \<Rightarrow> nat \<Rightarrow> bool) \<Rightarrow> nat \<Rightarrow> nat \<Rightarrow> 'a list \<Rightarrow> 'a list list" where
  "cut_rounds slept bulk 0 ts = []"
| "cut_rounds slept bulk (Suc r) ts =
     cut_rounds slept bulk r ts @ [take (round_calls (slept r) bulk 0) (drop (calls_before slept bulk r) ts)]"

lemma round_calls_bounds: "round_calls slept k i \<le> k" "0 < k \<Longrightarrow> 0 < round_calls slept k i"
  by (induction slept k i rule: round_calls.induct) auto

lemma calls_before_mono: "r \<le> r' \<Longrightarrow> calls_before slept bulk r \<le> calls_before slept bulk r'"
  by (induction r') (auto simp: le_Suc_eq)

lemma length_cut_rounds [simp]: "length (cut_rounds slept bulk r ts) = r"
  by (induction r) auto

lemma concat_cut_rounds: "concat (cut_rounds slept bulk r ts) = take (calls_before slept bulk r) ts"
  by (induction r) (auto simp: take_add)

lemma nth_cut_rounds:
  "k < r \<Longrightarrow> cut_rounds slept bulk r ts ! k = take (round_calls (slept k) bulk 0) (drop (calls_before slept bulk k) ts)"
  by (induction r) (auto simp: nth_append less_Suc_eq)

lemma cut_rounds_sizes:
  assumes "js \<in> set (cut_rounds slept bulk r ts)" "calls_before slept bulk r \<le> length ts" "0 < bulk"
  shows "js \<noteq> [] \<and> length js \<le> bulk"
proof -
  obtain k where k: "k < r" "js = take (round_calls (slept k) bulk 0) (drop (calls_before slept bulk k) ts)"
    using assms(1) by (auto simp: in_set_conv_nth nth_cut_rounds)
  have "calls_before slept bulk (Suc k) \<le> length ts"
    using calls_before_mono [of "Suc k" r slept bulk] k(1) assms(2) by simp
  then have "length js = round_calls (slept k) bulk 0" using k(2) by simp
  then show ?thesis using round_calls_bounds(1) [of "slept k" bulk 0] round_calls_bounds(2) [of bulk "slept k" 0] assms(3) by (cases js) auto
qed

lemma round_samples_take:
  "m + i + round_calls slept k i \<le> length ts \<Longrightarrow>
   round_samples (\<lambda>i. (map Some ts ! (m + i), slept i)) k i = take (round_calls slept k i) (drop (m + i) ts)"
proof (induction slept k i rule: round_calls.induct)
  case (2 slept k i)
  then have "m + i < length ts" by (simp split: if_split_asm)
  then have "take (Suc n) (drop (m + i) ts) = ts ! (m + i) # take n (drop (m + (i + 1)) ts)" for n
    by (simp add: Cons_nth_drop_Suc [symmetric])
  then show ?case using 2 \<open>m + i < length ts\<close> by (cases "slept i") simp_all
qed simp

lemma thread_round_samples:
  assumes "hook_texts hk es v = Some (map Some ts, v')" "calls_before slept bulk n \<le> length ts" "r < n"
  shows "round_samples (thread_calls hk es v slept bulk r) bulk 0 = cut_rounds slept bulk n ts ! r"
proof -
  have "calls_before slept bulk (Suc r) \<le> length ts"
    using calls_before_mono [of "Suc r" n slept bulk] assms(2,3) by simp
  then show ?thesis using round_samples_take [of "calls_before slept bulk r" 0 "slept r" bulk ts]
    by (simp add: thread_calls_def [abs_def] assms(1) nth_cut_rounds [OF assms(3)])
qed

text \<open>A thread whose hook always returns a text that fits posts the texts of the calls, round by round.\<close>

lemma thread_posts:
  assumes h: "hook_texts hk es v = Some (map Some ts, v')" "length ts = calls_before slept (nat b) rounds"
    and fit: "\<forall>t \<in> set ts. fits_record (static_text x) t"
    and b: "2 \<le> b" "b < 2 ^ 21" "length (static_text x) < 512" "curl_ok net" "u \<noteq> []"
    and f: "hs ! num = Some f" "call f = thread_calls hk es v slept (nat b)"
  shows "\<exists>p'. gatherMetric net x u call hs num b rounds p = Some p' \<and>
    sent p' = sent p @ map (\<lambda>js. \<lparr>meth = POST, url = u, body = bulk_text (static_text x) js,
      hdrs = headers (init_curl p)\<rparr>) (cut_rounds slept (nat b) rounds ts)"
proof -
  let ?c = "cut_rounds slept (nat b) rounds ts"
  have s: "round_samples (call f r) (nat b) 0 = ?c ! r" if "r < rounds" for r
    unfolding f(2) by (rule thread_round_samples [OF h(1) _ that]) (use h(2) in simp)
  have c: "?c ! r \<in> set ?c" if "r < rounds" for r using that by simp
  have "set js \<subseteq> set ts" if "js \<in> set ?c" for js
  proof -
    have "set js \<subseteq> set (concat ?c)" using that by auto
    then show ?thesis by (simp add: concat_cut_rounds h(2))
  qed
  then have j: "\<forall>r < rounds. \<forall>j \<in> set (round_samples (call f r) (nat b) 0). fits_record (static_text x) j"
    using s c fit by (metis subsetD)
  from gather_rounds_sends [of "nat b" net u rounds call f 0 "static_text x" p]
  have "\<exists>p'. gatherMetric net x u call hs num b rounds p = Some p' \<and>
    sent p' = sent p @ map (\<lambda>r. \<lparr>meth = POST, url = u, body = round_message (call f r) (static_text x) (nat b),
      hdrs = headers (init_curl p)\<rparr>) [0..<rounds]"
    using b f(1) j by (simp add: gatherMetric_def bulk_alloc_def nat_mult_distrib)
  moreover have "round_message (call f r) (static_text x) (nat b) = bulk_text (static_text x) (?c ! r)" if "r < rounds" for r
    using cut_rounds_sizes [OF c [OF that]] h(2) b(1) s [OF that] by (simp add: round_message_def)
  then have "map (\<lambda>r. \<lparr>meth = POST, url = u, body = round_message (call f r) (static_text x) (nat b),
      hdrs = headers (init_curl p)\<rparr>) [0..<rounds] =
    map (\<lambda>js. \<lparr>meth = POST, url = u, body = bulk_text (static_text x) js, hdrs = headers (init_curl p)\<rparr>) ?c"
    by (intro nth_equalityI) simp_all
  ultimately show ?thesis by simp
qed

subsection \<open>A plugin whose records always fit\<close>

text \<open>
  The contract of theory \<open>Plugin_Glue\<close> with a bound: every text is so short that it fits the
  1024 characters of \<open>msg\<close> after any static part (of at most 511 characters). Inside the
  locale: the thread of such a plugin posts the texts of all its calls, and nothing overflows.
\<close>

locale thread_plugin = reporting_plugin sample connector_init start ready clock_ok to_json json_text
  for sample :: "'e \<Rightarrow> 's \<times> Plugin_metrics \<Rightarrow> ('s \<times> Plugin_metrics) option"
    and connector_init :: "'m \<Rightarrow> 's initialiser"
    and start :: 's
    and ready :: "'s \<times> Plugin_metrics \<Rightarrow> bool"
    and clock_ok :: "'e \<Rightarrow> bool"
    and to_json :: "'s \<Rightarrow> Plugin_metrics \<Rightarrow> cstr list \<Rightarrow> cstr option"
    and json_text :: "'s \<Rightarrow> Plugin_metrics \<Rightarrow> cstr" +
  assumes text_short: "ready x \<Longrightarrow> clock_ok e \<Longrightarrow> sample e x = Some (st, d) \<Longrightarrow> length (json_text st d) \<le> 510"
begin

lemma hook_texts_short:
  assumes "plugin_ready v" "\<forall>e \<in> set es. clock_ok e" "foldM sample es (connector_state v, monitoring_data v) = Some z"
  shows "\<exists>ts v'. hook_texts (\<lambda>e. plugin_hook (sample e) to_json) es v = Some (map Some ts, v') \<and>
    length ts = length es \<and> (\<forall>t \<in> set ts. length t \<le> 510)"
  using assms
proof (induction es arbitrary: v)
  case (Cons e es)
  obtain st d where s: "sample e (connector_state v, monitoring_data v) = Some (st, d)"
    and r: "foldM sample es (st, d) = Some z"
    using Cons.prems(3) by (auto simp: Option.bind_eq_Some_conv)
  let ?v = "v\<lparr>connector_state := st, monitoring_data := d\<rparr>"
  have h: "plugin_hook (sample e) to_json v = Some (Some (json_text st d), ?v)"
    using Cons.prems(1,2) s by (intro hook_reports) simp_all
  have "plugin_ready ?v" using hooks_ready [OF Cons.prems(1), of "[e]" ?v] h by simp
  then obtain ts v' where "hook_texts (\<lambda>e. plugin_hook (sample e) to_json) es ?v = Some (map Some ts, v')"
    "length ts = length es" "\<forall>t \<in> set ts. length t \<le> 510"
    using Cons.IH [of ?v] Cons.prems(2) r by auto
  moreover have "length (json_text st d) \<le> 510"
    by (rule text_short [OF _ _ s]) (use Cons.prems(1,2) in \<open>simp_all add: plugin_ready_def\<close>)
  ultimately show ?case using h by (intro exI [of _ "json_text st d # ts"] exI [of _ v']) simp
qed (auto intro: exI [of _ "[]"])

lemma thread_delivers:
  assumes v: "plugin_ready v" "\<forall>e \<in> set es. clock_ok e" "foldM sample es (connector_state v, monitoring_data v) = Some z"
    and l: "length es = calls_before slept (nat b) rounds"
    and b: "2 \<le> b" "b < 2 ^ 21" "length (static_text x) < 512" "curl_ok net" "u \<noteq> []"
    and f: "hs ! num = Some f" "call f = thread_calls (\<lambda>e. plugin_hook (sample e) to_json) es v slept (nat b)"
  shows "\<exists>ts v' jss p'. hook_texts (\<lambda>e. plugin_hook (sample e) to_json) es v = Some (map Some ts, v') \<and>
    concat jss = ts \<and> length jss = rounds \<and> (\<forall>js \<in> set jss. js \<noteq> [] \<and> length js \<le> nat b) \<and>
    gatherMetric net x u call hs num b rounds p = Some p' \<and>
    sent p' = sent p @ map (\<lambda>js. \<lparr>meth = POST, url = u, body = bulk_text (static_text x) js,
      hdrs = headers (init_curl p)\<rparr>) jss"
proof -
  obtain ts v' where ts: "hook_texts (\<lambda>e. plugin_hook (sample e) to_json) es v = Some (map Some ts, v')"
    "length ts = length es" "\<forall>t \<in> set ts. length t \<le> 510"
    using hook_texts_short [OF v] by blast
  from ts(3) have "\<forall>t \<in> set ts. fits_record (static_text x) t" using b(3) by (auto simp: fits_record_def JSON_LEN_def)
  from thread_posts [where call = call and f = f, OF ts(1) ts(2) [unfolded l] this b f] obtain p' where
    "gatherMetric net x u call hs num b rounds p = Some p'"
    "sent p' = sent p @ map (\<lambda>js. \<lparr>meth = POST, url = u, body = bulk_text (static_text x) js,
      hdrs = headers (init_curl p)\<rparr>) (cut_rounds slept (nat b) rounds ts)" by auto
  moreover have "concat (cut_rounds slept (nat b) rounds ts) = ts" using ts(2) l by (simp add: concat_cut_rounds)
  moreover have "\<forall>js \<in> set (cut_rounds slept (nat b) rounds ts). js \<noteq> [] \<and> length js \<le> nat b"
    using cut_rounds_sizes ts(2) l b(1) by fastforce
  ultimately show ?thesis using ts(1) length_cut_rounds by blast
qed

end

subsection \<open>The Linux_sys_power plugin\<close>

lemma length_power_field:
  assumes "printable d" "i < num_events d"
  shows "length (power_field st d i) \<le> 79"
proof -
  obtain e v where "event_value d i = Some (e, v)" "length e < 32" "is_float v" using assms by (auto simp: printable_def)
  then show ?thesis using length_json_metric [of e v] by (simp add: power_field_def json_field_def)
qed

lemma length_power_text:
  assumes "power_ready st d" "printable d" "after st = Fin False a" "0 \<le> a" "a \<le> 10 ^ 12"
  shows "length (power_text st d) \<le> 475"
proof -
  have b: "length (json_type ''Linux_sys_power'' @ json_time (fp_mul binary64 (after st) (Fin False 1000))) \<le> 80"
    using json_begin_fits [of "''Linux_sys_power''"] length_show_ms [OF assms(4,5)] unfolding assms(3)
    by (simp add: json_type_def)
  have "length (power_events st) \<le> 5" by (simp add: power_events_def part_events_def)
  then have n: "num_events d \<le> 5" using assms(1) by (simp add: power_ready_def)
  have "sum_list (map (\<lambda>i. length (power_field st d i)) [0..<num_events d]) \<le> sum_list (map (\<lambda>_. 79) [0..<num_events d])"
    using length_power_field [OF assms(2)] by (intro sum_list_mono) simp
  then have "length (concat (map (power_field st d) [0..<num_events d])) \<le> 79 * num_events d"
    by (simp add: length_concat comp_def sum_list_triv)
  then show ?thesis using b n by (simp add: power_text_def)
qed

interpretation power_thread: thread_plugin mf_Linux_sys_power_sample mf_Linux_sys_power_init power_start
  "\<lambda>(st, d). power_ready st d" "\<lambda>m. \<exists>a. seconds (realtime (base m)) = Fin False a \<and> 0 \<le> a \<and> a \<le> 10 ^ 12"
  "\<lambda>st d _. mf_Linux_sys_power_to_json st d" power_text
proof
  fix x e st d
  assume r: "case x of (st, d) \<Rightarrow> power_ready st d" and s: "mf_Linux_sys_power_sample e x = Some (st, d)"
    and "\<exists>a. seconds (realtime (base e)) = Fin False a \<and> 0 \<le> a \<and> a \<le> 10 ^ 12"
  then obtain a where a: "seconds (realtime (base e)) = Fin False a" "0 \<le> a" "a \<le> 10 ^ 12" by blast
  obtain st0 d0 where x: "x = (st0, d0)" by (cases x)
  have "length (power_text st d) \<le> 475"
    using power_ready_step power_sample_printable power_sample_after r s a unfolding x
    by (intro length_power_text [of _ _ a]) (auto simp: power_sample_after)
  then show "length (power_text st d) \<le> 510" by simp
qed

text \<open>
  C4. From the connector to the server: after a successful initialisation with any metrics, and
  while the clock is a time before 2038, the thread of the Linux_sys_power plugin posts in every
  round one JSON array; the records of all the arrays together are the texts of all calls of the
  hook, each once and in order, whatever the machine reports and wherever sleeps are interrupted.
  No buffer between the connector and the request overflows.
\<close>

theorem power_thread_posts:
  assumes "init_mf_plugin_Linux_sys_power Q c h m0 (plugin_vars_start power_start) mgr = Some (1, v, mgr')"
    "foldM mf_Linux_sys_power_sample ms (connector_state v, monitoring_data v) = Some z"
    "\<forall>m \<in> set ms. clock_sane (realtime (base m))" "length ms = calls_before slept (nat b) rounds"
    "2 \<le> b" "b < 2 ^ 21" "length (static_text x) < 512" "curl_ok net" "u \<noteq> []"
    "hs ! num = Some f" "call f = thread_calls mf_plugin_Linux_sys_power_hook ms v slept (nat b)"
  shows "\<exists>ts v' jss p'. hook_texts mf_plugin_Linux_sys_power_hook ms v = Some (map Some ts, v') \<and>
    concat jss = ts \<and> length jss = rounds \<and> (\<forall>js \<in> set jss. js \<noteq> [] \<and> length js \<le> nat b) \<and>
    gatherMetric net x u call hs num b rounds p = Some p' \<and>
    sent p' = sent p @ map (\<lambda>js. \<lparr>meth = POST, url = u, body = bulk_text (static_text x) js,
      hdrs = headers (init_curl p)\<rparr>) jss"
proof -
  have h: "mf_plugin_Linux_sys_power_hook =
      (\<lambda>m. plugin_hook (mf_Linux_sys_power_sample m) (\<lambda>st d _. mf_Linux_sys_power_to_json st d))"
    by (intro ext) (simp add: mf_plugin_Linux_sys_power_hook_def)
  have "power_plugin.plugin_ready v"
    by (rule power_plugin.init_plugin_ready [OF assms(1) [unfolded init_mf_plugin_Linux_sys_power_def]])
  moreover have "\<forall>m \<in> set ms. \<exists>a. seconds (realtime (base m)) = Fin False a \<and> 0 \<le> a \<and> a \<le> 10 ^ 12"
    using assms(3) seconds_sane by blast
  ultimately show ?thesis unfolding h
    by (rule power_thread.thread_delivers [where call = call and f = f, OF _ _ assms(2,4-10) assms(11) [unfolded h]])
qed

theorem power_thread_posts_witness:
  "\<exists>v mgr t p'. init_mf_plugin_Linux_sys_power list_ecq power_config (0 :: nat) quiet_machine (plugin_vars_start power_start)
      (PluginManager_new list_ecq) = Some (1, v, mgr) \<and>
    gatherMetric \<lparr>curl_ok = True, reply = (\<lambda>_ _. (True, [])), realloc_at = (\<lambda>_. InPlace)\<rparr>
      \<lparr>application_id = ''a'', experiment_id = ''e'', task_id = ''t'', platform_id = ''p''\<rparr> ''u''
      (\<lambda>_. thread_calls mf_plugin_Linux_sys_power_hook [quiet_machine] v (\<lambda>_ _. False) 2) [Some ()] 0 2 1
      \<lparr>headers = [], sent = []\<rparr> = Some p' \<and>
    map body (sent p') = [bulk_text (static_text \<lparr>application_id = ''a'', experiment_id = ''e'', task_id = ''t'', platform_id = ''p''\<rparr>) [t]]"
proof -
  let ?x = "\<lparr>application_id = ''a'', experiment_id = ''e'', task_id = ''t'', platform_id = ''p''\<rparr>"
  obtain v mgr st d where v: "init_mf_plugin_Linux_sys_power list_ecq power_config (0 :: nat) quiet_machine (plugin_vars_start power_start)
      (PluginManager_new list_ecq) = Some (1, v, mgr)"
    and s: "mf_Linux_sys_power_sample quiet_machine (connector_state v, monitoring_data v) = Some (st, d)"
    by (rule quiet_vars)
  have f: "foldM mf_Linux_sys_power_sample [quiet_machine] (connector_state v, monitoring_data v) = Some (st, d)"
    using s by simp
  have c: "\<forall>m \<in> set [quiet_machine]. clock_sane (realtime (base m))" by (simp add: quiet_machine_def clock_sane_def)
  have n: "length [quiet_machine] = calls_before (\<lambda>_ _. False) (nat 2) 1" by (simp add: numeral_2_eq_2)
  obtain ts v' jss p' where r: "hook_texts mf_plugin_Linux_sys_power_hook [quiet_machine] v = Some (map Some ts, v')"
    "concat jss = ts" "length jss = 1" "\<forall>js \<in> set jss. js \<noteq> [] \<and> length js \<le> nat 2"
    "gatherMetric \<lparr>curl_ok = True, reply = (\<lambda>_ _. (True, [])), realloc_at = (\<lambda>_. InPlace)\<rparr> ?x ''u''
      (\<lambda>_. thread_calls mf_plugin_Linux_sys_power_hook [quiet_machine] v (\<lambda>_ _. False) (nat 2)) [Some ()] 0 2 1
      \<lparr>headers = [], sent = []\<rparr> = Some p'"
    "sent p' = map (\<lambda>js. \<lparr>meth = POST, url = ''u'', body = bulk_text (static_text ?x) js,
      hdrs = headers (init_curl \<lparr>headers = [], sent = []\<rparr>)\<rparr>) jss"
    using power_thread_posts [OF v f c n, of ?x "\<lparr>curl_ok = True, reply = (\<lambda>_ _. (True, [])), realloc_at = (\<lambda>_. InPlace)\<rparr>" "''u''"
        "[Some ()]" 0 "()" "\<lambda>_. thread_calls mf_plugin_Linux_sys_power_hook [quiet_machine] v (\<lambda>_ _. False) (nat 2)"
        "\<lparr>headers = [], sent = []\<rparr>"]
    by (auto simp: static_text_def quoted_def)
  obtain js where js: "jss = [js]" using r(3) by (auto simp: length_Suc_conv)
  have "length ts = 1" using r(1) by (auto simp: Option.bind_eq_Some_conv map_eq_Cons_conv)
  then obtain t where "js = [t]" using r(2) js by (auto simp: length_Suc_conv)
  then show ?thesis using v r(5,6) js by (intro exI [of _ v] exI [of _ mgr] exI [of _ t] exI [of _ p']) simp
qed

end
