(* ===== verification/Requests.thy ===== *)
theory Requests
  imports Mf_Api Agent_Main
begin

text \<open>
  The requests that leave the program, whoever makes them: the publisher is shared by the agent
  (\<open>prepare\<close>, the sampling threads) and by the application API (\<open>mf_start\<close>, \<open>mf_send\<close>), and its
  list of headers is one global variable, built by the first call. The contract of all of them is
  the locale \<open>requester\<close>.
\<close>

definition JSON_HEADERS :: "cstr list" where
  "JSON_HEADERS = [''Accept: application/json'', ''Content-Type: application/json'', ''charsets: utf-8'']"

text \<open>What the server expects: a URL, the three headers, and a body in a POST.\<close>

definition well_formed :: "request \<Rightarrow> bool" where
  "well_formed r \<longleftrightarrow> url r \<noteq> [] \<and> hdrs r = JSON_HEADERS \<and> (meth r = POST \<longrightarrow> body r \<noteq> [])"

definition orderly :: "pub \<Rightarrow> bool" where
  "orderly p \<longleftrightarrow> (headers p = [] \<or> headers p = JSON_HEADERS) \<and> (\<forall>r \<in> set (sent p). well_formed r)"

text \<open>What a use of the network may do to an orderly state: add requests, all of them good.\<close>

definition adds_good :: "pub \<Rightarrow> pub \<Rightarrow> bool" where
  "adds_good p p' \<longleftrightarrow> orderly p' \<and> prefix (sent p) (sent p')"

lemma adds_good_refl: "orderly p \<Longrightarrow> adds_good p p"
  by (simp add: adds_good_def)

lemma adds_good_trans: "adds_good p q \<Longrightarrow> adds_good q r \<Longrightarrow> adds_good p r"
  by (auto simp: adds_good_def intro: prefix_order.trans)

lemma adds_goodD: "adds_good p p' \<Longrightarrow> orderly p'"
  by (simp add: adds_good_def)

locale requester =
  fixes run :: "'c \<Rightarrow> pub \<Rightarrow> pub option"
  assumes run_good: "orderly p \<Longrightarrow> run c p = Some p' \<Longrightarrow> adds_good p p'"
begin

lemma runs_good: "orderly p \<Longrightarrow> foldM run cs p = Some p' \<Longrightarrow> adds_good p p'"
proof (induction cs arbitrary: p)
  case (Cons c cs)
  then obtain q where q: "run c p = Some q" "foldM run cs q = Some p'" by (auto simp: Option.bind_eq_Some_conv)
  from run_good [OF Cons.prems(1) q(1)] Cons.IH [OF _ q(2)] show ?case
    using adds_goodD adds_good_trans by blast
qed (simp add: adds_good_refl)

end

subsection \<open>The publisher\<close>

text \<open>A handle made by \<open>prepare_publish\<close> or \<open>prepare_query\<close>.\<close>

definition handle_ok :: "request \<Rightarrow> bool" where
  "handle_ok r \<longleftrightarrow> url r \<noteq> [] \<and> hdrs r = JSON_HEADERS"

lemma init_curl_good:
  "orderly p \<Longrightarrow> adds_good p (init_curl p)" "orderly p \<Longrightarrow> headers (init_curl p) = JSON_HEADERS"
  by (auto simp: init_curl_def adds_good_def orderly_def JSON_HEADERS_def)

lemma transfer_orderly: "orderly p \<Longrightarrow> well_formed r \<Longrightarrow> adds_good p (p\<lparr>sent := sent p @ [r]\<rparr>)"
  by (auto simp: adds_good_def orderly_def)

lemma prepare_publish_orderly:
  "prepare_publish net u m p = (x, p1) \<Longrightarrow> orderly p \<Longrightarrow> u \<noteq> [] \<Longrightarrow>
     adds_good p p1 \<and> (\<forall>r. x = Some r \<longrightarrow> handle_ok r \<and> body r = m)"
  by (auto simp: prepare_publish_def Let_def init_curl_good handle_ok_def split: if_split_asm)

lemma prepare_query_orderly:
  "prepare_query net u p = (x, p1) \<Longrightarrow> orderly p \<Longrightarrow> u \<noteq> [] \<Longrightarrow>
     adds_good p p1 \<and> (\<forall>r. x = Some r \<longrightarrow> handle_ok r \<and> meth r = GET)"
  by (auto simp: prepare_query_def Let_def init_curl_good handle_ok_def split: if_split_asm)

lemma reading_orderly:
  assumes "curl_easy_perform_reading net r b p = Some (ok, b', p')" "orderly p" "well_formed r"
  shows "adds_good p p'"
proof -
  have "p' = p\<lparr>sent := sent p @ [r]\<rparr>"
    using assms(1) by (auto simp: curl_easy_perform_reading_def split_def Let_def Option.bind_eq_Some_conv)
  then show ?thesis using transfer_orderly assms(2,3) by simp
qed

lemma query_json_orderly:
  assumes "query_json net u b p = Some (rc, b', p')" "orderly p"
  shows "adds_good p p'"
proof (cases "check_URL u")
  case True
  then obtain v where v: "u = Some v" "v \<noteq> []" by (auto simp: check_URL_def split: option.split_asm)
  obtain x p1 where x: "prepare_query net v p = (x, p1)" by fastforce
  note g = prepare_query_orderly [OF x assms(2) v(2)]
  show ?thesis
  proof (cases x)
    case None
    then show ?thesis using assms(1) x v True g by (simp add: query_json_def)
  next
    case (Some r)
    then obtain ok where "curl_easy_perform_reading net r b p1 = Some (ok, b', p')"
      using assms(1) x v True by (auto simp: query_json_def Option.bind_eq_Some_conv)
    then have "adds_good p1 p'" using g Some adds_goodD by (intro reading_orderly) (auto simp: handle_ok_def well_formed_def)
    then show ?thesis using g adds_good_trans by blast
  qed
qed (use assms in \<open>simp add: query_json_def adds_good_refl\<close>)

lemma checked:
  assumes "check_URL u" "check_message m"
  obtains v w where "u = Some v" "v \<noteq> []" "m = Some w" "w \<noteq> []"
  using assms that by (auto simp: check_URL_def check_message_def split: option.split_asm)

lemma publish_json_orderly:
  assumes "publish_json net u m p = (rc, p')" "orderly p"
  shows "adds_good p p'"
proof (cases "check_URL u \<and> check_message m")
  case True
  then obtain v w where v: "u = Some v" "v \<noteq> []" "m = Some w" "w \<noteq> []" using checked by blast
  obtain x p1 where x: "prepare_publish net v w p = (x, p1)" by fastforce
  note g = prepare_publish_orderly [OF x assms(2) v(2)]
  show ?thesis
  proof (cases x)
    case None
    then show ?thesis using assms(1) x v True g by (simp add: publish_json_def)
  next
    case (Some r)
    then have "p' = p1\<lparr>sent := sent p1 @ [r]\<rparr>"
      using assms(1) x v True by (auto simp: publish_json_def curl_easy_perform_def)
    moreover have "well_formed r" using g Some v(4) by (simp add: handle_ok_def well_formed_def)
    ultimately show ?thesis using g transfer_orderly adds_goodD adds_good_trans by metis
  qed
qed (use assms in \<open>auto simp: publish_json_def adds_good_refl\<close>)

lemma create_new_experiment_orderly:
  assumes "create_new_experiment net u m b p = Some (rc, b', p')" "orderly p"
  shows "adds_good p p'"
proof (cases "check_URL u \<and> check_message m")
  case True
  then obtain v w where v: "u = Some v" "v \<noteq> []" "m = Some w" "w \<noteq> []" using checked by blast
  obtain x p1 where x: "prepare_publish net v w p = (x, p1)" by fastforce
  note g = prepare_publish_orderly [OF x assms(2) v(2)]
  show ?thesis
  proof (cases x)
    case None
    then show ?thesis using assms(1) x v True g by (simp add: create_new_experiment_def)
  next
    case (Some r)
    then obtain ok where "curl_easy_perform_reading net r b p1 = Some (ok, b', p')"
      using assms(1) x v True by (auto simp: create_new_experiment_def Option.bind_eq_Some_conv)
    then have "adds_good p1 p'" using g Some v(4) adds_goodD by (intro reading_orderly) (auto simp: handle_ok_def well_formed_def)
    then show ?thesis using g adds_good_trans by blast
  qed
qed (use assms in \<open>auto simp: create_new_experiment_def adds_good_refl\<close>)

lemma perform_orderly:
  "curl_easy_perform net (r\<lparr>body := m\<rparr>) p = (ok, p') \<Longrightarrow> handle_ok r \<Longrightarrow> orderly p \<Longrightarrow> m \<noteq> [] \<Longrightarrow> adds_good p p'"
  using transfer_orderly [of p "r\<lparr>body := m\<rparr>"] by (auto simp: curl_easy_perform_def handle_ok_def well_formed_def)

lemma publish_lines_orderly:
  "publish_lines net r s bufs i m p = Some (fin, i', m', p') \<Longrightarrow> handle_ok r \<Longrightarrow> orderly p \<Longrightarrow> adds_good p p'"
proof (induction net r s bufs i m p rule: publish_lines.induct)
  case (2 net r s buf bufs i m p)
  have ne: "c_string buf \<noteq> []" using 2(4) by auto
  consider "i = 0" | "i = 9" | "i \<noteq> 0" "i \<noteq> 9" by blast
  then show ?case
  proof cases
    case 1
    then show ?thesis using 2 ne by (fastforce simp: Let_def Option.bind_eq_Some_conv)
  next
    case [simp]: 2
    let ?t = "'','' @ record_text s (butlast (c_string buf)) @ '']''"
    obtain m1 where m1: "c_append MESSAGE_CAP m ?t = Some m1"
      using "2.prems"(1) ne by (auto simp: Let_def Option.bind_eq_Some_conv)
    obtain ok q where q: "curl_easy_perform net (r\<lparr>body := m1\<rparr>) p = (ok, q)" by fastforce
    have "m1 \<noteq> []" using m1 by (simp add: c_append_Some)
    then have g: "adds_good p q" using perform_orderly q "2.prems"(2,3) by blast
    show ?thesis
    proof (cases ok)
      case True
      then have "publish_lines net r s bufs 0 [] q = Some (fin, i', m', p')"
        using "2.prems"(1) ne m1 q by (simp add: Let_def)
      then have "adds_good q p'" using "2.IH"(2) ne m1 q True "2.prems"(2) adds_goodD [OF g] by simp
      then show ?thesis using g adds_good_trans by blast
    next
      case False
      then show ?thesis using "2.prems"(1) ne m1 q g by (simp add: Let_def)
    qed
  next
    case 3
    then show ?thesis using 2 ne by (fastforce simp: Let_def Option.bind_eq_Some_conv)
  qed
qed (simp add: adds_good_refl)

lemma publish_tail_orderly:
  "publish_tail net r (fin, i, m, p) = Some (rc, p') \<Longrightarrow> handle_ok r \<Longrightarrow> orderly p \<Longrightarrow> adds_good p p'"
  by (auto simp: publish_tail_def adds_good_refl c_append_Some Option.bind_eq_Some_conv
      intro: perform_orderly split: if_split_asm prod.split_asm)

lemma publish_file_orderly:
  assumes "publish_file net fs u s f p = Some (rc, p')" "orderly p"
  shows "adds_good p p'"
proof (cases "check_URL u \<and> check_message s \<and> check_message f")
  case True
  then obtain v where v: "u = Some v" "v \<noteq> []" using checked by blast
  obtain x p1 where x: "prepare_publish net v [] p = (x, p1)" by fastforce
  note g = prepare_publish_orderly [OF x assms(2) v(2)]
  show ?thesis
  proof (cases x)
    case None
    then show ?thesis using assms(1) x v True g by (simp add: publish_file_def)
  next
    case r: (Some r)
    show ?thesis
    proof (cases "fs (the f)")
      case None
      then show ?thesis using assms(1) x v True g r by (simp add: publish_file_def)
    next
      case (Some contents)
      obtain fin i m q where l: "publish_lines net r (the s) (fgets_all 320 contents) 0 [] p1 = Some (fin, i, m, q)"
        and t: "publish_tail net r (fin, i, m, q) = Some (rc, p')"
        using assms(1) x v True r Some by (auto simp: publish_file_def Option.bind_eq_Some_conv)
      have h: "handle_ok r" "orderly p1" using g r adds_goodD by blast+
      have q: "adds_good p1 q" by (rule publish_lines_orderly [OF l h])
      have "adds_good q p'" by (rule publish_tail_orderly [OF t h(1) adds_goodD [OF q]])
      then show ?thesis using g q adds_good_trans by blast
    qed
  qed
qed (use assms in \<open>auto simp: publish_file_def adds_good_refl\<close>)

subsection \<open>The users of the publisher\<close>

lemma gather_rounds_orderly:
  "gather_rounds net u call h s cap bulk n r p = Some p' \<Longrightarrow> orderly p \<Longrightarrow> adds_good p p'"
proof (induction n arbitrary: r p)
  case (Suc n)
  then obtain f m where m: "gather_rounds net u call h s cap bulk n (r + 1) (snd (publish_json net (Some u) (Some m) p)) = Some p'"
    by (auto simp: Option.bind_eq_Some_conv split: option.split_asm)
  have "adds_good p (snd (publish_json net (Some u) (Some m) p))"
    using publish_json_orderly Suc.prems(2) by (metis prod.collapse)
  then show ?case using Suc.IH [OF m] adds_goodD adds_good_trans by blast
qed (simp add: adds_good_refl)

lemma gatherMetric_orderly: "gatherMetric net x u call hs num b rounds p = Some p' \<Longrightarrow> orderly p \<Longrightarrow> adds_good p p'"
  by (auto simp: gatherMetric_def Option.bind_eq_Some_conv intro: gather_rounds_orderly)

lemma live_block: "(case b of Live e \<Rightarrow> f e | Dangling \<Rightarrow> None) = Some x \<longleftrightarrow> (\<exists>e. b = Live e \<and> f e = Some x)"
  by (cases b) auto

lemma prepare_orderly: "prepare net cfg x p = Some (rc, u, x', p') \<Longrightarrow> orderly p \<Longrightarrow> adds_good p p'"
  by (auto simp: prepare_def Let_def live_block Option.bind_eq_Some_conv intro: create_new_experiment_orderly)

lemma get_config_parameters_orderly:
  "get_config_parameters net server plat st p = Some (rc, st', p') \<Longrightarrow> orderly p \<Longrightarrow> adds_good p p'"
  by (auto simp: get_config_parameters_def live_block Option.bind_eq_Some_conv intro: query_json_orderly split: if_split_asm)

lemma mf_start_orderly:
  "mf_start h net creates server plat m st p = Some (Return (path, ts, st', p')) \<Longrightarrow> orderly p \<Longrightarrow> adds_good p p'"
  by (auto simp: mf_start_def Let_def Option.bind_eq_Some_conv intro: get_config_parameters_orderly
      split: option.split_asm call.split_asm if_split_asm)

lemma send_entries_orderly:
  "foldM (send_entry net u ids e) names (st, p) = Some (st', p') \<Longrightarrow> orderly p \<Longrightarrow> adds_good p p'"
proof (induction names arbitrary: st p)
  case (Cons d names)
  then obtain st1 q where q: "send_entry net u ids e d (st, p) = Some (st1, q)"
    "foldM (send_entry net u ids e) names (st1, q) = Some (st', p')"
    by (auto simp: Option.bind_eq_Some_conv)
  have "adds_good p q" using q(1) Cons.prems(2)
    by (auto simp: send_entry_def Option.bind_eq_Some_conv intro: publish_file_orderly)
  then show ?case using Cons.IH [OF q(2)] adds_goodD adds_good_trans by blast
qed (simp add: adds_good_refl)

lemma mf_send_orderly:
  assumes "mf_send h net server ids st p = Some (e, st', p')" "orderly p"
  shows "adds_good p p'"
proof -
  obtain msg u rc b p1 where c: "create_new_experiment net (Some u) (Some msg) (Live []) p = Some (rc, b, p1)"
    and r: "p' = p1 \<or> (\<exists>v e names st2. foldM (send_entry net v ids e) names (st, p1) = Some (st2, p'))"
    using assms(1) by (auto simp: mf_send_def live_block Option.bind_eq_Some_conv split: if_split_asm option.split_asm; blast)
  have g: "adds_good p p1" by (rule create_new_experiment_orderly [OF c assms(2)])
  show ?thesis using r g send_entries_orderly [OF _ adds_goodD [OF g]] adds_good_trans by blast
qed

text \<open>Every use of the network the program makes, and what it does to the publisher.\<close>

datatype 'h network_use =
    Query "cstr option" block
  | Publish "cstr option" "cstr option"
  | Publish_file "cstr \<Rightarrow> string option" "cstr option" "cstr option" "cstr option"
  | Experiment "cstr option" "cstr option" block
  | Agent_prepare mfp_state Thread_Handler.ids
  | Agent_thread Thread_Handler.ids cstr "'h \<Rightarrow> nat \<Rightarrow> nat \<Rightarrow> cstr option \<times> bool" "'h option list" nat int nat
  | Api_start host "nat \<Rightarrow> bool" cstr cstr metrics api
  | Api_send host cstr send_ids api

fun use_network :: "net \<Rightarrow> 'h network_use \<Rightarrow> pub \<Rightarrow> pub option" where
  "use_network net (Query u b) p = map_option (\<lambda>(_, _, p'). p') (query_json net u b p)"
| "use_network net (Publish u m) p = Some (snd (publish_json net u m p))"
| "use_network net (Publish_file fs u s f) p = map_option snd (publish_file net fs u s f p)"
| "use_network net (Experiment u m b) p = map_option (\<lambda>(_, _, p'). p') (create_new_experiment net u m b p)"
| "use_network net (Agent_prepare cfg x) p = map_option (\<lambda>(_, _, _, p'). p') (prepare net cfg x p)"
| "use_network net (Agent_thread x u call hs num b rounds) p = gatherMetric net x u call hs num b rounds p"
| "use_network net (Api_start h creates server plat m st) p =
     (case mf_start h net creates server plat m st p of Some (Return (_, _, _, p')) \<Rightarrow> Some p' | _ \<Rightarrow> None)"
| "use_network net (Api_send h server ids st) p = map_option (\<lambda>(_, _, p'). p') (mf_send h net server ids st p)"

interpretation network: requester "use_network net" for net
proof
  fix p c p'
  assume p: "orderly p" and "use_network net c p = Some p'"
  then show "adds_good p p'"
    by (cases c) (auto simp: publish_json_orderly [OF prod.collapse [symmetric]] gatherMetric_orderly
        intro: query_json_orderly publish_file_orderly create_new_experiment_orderly prepare_orderly mf_start_orderly mf_send_orderly
        split: option.split_asm call.split_asm)
qed

text \<open>
  C10. No malformed request ever leaves the program: in a process that starts with no headers, any
  sequence of calls of the publisher, by the agent and its threads in any order or by the
  application API, with any arguments, servers and failures, makes only requests that have a
  URL, exactly the three JSON headers (once each, although every call asks for them) and, if
  they are a POST, a body.
\<close>

theorem every_request_well_formed:
  assumes "foldM (use_network net) us \<lparr>headers = [], sent = []\<rparr> = Some p" "r \<in> set (sent p)"
  shows "url r \<noteq> [] \<and> hdrs r = [''Accept: application/json'', ''Content-Type: application/json'', ''charsets: utf-8''] \<and>
    (meth r = POST \<longrightarrow> body r \<noteq> [])"
proof -
  have "orderly \<lparr>headers = [], sent = []\<rparr>" by (simp add: orderly_def)
  from adds_goodD [OF network.runs_good [OF this assms(1)]] assms(2)
  show ?thesis by (auto simp: orderly_def well_formed_def JSON_HEADERS_def)
qed

theorem every_request_well_formed_witness:
  "\<exists>p. foldM (use_network \<lparr>curl_ok = True, reply = (\<lambda>_ _. (True, [])), realloc_at = (\<lambda>_. InPlace)\<rparr>)
      [Publish (Some ''u'') (Some ''m''), Publish (Some ''u'') (Some []), Query (Some ''v'') (Live []) :: unit network_use]
      \<lparr>headers = [], sent = []\<rparr> = Some p \<and>
    map url (sent p) = [''u'', ''v''] \<and> (\<forall>r \<in> set (sent p). length (hdrs r) = 3)"
proof -
  let ?net = "\<lparr>curl_ok = True, reply = (\<lambda>_ _. (True, [])), realloc_at = (\<lambda>_. InPlace)\<rparr>"
  let ?us = "[Publish (Some ''u'') (Some ''m''), Publish (Some ''u'') (Some []), Query (Some ''v'') (Live [])] :: unit network_use list"
  obtain p where p: "foldM (use_network ?net) ?us \<lparr>headers = [], sent = []\<rparr> = Some p" "map url (sent p) = [''u'', ''v'']"
    by (simp add: publish_json_def check_URL_def check_message_def prepare_publish_def init_curl_def curl_easy_perform_def
        query_json_def prepare_query_def curl_easy_perform_reading_def)
  have "length (hdrs r) = 3" if "r \<in> set (sent p)" for r
    using every_request_well_formed [OF p(1) that] by simp
  then show ?thesis using p by (intro exI [of _ p] conjI ballI)
qed

end
