(* ===== verification/Spec2Isabelle.thy ===== *)
theory Spec2Isabelle
  imports Agent_Shutdown Linux_Resources CPU_Perf Api_Pipeline Agent_Pipeline Requests
begin

section \<open>The PHANTOM monitoring client: a model and its correctness\<close>

text \<open>
  \<^bold>\<open>The program.\<close> The client monitors a Linux machine and sends what it measures, as JSON, to the
  monitoring server. It consists of three programs over a common stock of C code:

  \<^item> the agent (\<^verbatim>\<open>src/agent\<close>): \<open>main\<close> reads the configuration with the INI parser
    (\<^verbatim>\<open>src/parser\<close>), asks the server for an experiment, loads the plugins of a directory
    (\<open>discover_plugins\<close>), and starts one thread for each plugin, which samples through the
    plugin's hook and posts bulk messages with libcurl (\<^verbatim>\<open>src/publisher\<close>), and one thread that reads
    the configuration again from time to time. A signal makes the main thread join the plugin
    threads, unload the plugins and destroy the configuration;
  \<^item> seven plugins (\<^verbatim>\<open>src/plugins\<close>): for each, a connector with an init, a sample and a JSON
    function, an entry file that registers the hook with the plugin manager, and a stand-alone
    client that prints the texts on its own;
  \<^item> an application API (\<^verbatim>\<open>src/api\<close>): an application starts monitor threads for itself and
    records metrics of its own; all write lines to files, which \<open>mf_send\<close> posts at the end.

  \<^bold>\<open>How C is modelled.\<close> Undefined behaviour (a write past an array, a read of an indeterminate
  variable, a use of released memory, a null pointer dereferenced) is the value \<open>None\<close> of an
  \<open>option\<close>; \<open>Some\<close> is a run that stays inside the language, and the failures the code reports
  itself are values inside \<open>Some\<close>. A result that may end the process is a \<open>call\<close> (\<open>Exit\<close> or
  \<open>Return\<close>). A fixed character array of size \<open>n\<close> is written through \<open>c_store n\<close>. Machine
  integers are words of their width; \<open>float\<close> and \<open>double\<close> are the IEEE numbers of theory
  \<open>C_Float\<close>, every operation rounded to its own format. Global variables of a file are a record;
  each function takes and returns it. What lies outside the repository is an argument: the file
  system and the clock (\<open>machine\<close>, \<open>host\<close>, \<open>os\<close>), libcurl and the server (\<open>net\<close>), the EXCESS
  queue (\<open>Q\<close>, with its FIFO law as the hypothesis \<open>fifo_queue\<close>), the dynamic loader (\<open>dl\<close>),
  the order in which apr visits a hash table, PAPI, NVML, libsensors, libiio and hwloc.

  Two definitions give undefined behaviour a value instead of \<open>None\<close>, because every run of the
  program meets it: \<open>meminfo_rate\<close> lets the signed product \<open>MemTotal * MemFree\<close> wrap, as the
  unoptimised build does, and \<open>memory_counter_read\<close> starts its sum from an arbitrary
  \<open>stack_slot\<close>, the local variable that nothing has written. Both are listed as findings.

  \<^bold>\<open>The theories.\<close> The foundations:

  \<^item> \<open>MF_Prelude\<close>: buffers (\<open>c_store\<close>, \<open>c_append\<close>), \<open>foldM\<close>, batches (\<open>blocks\<close>), \<open>join\<close>; the
    collection \<open>c_safe\<close> of the equations that say when a library call stays inside its buffer;
  \<^item> \<open>C_Float\<close>: rounding, the arithmetic of the two formats, range and exactness lemmas; the locale
    \<open>rounding\<close> (a monotone function that keeps the exact numbers), interpreted for both formats;
  \<^item> \<open>C_Strings\<close>: \<open>strstr\<close>, \<open>strrchr\<close>, \<open>strncmp\<close>, \<open>fgets\<close>, \<open>strtol\<close>, \<open>atof\<close>, the conversions of
    \<open>sscanf\<close> and \<open>printf\<close>, with what they do on texts that another part of the program has written.

  The agent:

  \<^item> \<open>Ini_Parser\<close> (\<^verbatim>\<open>parser/libs/ini/ini.c\<close>) and \<open>Mf_Parser\<close> (\<^verbatim>\<open>parser/src/mf_parser.c\<close>): the
    parser line by line and the two-level store it fills. The locale \<open>config_store\<close> is the
    contract of the store (what a lookup returns after a write); round trip of a whole
    configuration file, first error, filtered listing, unreadable file;
  \<^item> \<open>Publisher\<close> (\<^verbatim>\<open>publisher/src/publisher.c\<close>): every entry point; \<open>publish_file\<close> refines
    "post the lines in batches of ten"; chunks of a response, overflow;
  \<^item> \<open>Plugin_Manager\<close>, \<open>Plugin_Discover\<close> (\<^verbatim>\<open>agent/plugin_*.c\<close>): names, handles and hooks stay
    aligned, and exactly the selected plugins are loaded;
  \<^item> \<open>Thread_Handler\<close> (\<^verbatim>\<open>agent/thread_handler.c\<close>): timings, bulk messages, the sampling loop;
  \<^item> \<open>Agent_Main\<close> (\<^verbatim>\<open>agent/main.c\<close>): paths, options, the experiment, the start;
  \<^item> \<open>Agent_Shutdown\<close>: the threads as the step relation \<open>agent_step\<close> with all interleavings; an
    invariant by rule induction gives that no hook is called after the plugins are unloaded, and a
    progress argument that the agent can always finish after a signal.

  The plugins:

  \<^item> \<open>Plugin_Metrics\<close>: the structure all connectors fill and the steps of their JSON texts; the
    locale \<open>connector\<close> (sampling keeps the events), interpreted for all seven;
  \<^item> \<open>Clock\<close>: time stamps as a linear order (an instance of the library's class), and that the
    milliseconds computed from them in double precision keep this order and fit their fields;
  \<^item> \<open>Linux_Resources\<close>, \<open>Linux_Sys_Power\<close>, \<open>RAPL_Power\<close>, \<open>CPU_Perf\<close>, \<open>NVML\<close>,
    \<open>CPU_Temperature\<close>, \<open>Board_Power\<close>: one theory for each \<^verbatim>\<open>mf_*_connector.c\<close>; which events an
    initialisation creates, that a sample puts each value at the index of its event, what each value
    means by the name of its event, and that the JSON text fits its buffer;
  \<^item> \<open>Plugin_Glue\<close> (\<^verbatim>\<open>mf_plugin_*.c\<close>): the common text of the entry points and its seven
    instances; an init function that returns has registered its hook exactly when its code is 1, and
    one plugin ends the agent instead of returning. The locale \<open>plugin_connector\<close> extends \<open>connector\<close> by the codes of the init
    function, \<open>reporting_plugin\<close> extends it by an invariant under which the text is complete; the
    interpretations are on the connectors of the repository;
  \<^item> \<open>Agent_Plugins\<close>: the agent with these plugins behind the loader;
  \<^item> \<open>Agent_Pipeline\<close>: a plugin's hook behind the function pointer of a sampling thread; the locale
    \<open>thread_plugin\<close> extends \<open>reporting_plugin\<close> by a bound on the text, under which what the
    connector samples is what the thread posts; interpreted for the Linux_sys_power plugin;
  \<^item> \<open>Plugin_Clients\<close> (\<^verbatim>\<open>utils/mf_*_client.c\<close> and the shutdown functions of the connectors): a
    client and the hook of the plugin show the same texts; what a signal at the wrong time does.

  The application API:

  \<^item> \<open>Monitor_Common\<close>, \<open>Resources_Monitor\<close>, \<open>Disk_Monitor\<close>, \<open>Power_Monitor\<close>
    (\<^verbatim>\<open>api/src/*_monitor.c\<close>): the lines of a run, and that what they count adds up to the growth of
    the counters;
  \<^item> \<open>Mf_Api\<close> (\<^verbatim>\<open>api/src/mf_api.c\<close>): preparation, user metrics, parameters of the platform, start,
    end, sending;
  \<^item> \<open>Api_Pipeline\<close>: the monitors composed with \<open>mf_send\<close>; the locale \<open>monitor\<close> is the contract of
    a monitor's loop (its lines are lines of text, and what each step writes holds of all lines),
    and \<open>stamped_monitor\<close> extends it by the time stamp of each line (the lines of a run are in the
    order of their rounds); both are interpreted for the three monitors. No line overflows the
    line buffer of the sender, and lines of the resources and the disk monitor do not overflow its
    message buffer while the four ids of a record together have at most 52 characters.

  Across the agent and the API:

  \<^item> \<open>Requests\<close>: the publisher is shared by both; the locale \<open>requester\<close> is the contract of its
    users (requests are only added, and good ones), interpreted for every use the program makes.

  \<^bold>\<open>Bounds.\<close> Loops over lists are structural recursions; the loops \<open>while(running)\<close> take the list of
  what is seen in their rounds, so a theorem about any list is one about any number of rounds. The
  one loop that may run for ever, the outer loop of \<open>mf_RAPL_power_sample\<close>, is a
  \<open>partial_function\<close>; \<open>RAPL_sample_terminates\<close> shows after which initialisations every sample
  returns, and that the others leave the language at the first sample. The threads of the agent are not bounded.

  \<^bold>\<open>Not modelled.\<close> Log and error messages (\<^verbatim>\<open>core/mf_debug.h\<close>, \<open>printf\<close> to the terminal except in
  the clients), the release of memory where nothing uses it afterwards (\<open>mfp_data_free\<close>, \<open>PluginManager_free\<close>, the calls
  of \<open>free\<close> at the end of \<open>main\<close>), memory exhaustion (\<open>malloc\<close> succeeds; libcurl's \<open>realloc\<close> may
  move the block), the queue library and its C interface in \<^verbatim>\<open>ext/queue\<close>, the unit-test framework
  \<^verbatim>\<open>ext/CuTest\<close>, the tests, and the simulation in \<^verbatim>\<open>api/app_alexy\<close> that only serves as a program
  to be monitored.
\<close>

end
